theory Spec2Isabelle
  imports Complex_Main
begin

section \<open>Values and external libraries\<close>

text \<open>
  The wallet-claim subsystem of the KLIK API, embedded from the JavaScript sources
  \<^verbatim>\<open>utils/solanaSignature.js\<close>, \<^verbatim>\<open>middleware/claimRateLimit.js\<close>,
  \<^verbatim>\<open>services/memoSender.js\<close>, \<^verbatim>\<open>routes/claim.js\<close>, \<^verbatim>\<open>crons/orphanTransition.js\<close> and the
  claim notification scheduler.

  A JavaScript value as far as the address validator distinguishes them.
\<close>

datatype jsval = JUndefined | JNull | JBool bool | JNum int | JStr string

type_synonym bytes = "nat list"

text \<open>
  The npm packages the code calls are not part of the repository; they are parameters of
  the model. \<open>publicKey_new\<close> is \<^verbatim>\<open>new PublicKey(s)\<close> (\<open>None\<close> when it throws),
  \<open>publicKey_toBase58\<close> is \<^verbatim>\<open>pubkey.toBase58()\<close>, \<open>bs58_decode\<close> is \<^verbatim>\<open>bs58.decode\<close>
  (\<open>None\<close> when it throws), \<open>nacl_verify msg sig pk\<close> is
  \<^verbatim>\<open>nacl.sign.detached.verify\<close> and \<open>objectId_isValid\<close> is \<^verbatim>\<open>ObjectId.isValid\<close>.
\<close>

record ext =
  publicKey_new :: "string \<Rightarrow> bytes option"
  publicKey_toBase58 :: "bytes \<Rightarrow> string"
  bs58_decode :: "string \<Rightarrow> bytes option"
  nacl_verify :: "string \<Rightarrow> bytes \<Rightarrow> bytes \<Rightarrow> bool"
  objectId_isValid :: "string \<Rightarrow> bool"

subsection \<open>A concrete Base58 codec, used to run the model on real addresses\<close>

definition b58_alphabet :: string where
  "b58_alphabet = ''123456789ABCDEFGHJKLMNPQRSTUVWXYZabcdefghijkmnopqrstuvwxyz''"

fun index_of :: "'a \<Rightarrow> 'a list \<Rightarrow> nat option" where
  "index_of x [] = None"
| "index_of x (y # ys) =
     (if x = y then Some 0 else (case index_of x ys of None \<Rightarrow> None | Some i \<Rightarrow> Some (Suc i)))"

fun b58_value :: "nat \<Rightarrow> string \<Rightarrow> nat option" where
  "b58_value acc [] = Some acc"
| "b58_value acc (c # cs) =
     (case index_of c b58_alphabet of
        None \<Rightarrow> None
      | Some d \<Rightarrow> b58_value (acc * 58 + d) cs)"

fun bytes_of_nat :: "nat \<Rightarrow> bytes" where
  "bytes_of_nat n = (if n = 0 then [] else bytes_of_nat (n div 256) @ [n mod 256])"

fun nat_of_bytes :: "nat \<Rightarrow> bytes \<Rightarrow> nat" where
  "nat_of_bytes acc [] = acc"
| "nat_of_bytes acc (b # bs) = nat_of_bytes (acc * 256 + b) bs"

fun b58_digits :: "nat \<Rightarrow> string" where
  "b58_digits n = (if n = 0 then [] else b58_digits (n div 58) @ [b58_alphabet ! (n mod 58)])"

definition b58_decode :: "string \<Rightarrow> bytes option" where
  "b58_decode s =
     (case b58_value 0 s of
        None \<Rightarrow> None
      | Some v \<Rightarrow> Some (replicate (length (takeWhile (\<lambda>c. c = CHR ''1'') s)) 0 @ bytes_of_nat v))"

definition b58_encode :: "bytes \<Rightarrow> string" where
  "b58_encode bs =
     replicate (length (takeWhile (\<lambda>b. b = 0) bs)) (CHR ''1'') @ b58_digits (nat_of_bytes 0 bs)"

text \<open>
  The libraries as they behave on strings: a public key is a Base58 string that decodes
  to exactly 32 bytes; an ObjectId string is 24 hexadecimal digits. The signature check
  itself stays abstract (\<open>chk\<close>).
\<close>

definition is_hex :: "char \<Rightarrow> bool" where
  "is_hex c = (c \<in> set ''0123456789abcdefABCDEF'')"

definition solana_ext :: "(string \<Rightarrow> bytes \<Rightarrow> bytes \<Rightarrow> bool) \<Rightarrow> ext" where
  "solana_ext chk =
     \<lparr> publicKey_new = (\<lambda>s. case b58_decode s of
                              None \<Rightarrow> None
                            | Some bs \<Rightarrow> if length bs \<noteq> 32 then None else Some bs),
       publicKey_toBase58 = b58_encode,
       bs58_decode = b58_decode,
       nacl_verify = chk,
       objectId_isValid = (\<lambda>s. length s = 24 \<and> list_all is_hex s) \<rparr>"

section \<open>SignatureVerifier (utils/solanaSignature.js)\<close>

text \<open>The character class \<^verbatim>\<open>[1-9A-HJ-NP-Za-km-z]\<close> of the address pattern.\<close>

definition in_range :: "char \<Rightarrow> char \<Rightarrow> char \<Rightarrow> bool" where
  "in_range lo hi c = ((of_char lo :: nat) \<le> of_char c \<and> (of_char c :: nat) \<le> of_char hi)"

definition base58_class :: "char \<Rightarrow> bool" where
  "base58_class c =
     (in_range (CHR ''1'') (CHR ''9'') c \<or> in_range (CHR ''A'') (CHR ''H'') c \<or>
      in_range (CHR ''J'') (CHR ''N'') c \<or> in_range (CHR ''P'') (CHR ''Z'') c \<or>
      in_range (CHR ''a'') (CHR ''k'') c \<or> in_range (CHR ''m'') (CHR ''z'') c)"

text \<open>\<^verbatim>\<open>/^[1-9A-HJ-NP-Za-km-z]{32,44}$/.test(address)\<close>\<close>

definition address_pattern :: "string \<Rightarrow> bool" where
  "address_pattern s = (list_all base58_class s \<and> 32 \<le> length s \<and> length s \<le> 44)"

text \<open>
  \<^verbatim>\<open>isValidSolanaAddress\<close>: the falsy and non-string inputs return false, then the
  pattern, then the round trip through \<^verbatim>\<open>PublicKey\<close>, whose exception is caught and
  turned into false. The result is a plain boolean: no path leaves the function by an
  exception.
\<close>

definition isValidSolanaAddress :: "ext \<Rightarrow> jsval \<Rightarrow> bool" where
  "isValidSolanaAddress X address =
     (case address of
        JStr s \<Rightarrow>
          if s = [] then False
          else if \<not> address_pattern s then False
          else (case publicKey_new X s of
                  None \<Rightarrow> False
                | Some pubkey \<Rightarrow> publicKey_toBase58 X pubkey = s)
      | _ \<Rightarrow> False)"

text \<open>
  \<^verbatim>\<open>verifySolanaSignature\<close>: both decodings sit inside the \<^verbatim>\<open>try\<close>, so a decoding
  error is the answer false, as are the two length checks.
\<close>

definition verifySolanaSignature :: "ext \<Rightarrow> string \<Rightarrow> string \<Rightarrow> string \<Rightarrow> bool" where
  "verifySolanaSignature X walletAddress message signature =
     (case bs58_decode X walletAddress of
        None \<Rightarrow> False
      | Some publicKeyBytes \<Rightarrow>
          (case bs58_decode X signature of
             None \<Rightarrow> False
           | Some signatureBytes \<Rightarrow>
               if length publicKeyBytes \<noteq> 32 then False
               else if length signatureBytes \<noteq> 64 then False
               else nacl_verify X message signatureBytes publicKeyBytes))"

definition join_lines :: "string list \<Rightarrow> string" where
  "join_lines ls = (case ls of [] \<Rightarrow> [] | l # rest \<Rightarrow> foldl (\<lambda>acc x. acc @ [CHR 0x0A] @ x) l rest)"

definition generateClaimMessage :: "string \<Rightarrow> string \<Rightarrow> string \<Rightarrow> string \<Rightarrow> string" where
  "generateClaimMessage agentId walletAddress nonce timestamp =
     join_lines
       [''Claim OpenClaw Agent #'' @ agentId @ '' for wallet '' @ walletAddress,
        '''',
        ''Nonce: '' @ nonce,
        ''Timestamp: '' @ timestamp,
        ''Domain: klik.cool'']"

definition generateOptOutMessage :: "string \<Rightarrow> string \<Rightarrow> string \<Rightarrow> string" where
  "generateOptOutMessage walletAddress nonce timestamp =
     join_lines
       [''Opt out of OpenClaw for wallet '' @ walletAddress,
        '''',
        ''I request permanent deletion of my OpenClaw agent and all associated data.'',
        '''',
        ''Nonce: '' @ nonce,
        ''Timestamp: '' @ timestamp,
        ''Domain: klik.cool'']"

section \<open>Requests, replies and the environment of one invocation\<close>

text \<open>
  Request fields are strings or absent. \<open>truthy\<close> is JavaScript truthiness on such a
  field and \<open>js_or\<close> is \<^verbatim>\<open>a || b\<close>.
\<close>

definition truthy :: "string option \<Rightarrow> bool" where
  "truthy x = (case x of None \<Rightarrow> False | Some s \<Rightarrow> s \<noteq> [])"

definition js_or :: "string option \<Rightarrow> string option \<Rightarrow> string option" where
  "js_or a b = (if truthy a then a else b)"

definition as_js :: "string option \<Rightarrow> jsval" where
  "as_js x = (case x of None \<Rightarrow> JUndefined | Some s \<Rightarrow> JStr s)"

record request =
  reqIp :: "string option"
  remoteAddress :: "string option"
  bodyWallet :: "string option"
  queryWallet :: "string option"
  bodyAgentId :: "string option"
  bodySignature :: "string option"
  bodyNonce :: "string option"

datatype rcmd = GET | SET | DEL | INCR | EXPIRE | PUBLISH

datatype coll = Agent | User | Post | Comment | AgentMemory | AgentPersonality
  | OrphanWatchlist | WalletAgentNotifications | WalletAgentClaims | WalletOptOuts

datatype dbverb = FindOne | Find | InsertOne | UpdateOne | FindOneAndUpdate
  | CountDocuments | DeleteOne | DeleteMany

text \<open>
  What one invocation gets from outside: the clock (milliseconds), whether \<^verbatim>\<open>req.db\<close> is
  set, whether \<^verbatim>\<open>req.redis\<close> is set and ready, which storage commands throw during this
  invocation, and the values it draws (\<^verbatim>\<open>crypto.randomBytes(32).toString('hex')\<close>,
  \<^verbatim>\<open>new Date().toISOString()\<close>, the \<^verbatim>\<open>insertedId\<close> of a new user).
\<close>

record env =
  now :: int
  dbUp :: bool
  redisUp :: bool
  redisThrows :: "rcmd \<Rightarrow> bool"
  dbThrows :: "coll \<Rightarrow> dbverb \<Rightarrow> bool"
  randomHex :: string
  isoTimestamp :: string
  newUserId :: string

record check_agent =
  caId :: string
  caClaimStatus :: string
  caClaimDeadline :: "int option"
  caDaysRemaining :: "int option"
  caClaimedAt :: "int option"
  caClaimedBy :: "string option"

text \<open>
  A reply: an error with its HTTP status and machine-readable \<^verbatim>\<open>code\<close> (empty when the body
  has none), or the success body of one of the routes (the fields the claims read).
\<close>

datatype response =
    Err nat string
  | CheckReply bool "string option" "check_agent option"
  | NonceReply string string string nat
  | ClaimReply string "nat option" string
  | OptOutReply string int

datatype mw_result = Next | Respond response

section \<open>The document store\<close>

text \<open>
  The collections the claim subsystem reads and writes, each a list of documents in
  storage order, and the cache. Timestamps are milliseconds. An absent field is \<open>None\<close>.
  The fields under \<^verbatim>\<open>walletAgentData\<close> are flattened into the agent.
\<close>

record agent =
  aid :: string
  aName :: string
  isWalletAgent :: bool
  sourceWallet :: "string option"
  claimStatus :: "string option"
  claimDeadline :: "int option"
  claimedAt :: "int option"
  claimedBy :: "string option"
  claimSignature :: "string option"
  claimNonce :: "string option"
  orphanedAt :: "int option"
  ownerId :: "string option"
  foundingRank :: "nat option"
  createdAt :: "int option"
  updatedAt :: "int option"

record user =
  uid :: string
  walletAddress :: "string option"
  authMethod :: string
  subscriptionTier :: string
  lastLoginAt :: "int option"
  userCreatedAt :: int

text \<open>A document of \<^verbatim>\<open>wallet_agent_claims\<close>, the audit log.\<close>

record audit =
  auWallet :: "string option"
  auAgentId :: "string option"
  auUserId :: "string option"
  auAction :: string
  auResult :: "string option"
  auFoundingRank :: "nat option"
  auIp :: "string option"
  auTimestamp :: int

record optout =
  ooWallet :: string
  optedOutAt :: int
  ooSignature :: string
  ooAgentId :: "string option"
  ooAgentName :: "string option"

record watcher =
  wid :: string
  watcherUser :: string
  watchedAgent :: string
  notified :: bool
  notifiedAt :: "int option"

text \<open>
  \<^verbatim>\<open>wallet_agent_notifications\<close> holds two kinds of document: the notification scheduler
  writes the agent id as a string, the orphan job writes it as an ObjectId. A query for
  one does not match the other.
\<close>

datatype idref = ObjRef string | StrRef string

record notification =
  nAgentId :: idref
  nUserId :: "string option"
  nType :: "string option"
  nChannel :: "string option"
  nTemplate :: "string option"
  nStatus :: "string option"
  nTxSignature :: "string option"
  nError :: "string option"
  nScheduledDay :: "int option"
  nActualDay :: "int option"
  nTimestamp :: int

datatype rvalue = RNonce string string string | RInt int | RText string

type_synonym redis = "string \<Rightarrow> (rvalue \<times> int option) option"

text \<open>
  \<open>posts\<close>, \<open>comments\<close>, \<open>agentMemory\<close> and \<open>agentPersonality\<close> are the collections \<^verbatim>\<open>Post\<close>,
  \<^verbatim>\<open>Comment\<close>, \<^verbatim>\<open>agent_memory\<close> and \<^verbatim>\<open>agent_personality\<close> as the opt-out handler addresses
  them: each document is the value of the field that the handler's \<^verbatim>\<open>deleteMany\<close> filter
  reads (\<^verbatim>\<open>authorId\<close>, \<^verbatim>\<open>agent_id\<close>, \<^verbatim>\<open>agentId\<close>, \<^verbatim>\<open>agentId\<close>). What the rest of the
  repository keeps about an agent under other collection or field names is not in the
  model.
\<close>

record world =
  agents :: "agent list"
  users :: "user list"
  posts :: "string list"
  comments :: "string list"
  agentMemory :: "string list"
  agentPersonality :: "string list"
  watchlist :: "watcher list"
  notifications :: "notification list"
  claimsLog :: "audit list"
  optOuts :: "optout list"
  cache :: redis

text \<open>\<^verbatim>\<open>updateOne\<close>: the first document that matches the filter is changed.\<close>

fun update_first :: "('a \<Rightarrow> bool) \<Rightarrow> ('a \<Rightarrow> 'a) \<Rightarrow> 'a list \<Rightarrow> 'a list" where
  "update_first P f [] = []"
| "update_first P f (x # xs) = (if P x then f x # xs else x # update_first P f xs)"

text \<open>\<^verbatim>\<open>deleteOne\<close>: the first document that matches the filter is removed.\<close>

fun delete_first :: "('a \<Rightarrow> bool) \<Rightarrow> 'a list \<Rightarrow> 'a list" where
  "delete_first P [] = []"
| "delete_first P (x # xs) = (if P x then xs else x # delete_first P xs)"

definition MS_PER_DAY :: int where
  "MS_PER_DAY = 1000 * 60 * 60 * 24"

definition NONCE_TTL_SECONDS :: int where
  "NONCE_TTL_SECONDS = 300"

text \<open>\<^verbatim>\<open>agent.walletAgentData?.claimStatus || 'UNCLAIMED'\<close>\<close>

definition status_or_unclaimed :: "agent \<Rightarrow> string" where
  "status_or_unclaimed a =
     (case claimStatus a of None \<Rightarrow> ''UNCLAIMED'' | Some s \<Rightarrow> if s = [] then ''UNCLAIMED'' else s)"

text \<open>The filter \<^verbatim>\<open>{'walletAgentData.sourceWallet': wallet, isWalletAgent: true}\<close>.\<close>

definition wallet_agent_of :: "string \<Rightarrow> agent \<Rightarrow> bool" where
  "wallet_agent_of wallet a = (sourceWallet a = Some wallet \<and> isWalletAgent a)"

definition log_claim :: "audit \<Rightarrow> world \<Rightarrow> world" where
  "log_claim entry w = w\<lparr>claimsLog := claimsLog w @ [entry]\<rparr>"

section \<open>The cache (Redis)\<close>

text \<open>
  A key holds a value and, possibly, the time at which it expires. The values stored by
  this subsystem are the JSON nonce records \<^verbatim>\<open>{nonce, timestamp, message}\<close>
  (\<open>RNonce\<close>), the integer counters (\<open>RInt\<close>) and other JSON text (\<open>RText\<close>).
\<close>

definition redis_live :: "int \<Rightarrow> redis \<Rightarrow> string \<Rightarrow> (rvalue \<times> int option) option" where
  "redis_live t r k =
     (case r k of
        None \<Rightarrow> None
      | Some (v, e) \<Rightarrow> (case e of None \<Rightarrow> Some (v, e) | Some x \<Rightarrow> if t < x then Some (v, e) else None))"

definition redis_get :: "int \<Rightarrow> redis \<Rightarrow> string \<Rightarrow> rvalue option" where
  "redis_get t r k = map_option fst (redis_live t r k)"

text \<open>\<^verbatim>\<open>INCR\<close>: a missing key counts from 0 and gets no expiry; a non-integer value is an error.\<close>

definition redis_incr :: "int \<Rightarrow> redis \<Rightarrow> string \<Rightarrow> (int \<times> redis) option" where
  "redis_incr t r k =
     (case redis_live t r k of
        None \<Rightarrow> Some (1, r(k \<mapsto> (RInt 1, None)))
      | Some (RInt n, e) \<Rightarrow> Some (n + 1, r(k \<mapsto> (RInt (n + 1), e)))
      | Some (RNonce a b c, e) \<Rightarrow> None
      | Some (RText a, e) \<Rightarrow> None)"

definition redis_expire :: "int \<Rightarrow> redis \<Rightarrow> string \<Rightarrow> int \<Rightarrow> redis" where
  "redis_expire t r k secs =
     (case redis_live t r k of
        None \<Rightarrow> r
      | Some (v, e) \<Rightarrow> r(k \<mapsto> (v, Some (t + secs * 1000))))"

definition redis_set_ex :: "int \<Rightarrow> redis \<Rightarrow> string \<Rightarrow> rvalue \<Rightarrow> int \<Rightarrow> redis" where
  "redis_set_ex t r k v secs = r(k \<mapsto> (v, Some (t + secs * 1000)))"

definition redis_del :: "redis \<Rightarrow> string \<Rightarrow> redis" where
  "redis_del r k = r(k := None)"

text \<open>The key templates of the subsystem.\<close>

definition abuse_ip_key :: "string \<Rightarrow> string" where
  "abuse_ip_key ip = ''claim:abuse:ip:'' @ ip"

definition abuse_wallet_key :: "string \<Rightarrow> string" where
  "abuse_wallet_key wallet = ''claim:abuse:wallet:'' @ wallet"

definition claim_nonce_key :: "string \<Rightarrow> string \<Rightarrow> string" where
  "claim_nonce_key agentId wallet = ''claim:nonce:'' @ agentId @ '':'' @ wallet"

definition optout_nonce_key :: "string \<Rightarrow> string" where
  "optout_nonce_key wallet = ''claim:optout:nonce:'' @ wallet"

section \<open>AbuseGuard (middleware/claimRateLimit.js)\<close>

definition request_ip :: "request \<Rightarrow> string" where
  "request_ip req =
     (case js_or (js_or (reqIp req) (remoteAddress req)) (Some ''unknown'') of
        None \<Rightarrow> ''unknown'' | Some s \<Rightarrow> s)"

definition request_wallet :: "request \<Rightarrow> string option" where
  "request_wallet req =
     (let w = js_or (bodyWallet req) (queryWallet req) in if truthy w then w else None)"

text \<open>\<^verbatim>\<open>walletFailCount && parseInt(walletFailCount, 10) >= 5\<close> on what \<^verbatim>\<open>GET\<close> returned.\<close>

definition fail_count_blocks :: "rvalue option \<Rightarrow> bool" where
  "fail_count_blocks v = (case v of Some (RInt n) \<Rightarrow> n \<ge> 5 | _ \<Rightarrow> False)"

text \<open>
  \<^verbatim>\<open>detectClaimAbuse\<close>. Every exception of a Redis command inside the \<^verbatim>\<open>try\<close> ends in
  \<^verbatim>\<open>next()\<close>; what the commands before it wrote stays written.
\<close>

definition detectClaimAbuse :: "env \<Rightarrow> request \<Rightarrow> redis \<Rightarrow> mw_result \<times> redis" where
  "detectClaimAbuse e req r =
     (if \<not> redisUp e then (Next, r)
      else
        let ip = request_ip req;
            wallet = request_wallet req;
            ipKey = abuse_ip_key ip
        in if redisThrows e INCR then (Next, r)
           else (case redis_incr (now e) r ipKey of
              None \<Rightarrow> (Next, r)
            | Some (ipCount, r1) \<Rightarrow>
                if ipCount = 1 \<and> redisThrows e EXPIRE then (Next, r1)
                else
                  let r2 = (if ipCount = 1 then redis_expire (now e) r1 ipKey 3600 else r1)
                  in if ipCount > 100 then (Respond (Err 429 ''ABUSE_IP_BLOCKED''), r2)
                     else (case wallet of
                        None \<Rightarrow> (Next, r2)
                      | Some w \<Rightarrow>
                          if redisThrows e GET then (Next, r2)
                          else if fail_count_blocks (redis_get (now e) r2 (abuse_wallet_key w))
                            then (Respond (Err 429 ''ABUSE_WALLET_BLOCKED''), r2)
                            else (Next, r2))))"

text \<open>\<^verbatim>\<open>recordFailedClaimAttempt\<close>: its own \<^verbatim>\<open>try\<close> swallows every Redis error.\<close>

definition recordFailedClaimAttempt :: "env \<Rightarrow> redis \<Rightarrow> string \<Rightarrow> redis" where
  "recordFailedClaimAttempt e r wallet =
     (if \<not> redisUp e \<or> wallet = [] then r
      else if redisThrows e INCR then r
      else (case redis_incr (now e) r (abuse_wallet_key wallet) of
              None \<Rightarrow> r
            | Some (cnt, r1) \<Rightarrow>
                if cnt = 1 then (if redisThrows e EXPIRE then r1
                                 else redis_expire (now e) r1 (abuse_wallet_key wallet) 3600)
                else r1))"

section \<open>Claim routes (routes/claim.js)\<close>

text \<open>
  Each handler takes the libraries, the environment of the invocation, the request and
  the stores, and returns the reply with the stores as it leaves them. The body of a
  handler is one \<^verbatim>\<open>try\<close>: a storage command that throws ends the handler with status
  500, and what was written before stays written. The middleware in front of the
  handlers is added in the section on the endpoints; the post preview of the check reply
  and the JWT of the claim reply are not modelled.
\<close>

definition audit_entry ::
  "string option \<Rightarrow> string option \<Rightarrow> string \<Rightarrow> string option \<Rightarrow> request \<Rightarrow> int \<Rightarrow> audit" where
  "audit_entry wallet agentId action result req t =
     \<lparr> auWallet = wallet, auAgentId = agentId, auUserId = None, auAction = action,
       auResult = result, auFoundingRank = None, auIp = reqIp req, auTimestamp = t \<rparr>"

text \<open>\<^verbatim>\<open>Math.max(0, Math.ceil((new Date(claimDeadline) - now) / (1000 * 60 * 60 * 24)))\<close>\<close>

definition days_remaining :: "int \<Rightarrow> int \<Rightarrow> int" where
  "days_remaining deadline t = max 0 (- ((t - deadline) div MS_PER_DAY))"

text \<open>\<^verbatim>\<open>GET /api/v1/claim/check\<close>\<close>

definition check_route :: "ext \<Rightarrow> env \<Rightarrow> request \<Rightarrow> world \<Rightarrow> response \<times> world" where
  "check_route X e req w =
     (case queryWallet req of
        None \<Rightarrow> (Err 400 ''MISSING_WALLET'', w)
      | Some wallet \<Rightarrow>
          if wallet = [] then (Err 400 ''MISSING_WALLET'', w)
          else if \<not> isValidSolanaAddress X (JStr wallet) then (Err 400 ''INVALID_WALLET'', w)
          else if \<not> dbUp e then (Err 503 [], w)
          else if dbThrows e WalletOptOuts FindOne then (Err 500 [], w)
          else (case find (\<lambda>x. ooWallet x = wallet) (optOuts w) of
             Some optOut \<Rightarrow>
               if dbThrows e WalletAgentClaims InsertOne then (Err 500 [], w)
               else (CheckReply False (Some ''OPTED_OUT'') None,
                     log_claim (audit_entry (Some wallet) None ''CHECK'' (Some ''OPTED_OUT'') req (now e)) w)
           | None \<Rightarrow>
               if dbThrows e Agent FindOne then (Err 500 [], w)
               else (case find (wallet_agent_of wallet) (agents w) of
                  None \<Rightarrow>
                    if dbThrows e WalletAgentClaims InsertOne then (Err 500 [], w)
                    else (CheckReply False (Some ''NO_AGENT'') None,
                          log_claim (audit_entry (Some wallet) None ''CHECK'' (Some ''NO_AGENT'') req (now e)) w)
                | Some a \<Rightarrow>
                    let status = status_or_unclaimed a;
                        deadline = claimDeadline a;
                        daysRemaining =
                          (case deadline of
                             None \<Rightarrow> None
                           | Some d \<Rightarrow> if status = ''UNCLAIMED''
                                       then Some (days_remaining d (now e)) else None)
                    in if dbThrows e Post Find then (Err 500 [], w)
                       else if dbThrows e WalletAgentClaims InsertOne then (Err 500 [], w)
                       else
                         let w1 = log_claim
                                (audit_entry (Some wallet) (Some (aid a)) ''CHECK''
                                   (Some (if status = ''UNCLAIMED'' then ''ELIGIBLE'' else status))
                                   req (now e)) w;
                             eligible = (status = ''UNCLAIMED'' \<and>
                                (case deadline of None \<Rightarrow> True | Some d \<Rightarrow> now e < d))
                         in (CheckReply eligible (if eligible then None else Some status)
                               (Some \<lparr> caId = aid a, caClaimStatus = status,
                                       caClaimDeadline = deadline, caDaysRemaining = daysRemaining,
                                       caClaimedAt = claimedAt a, caClaimedBy = claimedBy a \<rparr>),
                             w1))))"

text \<open>The filter \<^verbatim>\<open>{_id, isWalletAgent: true, 'walletAgentData.sourceWallet': wallet}\<close>.\<close>

definition agent_of_wallet :: "string \<Rightarrow> string \<Rightarrow> agent \<Rightarrow> bool" where
  "agent_of_wallet agentId wallet a =
     (aid a = agentId \<and> isWalletAgent a \<and> sourceWallet a = Some wallet)"

text \<open>\<^verbatim>\<open>POST /api/v1/claim/nonce\<close>\<close>

definition nonce_route :: "ext \<Rightarrow> env \<Rightarrow> request \<Rightarrow> world \<Rightarrow> response \<times> world" where
  "nonce_route X e req w =
     (if \<not> truthy (bodyWallet req) \<or> \<not> truthy (bodyAgentId req)
        then (Err 400 ''MISSING_FIELDS'', w)
      else
        let wallet = the (bodyWallet req); agentId = the (bodyAgentId req)
        in if \<not> isValidSolanaAddress X (JStr wallet) then (Err 400 ''INVALID_WALLET'', w)
           else if \<not> objectId_isValid X agentId then (Err 400 ''INVALID_AGENT_ID'', w)
           else if \<not> dbUp e then (Err 503 [], w)
           else if dbThrows e Agent FindOne then (Err 500 [], w)
           else (case find (agent_of_wallet agentId wallet) (agents w) of
              None \<Rightarrow> (Err 404 ''AGENT_NOT_FOUND'', w)
            | Some a \<Rightarrow>
                if status_or_unclaimed a \<noteq> ''UNCLAIMED'' then (Err 409 ''NOT_CLAIMABLE'', w)
                else if (case claimDeadline a of None \<Rightarrow> False | Some d \<Rightarrow> d \<le> now e)
                  then (Err 410 ''CLAIM_EXPIRED'', w)
                else
                  let nonce = randomHex e;
                      timestamp = isoTimestamp e;
                      message = generateClaimMessage agentId wallet nonce timestamp
                  in if redisUp e then
                       (if redisThrows e SET then (Err 500 [], w)
                        else (NonceReply nonce message timestamp (nat NONCE_TTL_SECONDS),
                              w\<lparr>cache := redis_set_ex (now e) (cache w)
                                    (claim_nonce_key agentId wallet)
                                    (RNonce nonce timestamp message) NONCE_TTL_SECONDS\<rparr>))
                     else (Err 503 ''CACHE_UNAVAILABLE'', w)))"

text \<open>\<^verbatim>\<open>POST /api/v1/claim/opt-out/nonce\<close>\<close>

definition optout_nonce_route :: "ext \<Rightarrow> env \<Rightarrow> request \<Rightarrow> world \<Rightarrow> response \<times> world" where
  "optout_nonce_route X e req w =
     (if \<not> truthy (bodyWallet req) then (Err 400 ''MISSING_WALLET'', w)
      else
        let wallet = the (bodyWallet req)
        in if \<not> isValidSolanaAddress X (JStr wallet) then (Err 400 ''INVALID_WALLET'', w)
           else if \<not> dbUp e then (Err 503 [], w)
           else if dbThrows e WalletOptOuts FindOne then (Err 500 [], w)
           else if find (\<lambda>x. ooWallet x = wallet) (optOuts w) \<noteq> None
             then (Err 409 ''ALREADY_OPTED_OUT'', w)
           else if dbThrows e Agent FindOne then (Err 500 [], w)
           else if find (wallet_agent_of wallet) (agents w) = None
             then (Err 404 ''NO_AGENT'', w)
           else
             let nonce = randomHex e;
                 timestamp = isoTimestamp e;
                 message = generateOptOutMessage wallet nonce timestamp
             in if \<not> redisUp e then (Err 503 ''CACHE_UNAVAILABLE'', w)
                else if redisThrows e SET then (Err 500 [], w)
                else (NonceReply nonce message timestamp (nat NONCE_TTL_SECONDS),
                      w\<lparr>cache := redis_set_ex (now e) (cache w) (optout_nonce_key wallet)
                            (RNonce nonce timestamp message) NONCE_TTL_SECONDS\<rparr>))"

text \<open>
  The six \<^verbatim>\<open>deleteMany\<close> of the opt-out are started together (\<^verbatim>\<open>Promise.all\<close>): each one
  that does not throw takes effect, and if any of them throws the handler ends with 500.
  The filter of the notifications is the ObjectId of the agent.
\<close>

definition delete_children :: "env \<Rightarrow> string \<Rightarrow> world \<Rightarrow> world" where
  "delete_children e agentId w =
     w\<lparr> posts := (if dbThrows e Post DeleteMany then posts w
                  else filter (\<lambda>x. x \<noteq> agentId) (posts w)),
        comments := (if dbThrows e Comment DeleteMany then comments w
                     else filter (\<lambda>x. x \<noteq> agentId) (comments w)),
        agentMemory := (if dbThrows e AgentMemory DeleteMany then agentMemory w
                        else filter (\<lambda>x. x \<noteq> agentId) (agentMemory w)),
        agentPersonality := (if dbThrows e AgentPersonality DeleteMany then agentPersonality w
                             else filter (\<lambda>x. x \<noteq> agentId) (agentPersonality w)),
        watchlist := (if dbThrows e OrphanWatchlist DeleteMany then watchlist w
                      else filter (\<lambda>x. watchedAgent x \<noteq> agentId) (watchlist w)),
        notifications := (if dbThrows e WalletAgentNotifications DeleteMany then notifications w
                          else filter (\<lambda>x. nAgentId x \<noteq> ObjRef agentId) (notifications w)) \<rparr>"

definition children_delete_throws :: "env \<Rightarrow> bool" where
  "children_delete_throws e =
     (dbThrows e Post DeleteMany \<or> dbThrows e Comment DeleteMany \<or>
      dbThrows e AgentMemory DeleteMany \<or> dbThrows e AgentPersonality DeleteMany \<or>
      dbThrows e OrphanWatchlist DeleteMany \<or> dbThrows e WalletAgentNotifications DeleteMany)"

text \<open>
  The last part of the opt-out, after the deletions: the insertion into the blocklist
  (refused by the unique index on the wallet when the wallet is already there), the
  deletion of the nonce, the audit entry and the reply.
\<close>

definition optout_block ::
  "env \<Rightarrow> request \<Rightarrow> string \<Rightarrow> string \<Rightarrow> agent option \<Rightarrow> world \<Rightarrow> response \<times> world" where
  "optout_block e req wallet signature found w =
     (if dbThrows e WalletOptOuts InsertOne \<or> find (\<lambda>x. ooWallet x = wallet) (optOuts w) \<noteq> None
        then (Err 500 [], w)
      else
        let w1 = w\<lparr>optOuts := optOuts w @
                     [\<lparr> ooWallet = wallet, optedOutAt = now e, ooSignature = signature,
                        ooAgentId = map_option aid found,
                        ooAgentName = map_option aName found \<rparr>]\<rparr>
        in if redisThrows e DEL then (Err 500 [], w1)
           else
             let w2 = w1\<lparr>cache := redis_del (cache w1) (optout_nonce_key wallet)\<rparr>
             in if dbThrows e WalletAgentClaims InsertOne then (Err 500 [], w2)
                else (OptOutReply wallet (now e),
                      log_claim (audit_entry (Some wallet) (map_option aid found)
                                   ''OPT_OUT_SUCCESS'' None req (now e)) w2))"

text \<open>\<^verbatim>\<open>POST /api/v1/claim/opt-out\<close>\<close>

definition optout_route :: "ext \<Rightarrow> env \<Rightarrow> request \<Rightarrow> world \<Rightarrow> response \<times> world" where
  "optout_route X e req w =
     (if \<not> truthy (bodyWallet req) \<or> \<not> truthy (bodySignature req) \<or> \<not> truthy (bodyNonce req)
        then (Err 400 ''MISSING_FIELDS'', w)
      else
        let wallet = the (bodyWallet req);
            signature = the (bodySignature req);
            nonce = the (bodyNonce req)
        in if \<not> isValidSolanaAddress X (JStr wallet) then (Err 400 ''INVALID_WALLET'', w)
           else if \<not> dbUp e then (Err 503 [], w)
           else if \<not> redisUp e then (Err 503 ''CACHE_UNAVAILABLE'', w)
           else if redisThrows e GET then (Err 500 [], w)
           else (case redis_get (now e) (cache w) (optout_nonce_key wallet) of
              None \<Rightarrow> (Err 400 ''NONCE_EXPIRED'', w)
            | Some (RNonce storedNonce storedTimestamp message) \<Rightarrow>
                if storedNonce \<noteq> nonce then (Err 400 ''NONCE_MISMATCH'', w)
                else if \<not> verifySolanaSignature X wallet message signature then
                  (if dbThrows e WalletAgentClaims InsertOne then (Err 500 [], w)
                   else (Err 403 ''INVALID_SIGNATURE'',
                         log_claim (audit_entry (Some wallet) None ''OPT_OUT_FAILED''
                                      (Some ''INVALID_SIGNATURE'') req (now e)) w))
                else if dbThrows e Agent FindOne then (Err 500 [], w)
                else (case find (wallet_agent_of wallet) (agents w) of
                   None \<Rightarrow> optout_block e req wallet signature None w
                 | Some a \<Rightarrow>
                     if dbThrows e Agent DeleteOne then (Err 500 [], w)
                     else
                       let w1 = w\<lparr>agents := delete_first (\<lambda>x. aid x = aid a) (agents w)\<rparr>;
                           w2 = delete_children e (aid a) w1
                       in if children_delete_throws e then (Err 500 [], w2)
                          else optout_block e req wallet signature (Some a) w2)
            | Some other \<Rightarrow> (Err 400 ''NONCE_MISMATCH'', w)))"

subsection \<open>The claim: POST /api/v1/claim/verify\<close>

text \<open>
  The filter of the atomic \<^verbatim>\<open>findOneAndUpdate\<close>:
  \<^verbatim>\<open>{_id, 'walletAgentData.sourceWallet': wallet, 'walletAgentData.claimStatus': 'UNCLAIMED', isWalletAgent: true}\<close>,
  and its \<^verbatim>\<open>$set\<close>.
\<close>

definition claimable :: "string \<Rightarrow> string \<Rightarrow> agent \<Rightarrow> bool" where
  "claimable agentId wallet a =
     (aid a = agentId \<and> sourceWallet a = Some wallet \<and>
      claimStatus a = Some ''UNCLAIMED'' \<and> isWalletAgent a)"

definition set_claimed :: "int \<Rightarrow> string \<Rightarrow> string \<Rightarrow> string \<Rightarrow> agent \<Rightarrow> agent" where
  "set_claimed t wallet signature nonce a =
     a\<lparr> claimStatus := Some ''CLAIMED'', claimedAt := Some t,
        claimSignature := Some signature, claimNonce := Some nonce,
        claimedBy := Some wallet, updatedAt := Some t \<rparr>"

text \<open>
  The result of \<^verbatim>\<open>findOneAndUpdate\<close> (\<^verbatim>\<open>claimResult.value\<close>: the document, or nothing when
  no document matched) and the store after it. The handler reads \<^verbatim>\<open>claimResult.value\<close>,
  so the driver is taken to return the result object whose \<^verbatim>\<open>value\<close> is the updated
  document, as the handler expects; the sources pin no driver version.
\<close>

definition claim_cas ::
  "int \<Rightarrow> string \<Rightarrow> string \<Rightarrow> string \<Rightarrow> string \<Rightarrow> world \<Rightarrow> agent option \<times> world" where
  "claim_cas t agentId wallet signature nonce w =
     (case find (claimable agentId wallet) (agents w) of
        None \<Rightarrow> (None, w)
      | Some a \<Rightarrow>
          (Some (set_claimed t wallet signature nonce a),
           w\<lparr>agents := update_first (claimable agentId wallet)
                         (set_claimed t wallet signature nonce) (agents w)\<rparr>))"

definition new_user :: "env \<Rightarrow> string \<Rightarrow> user" where
  "new_user e wallet =
     \<lparr> uid = newUserId e, walletAddress = Some wallet, authMethod = ''wallet_claim'',
       subscriptionTier = ''starter'', lastLoginAt = Some (now e), userCreatedAt = now e \<rparr>"

definition link_owner :: "int \<Rightarrow> string \<Rightarrow> string \<Rightarrow> world \<Rightarrow> world" where
  "link_owner t agentId userId w =
     w\<lparr>agents := update_first (\<lambda>a. aid a = agentId)
                    (\<lambda>a. a\<lparr>ownerId := Some userId, updatedAt := Some t\<rparr>) (agents w)\<rparr>"

text \<open>\<^verbatim>\<open>countDocuments({isWalletAgent: true, claimStatus: 'CLAIMED', _id: {$ne: id}}) + 1\<close>\<close>

definition founding_rank_of :: "string \<Rightarrow> world \<Rightarrow> nat" where
  "founding_rank_of agentId w =
     length (filter (\<lambda>a. isWalletAgent a \<and> claimStatus a = Some ''CLAIMED'' \<and> aid a \<noteq> agentId)
               (agents w)) + 1"

definition set_founding :: "string \<Rightarrow> nat \<Rightarrow> world \<Rightarrow> world" where
  "set_founding agentId rank w =
     w\<lparr>agents := update_first (\<lambda>a. aid a = agentId)
                    (\<lambda>a. a\<lparr>foundingRank := Some rank\<rparr>) (agents w)\<rparr>"

definition claim_success_entry :: "string \<Rightarrow> string \<Rightarrow> string \<Rightarrow> nat \<Rightarrow> request \<Rightarrow> int \<Rightarrow> audit" where
  "claim_success_entry wallet agentId userId rank req t =
     \<lparr> auWallet = Some wallet, auAgentId = Some agentId, auUserId = Some userId,
       auAction = ''CLAIM_SUCCESS'', auResult = None, auFoundingRank = Some rank,
       auIp = reqIp req, auTimestamp = t \<rparr>"

definition claim_reply :: "string \<Rightarrow> nat \<Rightarrow> string \<Rightarrow> response" where
  "claim_reply agentId rank userId =
     ClaimReply agentId (if rank \<le> 5000 then Some rank else None) userId"

text \<open>After a successful transition: the owner, the founding rank, the nonce, the audit entry.\<close>

definition claim_enrich ::
  "env \<Rightarrow> request \<Rightarrow> string \<Rightarrow> string \<Rightarrow> world \<Rightarrow> response \<times> world" where
  "claim_enrich e req wallet agentId w =
     (if dbThrows e User FindOne then (Err 500 [], w)
      else
        let existing = find (\<lambda>u. walletAddress u = Some wallet) (users w)
        in if existing = None \<and> dbThrows e User InsertOne then (Err 500 [], w)
           else
             let w1 = (case existing of
                         None \<Rightarrow> w\<lparr>users := users w @ [new_user e wallet]\<rparr>
                       | Some u \<Rightarrow> w);
                 userId = (case existing of None \<Rightarrow> newUserId e | Some u \<Rightarrow> uid u)
             in if dbThrows e Agent UpdateOne then (Err 500 [], w1)
                else
                  let w2 = link_owner (now e) agentId userId w1
                  in if dbThrows e Agent CountDocuments then (Err 500 [], w2)
                     else
                       let rank = founding_rank_of agentId w2;
                           w3 = (if rank \<le> 5000 then set_founding agentId rank w2 else w2)
                       in if redisThrows e DEL then (Err 500 [], w3)
                          else
                            let w4 = w3\<lparr>cache := redis_del (cache w3)
                                                    (claim_nonce_key agentId wallet)\<rparr>
                            in if dbThrows e WalletAgentClaims InsertOne then (Err 500 [], w4)
                               else
                                 let w5 = log_claim
                                       (claim_success_entry wallet agentId userId rank req (now e)) w4
                                 in if redisThrows e PUBLISH then (Err 500 [], w5)
                                    else (claim_reply agentId rank userId, w5))"

text \<open>From the atomic update on.\<close>

definition claim_transition ::
  "env \<Rightarrow> request \<Rightarrow> string \<Rightarrow> string \<Rightarrow> string \<Rightarrow> string \<Rightarrow> world \<Rightarrow> response \<times> world" where
  "claim_transition e req wallet agentId signature nonce w =
     (if dbThrows e Agent FindOneAndUpdate then (Err 500 [], w)
      else (case claim_cas (now e) agentId wallet signature nonce w of
         (None, w1) \<Rightarrow>
           if redisThrows e DEL then (Err 500 [], w1)
           else (Err 409 ''ALREADY_CLAIMED'',
                 w1\<lparr>cache := redis_del (cache w1) (claim_nonce_key agentId wallet)\<rparr>)
       | (Some claimedAgent, w1) \<Rightarrow> claim_enrich e req wallet agentId w1))"

definition verify_route :: "ext \<Rightarrow> env \<Rightarrow> request \<Rightarrow> world \<Rightarrow> response \<times> world" where
  "verify_route X e req w =
     (if \<not> truthy (bodyWallet req) \<or> \<not> truthy (bodyAgentId req) \<or>
         \<not> truthy (bodySignature req) \<or> \<not> truthy (bodyNonce req)
        then (Err 400 ''MISSING_FIELDS'', w)
      else
        let wallet = the (bodyWallet req); agentId = the (bodyAgentId req);
            signature = the (bodySignature req); nonce = the (bodyNonce req)
        in if \<not> isValidSolanaAddress X (JStr wallet) then (Err 400 ''INVALID_WALLET'', w)
           else if \<not> objectId_isValid X agentId then (Err 400 ''INVALID_AGENT_ID'', w)
           else if \<not> dbUp e then (Err 503 [], w)
           else if \<not> redisUp e then (Err 503 ''CACHE_UNAVAILABLE'', w)
           else if redisThrows e GET then (Err 500 [], w)
           else (case redis_get (now e) (cache w) (claim_nonce_key agentId wallet) of
              None \<Rightarrow>
                (Err 400 ''NONCE_EXPIRED'',
                 w\<lparr>cache := recordFailedClaimAttempt e (cache w) wallet\<rparr>)
            | Some (RNonce storedNonce storedTimestamp message) \<Rightarrow>
                if storedNonce \<noteq> nonce then
                  (Err 400 ''NONCE_MISMATCH'',
                   w\<lparr>cache := recordFailedClaimAttempt e (cache w) wallet\<rparr>)
                else if \<not> verifySolanaSignature X wallet message signature then
                  (let w1 = w\<lparr>cache := recordFailedClaimAttempt e (cache w) wallet\<rparr>
                   in if dbThrows e WalletAgentClaims InsertOne then (Err 500 [], w1)
                      else (Err 403 ''INVALID_SIGNATURE'',
                            log_claim (audit_entry (Some wallet) (Some agentId) ''CLAIM_FAILED''
                                         (Some ''INVALID_SIGNATURE'') req (now e)) w1))
                else claim_transition e req wallet agentId signature nonce w
            | Some other \<Rightarrow>
                (Err 400 ''NONCE_MISMATCH'',
                 w\<lparr>cache := recordFailedClaimAttempt e (cache w) wallet\<rparr>)))"

section \<open>Cost estimation (services/memoSender.js)\<close>

subsection \<open>JavaScript numbers\<close>

text \<open>
  A JavaScript number is an IEEE 754 binary64 value. A finite one is modelled by its
  exact value, a rational, and \<open>fl x\<close> is the double nearest to \<open>x\<close>: 53 significant bits,
  ties to the even significand, which is how \<^verbatim>\<open>*\<close>, \<^verbatim>\<open>/\<close> and \<^verbatim>\<open>parseFloat\<close> round their
  exact results. The exponent range is not modelled (no overflow, no subnormal numbers):
  the numbers of this module are 0 or lie between \<^verbatim>\<open>1e-5\<close> and \<^verbatim>\<open>2^53\<close>.
  \<open>bit_length n\<close> is the number of binary digits of \<open>n\<close>, \<open>expo x\<close> the exponent \<open>e\<close> with
  \<open>2 powi e \<le> x < 2 powi (e + 1)\<close> for positive \<open>x\<close>, and \<open>rne\<close> rounds to the nearest integer, ties to
  even.
\<close>

function bit_length :: "int \<Rightarrow> nat" where
  "bit_length n = (if n \<le> 0 then 0 else Suc (bit_length (n div 2)))"
  by pat_completeness auto
termination by (relation "measure nat") auto

declare bit_length.simps [simp del]

definition expo :: "rat \<Rightarrow> int" where
  "expo x =
     (if 1 \<le> x then int (bit_length \<lfloor>x\<rfloor>) - 1
      else - int (bit_length (\<lceil>1 / x\<rceil> - 1)))"

definition rne :: "rat \<Rightarrow> int" where
  "rne m =
     (let n = \<lfloor>m\<rfloor>; f = m - of_int n
      in if f < 1 / 2 then n else if 1 / 2 < f then n + 1 else if even n then n else n + 1)"

definition fl :: "rat \<Rightarrow> rat" where
  "fl x =
     (if x = 0 then 0
      else let q = 2 powi (expo \<bar>x\<bar> - 52)
           in sgn x * of_int (rne (\<bar>x\<bar> / q)) * q)"

text \<open>
  \<^verbatim>\<open>x.toFixed(d)\<close> (for \<open>x\<close> below \<^verbatim>\<open>1e21\<close> in absolute value) is the decimal \<open>n / 10 ^ d\<close> with the integer \<open>n\<close> nearest
  to the exact value of \<open>\<bar>x\<bar> * 10 ^ d\<close>, the larger \<open>n\<close> when two are equally near, with the
  sign of \<open>x\<close>; \<^verbatim>\<open>parseFloat\<close> reads that decimal as the nearest double.
\<close>

definition toFixed :: "nat \<Rightarrow> rat \<Rightarrow> rat" where
  "toFixed d x = sgn x * of_int \<lfloor>\<bar>x\<bar> * 10 ^ d + 1 / 2\<rfloor> / 10 ^ d"

definition parseFloat :: "rat \<Rightarrow> rat" where
  "parseFloat v = fl v"

subsection \<open>The estimate\<close>

text \<open>
  \<^verbatim>\<open>estimateBatchCost(count)\<close>, for an integer \<open>count\<close>: every intermediate result is a
  double (\<^verbatim>\<open>1e9\<close> and \<^verbatim>\<open>150\<close> are doubles exactly).
\<close>

definition ESTIMATED_LAMPORTS_PER_TX :: int where
  "ESTIMATED_LAMPORTS_PER_TX = 10000"

record batch_cost =
  totalLamports :: rat
  totalSol :: rat
  totalUsd :: rat
  perTxLamports :: int
  count :: int

definition estimateBatchCost :: "int \<Rightarrow> batch_cost" where
  "estimateBatchCost cnt =
     (let lamports = fl (of_int cnt * of_int ESTIMATED_LAMPORTS_PER_TX);
          sol = fl (lamports / 1000000000);
          usd = fl (sol * 150)
      in \<lparr> totalLamports = lamports,
           totalSol = parseFloat (toFixed 6 sol),
           totalUsd = parseFloat (toFixed 2 usd),
           perTxLamports = ESTIMATED_LAMPORTS_PER_TX,
           count = cnt \<rparr>)"

section \<open>Well-formed invocations\<close>

text \<open>No storage command throws during the invocation.\<close>

definition no_faults :: "env \<Rightarrow> bool" where
  "no_faults e = ((\<forall>c. \<not> redisThrows e c) \<and> (\<forall>c v. \<not> dbThrows e c v))"

text \<open>
  A verify request that passes the checks in front of the nonce lookup: the four fields
  are present, the wallet and the agent id are well formed, both stores are there and
  the \<^verbatim>\<open>GET\<close> does not throw.
\<close>

definition verify_ready ::
  "ext \<Rightarrow> env \<Rightarrow> request \<Rightarrow> string \<Rightarrow> string \<Rightarrow> string \<Rightarrow> string \<Rightarrow> bool" where
  "verify_ready X e req wallet agentId signature nonce =
     (bodyWallet req = Some wallet \<and> bodyAgentId req = Some agentId \<and>
      bodySignature req = Some signature \<and> bodyNonce req = Some nonce \<and>
      wallet \<noteq> [] \<and> agentId \<noteq> [] \<and> signature \<noteq> [] \<and> nonce \<noteq> [] \<and>
      isValidSolanaAddress X (JStr wallet) \<and> objectId_isValid X agentId \<and>
      dbUp e \<and> redisUp e \<and> \<not> redisThrows e GET)"

text \<open>An opt-out request that passes the checks in front of the nonce lookup.\<close>

definition optout_ready :: "ext \<Rightarrow> env \<Rightarrow> request \<Rightarrow> string \<Rightarrow> string \<Rightarrow> string \<Rightarrow> bool" where
  "optout_ready X e req wallet signature nonce =
     (bodyWallet req = Some wallet \<and> bodySignature req = Some signature \<and>
      bodyNonce req = Some nonce \<and> wallet \<noteq> [] \<and> signature \<noteq> [] \<and> nonce \<noteq> [] \<and>
      isValidSolanaAddress X (JStr wallet) \<and> dbUp e \<and> redisUp e \<and> \<not> redisThrows e GET)"

section \<open>OrphanScheduler (crons/orphanTransition.js)\<close>

datatype orphan_error =
    TransitionFailed string
  | NotificationFailed string string
  | Fatal

record orphan_summary =
  processed :: nat
  transitioned :: nat
  notifiedCount :: nat
  errors :: "orphan_error list"

text \<open>
  The query of the job:
  \<^verbatim>\<open>{isWalletAgent: true, claimStatus: 'UNCLAIMED', claimDeadline: {$lte: now}}\<close>.
\<close>

definition expired_unclaimed :: "int \<Rightarrow> agent \<Rightarrow> bool" where
  "expired_unclaimed t a =
     (isWalletAgent a \<and> claimStatus a = Some ''UNCLAIMED'' \<and>
      (case claimDeadline a of None \<Rightarrow> False | Some d \<Rightarrow> d \<le> t))"

definition set_orphaned :: "int \<Rightarrow> agent \<Rightarrow> agent" where
  "set_orphaned t a = a\<lparr>claimStatus := Some ''ORPHANED'', orphanedAt := Some t, updatedAt := Some t\<rparr>"

definition orphan_note :: "int \<Rightarrow> agent \<Rightarrow> watcher \<Rightarrow> notification" where
  "orphan_note t a x =
     \<lparr> nAgentId = ObjRef (aid a), nUserId = Some (watcherUser x),
       nType = Some ''AGENT_ORPHANED'', nChannel = None, nTemplate = None, nStatus = None,
       nTxSignature = None, nError = None, nScheduledDay = None, nActualDay = None,
       nTimestamp = t \<rparr>"

text \<open>
  The body of the loop over the watchers, with its own \<^verbatim>\<open>try\<close>: an exception is recorded
  in \<open>errors\<close> and the loop goes on with the next watcher.
\<close>

definition notify_watcher ::
  "env \<Rightarrow> agent \<Rightarrow> watcher \<Rightarrow> orphan_summary \<times> world \<Rightarrow> orphan_summary \<times> world" where
  "notify_watcher e a x sw =
     (case sw of (s, w) \<Rightarrow>
        let failed = s\<lparr>errors := errors s @ [NotificationFailed (wid x) (aid a)]\<rparr>
        in if dbThrows e WalletAgentNotifications InsertOne then (failed, w)
           else
             let w1 = w\<lparr>notifications := notifications w @ [orphan_note (now e) a x]\<rparr>
             in if dbThrows e OrphanWatchlist UpdateOne then (failed, w1)
                else
                  let w2 = w1\<lparr>watchlist := update_first (\<lambda>y. wid y = wid x)
                                   (\<lambda>y. y\<lparr>notified := True, notifiedAt := Some (now e)\<rparr>)
                                   (watchlist w1)\<rparr>;
                      s2 = s\<lparr>notifiedCount := notifiedCount s + 1\<rparr>
                  in if redisUp e \<and> redisThrows e PUBLISH
                       then (s2\<lparr>errors := errors s2 @ [NotificationFailed (wid x) (aid a)]\<rparr>, w2)
                     else (s2, w2))"

text \<open>
  The body of the loop over the expired agents: the conditional update
  \<^verbatim>\<open>{_id, claimStatus: 'UNCLAIMED'}\<close>, and, when it modified a document, the audit entry
  and the watchers that are not yet notified.
\<close>

definition orphan_agent ::
  "env \<Rightarrow> agent \<Rightarrow> orphan_summary \<times> world \<Rightarrow> orphan_summary \<times> world" where
  "orphan_agent e a sw =
     (case sw of (s, w) \<Rightarrow>
        if dbThrows e Agent UpdateOne
          then (s\<lparr>errors := errors s @ [TransitionFailed (aid a)]\<rparr>, w)
        else (case find (\<lambda>x. aid x = aid a \<and> claimStatus x = Some ''UNCLAIMED'') (agents w) of
           None \<Rightarrow> (s, w)
         | Some hit \<Rightarrow>
             let w1 = w\<lparr>agents := update_first
                                    (\<lambda>x. aid x = aid a \<and> claimStatus x = Some ''UNCLAIMED'')
                                    (set_orphaned (now e)) (agents w)\<rparr>;
                 s1 = s\<lparr>transitioned := transitioned s + 1\<rparr>
             in if dbThrows e WalletAgentClaims InsertOne
                  then (s1\<lparr>errors := errors s1 @ [TransitionFailed (aid a)]\<rparr>, w1)
                else
                  let w2 = log_claim
                        \<lparr> auWallet = sourceWallet a, auAgentId = Some (aid a), auUserId = None,
                          auAction = ''ORPHANED'', auResult = Some ''CLAIM_DEADLINE_EXPIRED'',
                          auFoundingRank = None, auIp = None, auTimestamp = now e \<rparr> w1
                  in if dbThrows e OrphanWatchlist Find
                       then (s1\<lparr>errors := errors s1 @ [TransitionFailed (aid a)]\<rparr>, w2)
                     else foldl (\<lambda>acc x. notify_watcher e a x acc) (s1, w2)
                            (filter (\<lambda>x. watchedAgent x = aid a \<and> \<not> notified x) (watchlist w2))))"

definition processOrphanTransitions :: "env \<Rightarrow> world \<Rightarrow> orphan_summary \<times> world" where
  "processOrphanTransitions e w =
     (if dbThrows e Agent Find
        then (\<lparr>processed = 0, transitioned = 0, notifiedCount = 0, errors = [Fatal]\<rparr>, w)
      else
        let expiredAgents = filter (expired_unclaimed (now e)) (agents w);
            summary = \<lparr>processed = length expiredAgents, transitioned = 0, notifiedCount = 0,
                       errors = []\<rparr>
        in if expiredAgents = [] then (summary, w)
           else foldl (\<lambda>acc a. orphan_agent e a acc) (summary, w) expiredAgents)"

section \<open>NotificationScheduler (the claim notification cron)\<close>

text \<open>The schedule: days after creation, channel, template.\<close>

definition NOTIFICATION_SCHEDULE :: "(int \<times> string \<times> string) list" where
  "NOTIFICATION_SCHEDULE =
     [(0, ''onchain_memo'', ''AGENT_CREATED''),
      (7, ''onchain_memo'', ''WEEK_1_UPDATE''),
      (14, ''onchain_memo'', ''HALFWAY_WARNING''),
      (21, ''onchain_memo'', ''NINE_DAYS_LEFT''),
      (25, ''onchain_memo'', ''FIVE_DAYS_LEFT''),
      (28, ''onchain_memo'', ''TWO_DAYS_LEFT''),
      (29, ''onchain_memo'', ''FINAL_DAY'')]"

definition MAX_SENDS_PER_HOUR :: nat where
  "MAX_SENDS_PER_HOUR = 500"

text \<open>
  What \<^verbatim>\<open>sendClaimMemo\<close> can do: return a transaction signature, return a failure, or
  throw (no treasury key, a wallet that is not a public key). The delivery channel is a
  parameter \<open>memo agentId template\<close> of the job.
\<close>

datatype send_result = SendOk string | SendFailed string | SendThrew

text \<open>
  The variables of the run: the three counters, the calls made to \<^verbatim>\<open>sendClaimMemo\<close> so
  far (agent id and template, in order), and whether an exception has left the function.
\<close>

record notif_loop =
  sent :: nat
  failed :: nat
  skipped :: nat
  memoCalls :: "(string \<times> string) list"
  rejected :: bool

record notif_summary =
  nsProcessed :: nat
  nsSent :: nat
  nsFailed :: nat
  nsSkipped :: nat

definition reminder ::
  "env \<Rightarrow> agent \<Rightarrow> int \<Rightarrow> string \<Rightarrow> string \<Rightarrow> int option \<Rightarrow> string \<Rightarrow> string option \<Rightarrow> notification" where
  "reminder e a scheduledDay channel template actualDay status txSignature =
     \<lparr> nAgentId = StrRef (aid a), nUserId = None, nType = None, nChannel = Some channel,
       nTemplate = Some template, nStatus = Some status, nTxSignature = txSignature,
       nError = None, nScheduledDay = Some scheduledDay, nActualDay = actualDay,
       nTimestamp = now e \<rparr>"

text \<open>
  \<^verbatim>\<open>getSentNotifications\<close>: the templates of the documents of the agent (id as a string)
  with status \<^verbatim>\<open>sent\<close>.
\<close>

definition getSentNotifications :: "world \<Rightarrow> string \<Rightarrow> string option list" where
  "getSentNotifications w agentId =
     map nTemplate
       (filter (\<lambda>n. nAgentId n = StrRef agentId \<and> nStatus n = Some ''sent'') (notifications w))"

text \<open>The \<^verbatim>\<open>catch\<close> of one delivery: count the failure and record it; this insertion is not guarded.\<close>

definition record_failure ::
  "env \<Rightarrow> agent \<Rightarrow> int option \<Rightarrow> int \<times> string \<times> string \<Rightarrow> notif_loop \<times> world \<Rightarrow> notif_loop \<times> world" where
  "record_failure e a days entry st =
     (case (entry, st) of ((d, channel, template), (l, w)) \<Rightarrow>
        let l1 = l\<lparr>failed := failed l + 1\<rparr>
        in if dbThrows e WalletAgentNotifications InsertOne then (l1\<lparr>rejected := True\<rparr>, w)
           else (l1, w\<lparr>notifications := notifications w @
                         [reminder e a d channel template days ''failed'' None]\<rparr>))"

text \<open>The \<^verbatim>\<open>try\<close> of one delivery.\<close>

definition send_one ::
  "env \<Rightarrow> (string \<Rightarrow> string \<Rightarrow> send_result) \<Rightarrow> agent \<Rightarrow> int option \<Rightarrow> int \<times> string \<times> string
     \<Rightarrow> notif_loop \<times> world \<Rightarrow> notif_loop \<times> world" where
  "send_one e memo a days entry st =
     (case (entry, st) of ((d, channel, template), (l, w)) \<Rightarrow>
        if channel = ''onchain_memo'' then
          (let l1 = l\<lparr>memoCalls := memoCalls l @ [(aid a, template)]\<rparr>
           in case memo (aid a) template of
                SendThrew \<Rightarrow> record_failure e a days entry (l1, w)
              | SendOk signature \<Rightarrow>
                  if dbThrows e WalletAgentNotifications InsertOne
                    then record_failure e a days entry (l1, w)
                  else (l1\<lparr>sent := sent l1 + 1\<rparr>,
                        w\<lparr>notifications := notifications w @
                             [reminder e a d channel template days ''sent'' (Some signature)]\<rparr>)
              | SendFailed err \<Rightarrow>
                  if dbThrows e WalletAgentNotifications InsertOne
                    then record_failure e a days entry (l1, w)
                  else (l1\<lparr>failed := failed l1 + 1\<rparr>,
                        w\<lparr>notifications := notifications w @
                             [reminder e a d channel template days ''failed'' None]\<rparr>))
        else (l, w))"

text \<open>
  The loop over the schedule for one agent. \<open>days\<close> is \<^verbatim>\<open>daysSinceCreation\<close> (\<open>None\<close> when
  the agent has no creation date: every comparison with it is false), \<open>sentTemplates\<close> the
  set read before the loop.
\<close>

fun deliver_due ::
  "env \<Rightarrow> (string \<Rightarrow> string \<Rightarrow> send_result) \<Rightarrow> agent \<Rightarrow> int option \<Rightarrow> string option list
     \<Rightarrow> (int \<times> string \<times> string) list \<Rightarrow> notif_loop \<times> world \<Rightarrow> notif_loop \<times> world" where
  "deliver_due e memo a days sentTemplates [] st = st"
| "deliver_due e memo a days sentTemplates (entry # rest) st =
     (case (entry, st) of ((d, channel, template), (l, w)) \<Rightarrow>
        if rejected l then (l, w)
        else if (case days of None \<Rightarrow> False | Some n \<Rightarrow> d \<le> n) \<and>
                Some template \<notin> set sentTemplates then
          (if MAX_SENDS_PER_HOUR \<le> sent l then (l, w)
           else deliver_due e memo a days sentTemplates rest (send_one e memo a days entry (l, w)))
        else if Some template \<in> set sentTemplates
          then deliver_due e memo a days sentTemplates rest (l\<lparr>skipped := skipped l + 1\<rparr>, w)
        else deliver_due e memo a days sentTemplates rest (l, w))"

text \<open>\<^verbatim>\<open>Math.floor((now - createdAt) / (1000 * 60 * 60 * 24))\<close>\<close>

definition daysSinceCreation :: "env \<Rightarrow> agent \<Rightarrow> int option" where
  "daysSinceCreation e a = map_option (\<lambda>c. (now e - c) div MS_PER_DAY) (createdAt a)"

text \<open>The loop over the unclaimed agents.\<close>

fun notify_agents ::
  "env \<Rightarrow> (string \<Rightarrow> string \<Rightarrow> send_result) \<Rightarrow> agent list \<Rightarrow> notif_loop \<times> world
     \<Rightarrow> notif_loop \<times> world" where
  "notify_agents e memo [] st = st"
| "notify_agents e memo (a # rest) st =
     (case st of (l, w) \<Rightarrow>
        if rejected l then (l, w)
        else if MAX_SENDS_PER_HOUR \<le> sent l then (l, w)
        else if dbThrows e WalletAgentNotifications Find then (l\<lparr>rejected := True\<rparr>, w)
        else notify_agents e memo rest
               (deliver_due e memo a (daysSinceCreation e a) (getSentNotifications w (aid a))
                  NOTIFICATION_SCHEDULE (l, w)))"

text \<open>
  \<^verbatim>\<open>processNotifications\<close>: the summary (nothing when an exception leaves the function),
  the calls made to the delivery channel, and the stores.
\<close>

definition processNotifications ::
  "env \<Rightarrow> (string \<Rightarrow> string \<Rightarrow> send_result) \<Rightarrow> world
     \<Rightarrow> notif_summary option \<times> (string \<times> string) list \<times> world" where
  "processNotifications e memo w =
     (if dbThrows e Agent Find then (None, [], w)
      else
        let unclaimedAgents =
              filter (\<lambda>a. isWalletAgent a \<and> claimStatus a = Some ''UNCLAIMED'') (agents w)
        in if unclaimedAgents = []
             then (Some \<lparr>nsProcessed = 0, nsSent = 0, nsFailed = 0, nsSkipped = 0\<rparr>, [], w)
           else (case notify_agents e memo unclaimedAgents
                        (\<lparr>sent = 0, failed = 0, skipped = 0, memoCalls = [], rejected = False\<rparr>, w) of
              (l, w1) \<Rightarrow>
                let summary = \<lparr>nsProcessed = length unclaimedAgents, nsSent = sent l,
                               nsFailed = failed l, nsSkipped = skipped l\<rparr>
                in if rejected l then (None, memoCalls l, w1)
                   else if redisUp e then
                     (if redisThrows e SET then (None, memoCalls l, w1)
                      else (Some summary, memoCalls l,
                            w1\<lparr>cache := redis_set_ex (now e) (cache w1)
                                   ''claim:notifications:lastRun''
                                   (RText ''claim_notifications_cron_complete'') 7200\<rparr>))
                   else (Some summary, memoCalls l, w1)))"

text \<open>The calls to the delivery channel that concern one agent.\<close>

definition calls_for :: "string \<Rightarrow> (string \<times> string) list \<Rightarrow> (string \<times> string) list" where
  "calls_for agentId calls = filter (\<lambda>c. fst c = agentId) calls"

definition fresh_loop :: notif_loop where
  "fresh_loop = \<lparr>sent = 0, failed = 0, skipped = 0, memoCalls = [], rejected = False\<rparr>"

text \<open>The templates of the schedule before the last one.\<close>

definition six_templates :: "string list" where
  "six_templates =
     [''AGENT_CREATED'', ''WEEK_1_UPDATE'', ''HALFWAY_WARNING'', ''NINE_DAYS_LEFT'',
      ''FIVE_DAYS_LEFT'', ''TWO_DAYS_LEFT'']"

text \<open>The filter of the notification job: \<^verbatim>\<open>{isWalletAgent: true, claimStatus: 'UNCLAIMED'}\<close>.\<close>

definition unclaimed_agent :: "agent \<Rightarrow> bool" where
  "unclaimed_agent a = (isWalletAgent a \<and> claimStatus a = Some ''UNCLAIMED'')"

section \<open>Concurrent verify calls\<close>

text \<open>
  Between two \<^verbatim>\<open>await\<close>s a handler runs alone; the commands it awaits are atomic in the
  stores. A verify call in flight is therefore at one of the following points, each named
  after the storage command it is about to run (\<open>VStart\<close>: the request has arrived and
  is checked; \<open>VFailIncr\<close>, \<open>VFailExpire\<close>: the two commands of
  \<^verbatim>\<open>recordFailedClaimAttempt\<close>, with the code of the reply that follows; \<open>VDone\<close>: the
  reply is sent). The later points carry the user id and the founding rank the handler
  has computed.
\<close>

datatype vpc =
    VStart
  | VGetNonce
  | VFailIncr string
  | VFailExpire string
  | VAuditInvalid
  | VCas
  | VDelConflict
  | VFindUser
  | VInsertUser
  | VLink string
  | VCount string
  | VFounding string nat
  | VDelNonce string nat
  | VAuditSuccess string nat
  | VPublish string nat
  | VDone response

text \<open>
  A call: its environment and request, where it is, and what its conditional update did
  (\<open>None\<close>: not run yet, \<open>Some True\<close>: it matched and changed a document, \<open>Some False\<close>: it
  matched none).
\<close>

record call =
  cEnv :: env
  cReq :: request
  cPc :: vpc
  cCas :: "bool option"

definition start_call :: "env \<Rightarrow> request \<Rightarrow> call" where
  "start_call e req = \<lparr>cEnv = e, cReq = req, cPc = VStart, cCas = None\<rparr>"

definition after_fail :: "string \<Rightarrow> vpc" where
  "after_fail reason =
     (if reason = ''INVALID_SIGNATURE'' then VAuditInvalid else VDone (Err 400 reason))"

text \<open>One atomic step of a call, in the order of the handler.\<close>

definition verify_step :: "ext \<Rightarrow> call \<Rightarrow> world \<Rightarrow> call \<times> world" where
  "verify_step X c w =
     (let e = cEnv c; req = cReq c;
          wallet = the (bodyWallet req); agentId = the (bodyAgentId req);
          signature = the (bodySignature req); nonce = the (bodyNonce req);
          goto = (\<lambda>pc. c\<lparr>cPc := pc\<rparr>);
          fail = c\<lparr>cPc := VDone (Err 500 [])\<rparr>
      in case cPc c of
        VStart \<Rightarrow>
          if \<not> truthy (bodyWallet req) \<or> \<not> truthy (bodyAgentId req) \<or>
             \<not> truthy (bodySignature req) \<or> \<not> truthy (bodyNonce req)
            then (goto (VDone (Err 400 ''MISSING_FIELDS'')), w)
          else if \<not> isValidSolanaAddress X (JStr wallet)
            then (goto (VDone (Err 400 ''INVALID_WALLET'')), w)
          else if \<not> objectId_isValid X agentId
            then (goto (VDone (Err 400 ''INVALID_AGENT_ID'')), w)
          else if \<not> dbUp e then (goto (VDone (Err 503 [])), w)
          else if \<not> redisUp e then (goto (VDone (Err 503 ''CACHE_UNAVAILABLE'')), w)
          else (goto VGetNonce, w)
      | VGetNonce \<Rightarrow>
          if redisThrows e GET then (fail, w)
          else (case redis_get (now e) (cache w) (claim_nonce_key agentId wallet) of
             None \<Rightarrow> (goto (VFailIncr ''NONCE_EXPIRED''), w)
           | Some (RNonce storedNonce storedTimestamp message) \<Rightarrow>
               if storedNonce \<noteq> nonce then (goto (VFailIncr ''NONCE_MISMATCH''), w)
               else if \<not> verifySolanaSignature X wallet message signature
                 then (goto (VFailIncr ''INVALID_SIGNATURE''), w)
               else (goto VCas, w)
           | Some other \<Rightarrow> (goto (VFailIncr ''NONCE_MISMATCH''), w))
      | VFailIncr reason \<Rightarrow>
          if redisThrows e INCR then (goto (after_fail reason), w)
          else (case redis_incr (now e) (cache w) (abuse_wallet_key wallet) of
             None \<Rightarrow> (goto (after_fail reason), w)
           | Some (cnt, r1) \<Rightarrow>
               if cnt = 1 then (goto (VFailExpire reason), w\<lparr>cache := r1\<rparr>)
               else (goto (after_fail reason), w\<lparr>cache := r1\<rparr>))
      | VFailExpire reason \<Rightarrow>
          if redisThrows e EXPIRE then (goto (after_fail reason), w)
          else (goto (after_fail reason),
                w\<lparr>cache := redis_expire (now e) (cache w) (abuse_wallet_key wallet) 3600\<rparr>)
      | VAuditInvalid \<Rightarrow>
          if dbThrows e WalletAgentClaims InsertOne then (fail, w)
          else (goto (VDone (Err 403 ''INVALID_SIGNATURE'')),
                log_claim (audit_entry (Some wallet) (Some agentId) ''CLAIM_FAILED''
                             (Some ''INVALID_SIGNATURE'') req (now e)) w)
      | VCas \<Rightarrow>
          if dbThrows e Agent FindOneAndUpdate then (fail, w)
          else (case claim_cas (now e) agentId wallet signature nonce w of
             (None, w1) \<Rightarrow> (c\<lparr>cPc := VDelConflict, cCas := Some False\<rparr>, w1)
           | (Some claimedAgent, w1) \<Rightarrow> (c\<lparr>cPc := VFindUser, cCas := Some True\<rparr>, w1))
      | VDelConflict \<Rightarrow>
          if redisThrows e DEL then (fail, w)
          else (goto (VDone (Err 409 ''ALREADY_CLAIMED'')),
                w\<lparr>cache := redis_del (cache w) (claim_nonce_key agentId wallet)\<rparr>)
      | VFindUser \<Rightarrow>
          if dbThrows e User FindOne then (fail, w)
          else (case find (\<lambda>u. walletAddress u = Some wallet) (users w) of
             None \<Rightarrow> (goto VInsertUser, w)
           | Some u \<Rightarrow> (goto (VLink (uid u)), w))
      | VInsertUser \<Rightarrow>
          if dbThrows e User InsertOne then (fail, w)
          else (goto (VLink (newUserId e)), w\<lparr>users := users w @ [new_user e wallet]\<rparr>)
      | VLink userId \<Rightarrow>
          if dbThrows e Agent UpdateOne then (fail, w)
          else (goto (VCount userId), link_owner (now e) agentId userId w)
      | VCount userId \<Rightarrow>
          if dbThrows e Agent CountDocuments then (fail, w)
          else (let rank = founding_rank_of agentId w
                in (goto (if rank \<le> 5000 then VFounding userId rank else VDelNonce userId rank), w))
      | VFounding userId rank \<Rightarrow>
          if dbThrows e Agent UpdateOne then (fail, w)
          else (goto (VDelNonce userId rank), set_founding agentId rank w)
      | VDelNonce userId rank \<Rightarrow>
          if redisThrows e DEL then (fail, w)
          else (goto (VAuditSuccess userId rank),
                w\<lparr>cache := redis_del (cache w) (claim_nonce_key agentId wallet)\<rparr>)
      | VAuditSuccess userId rank \<Rightarrow>
          if dbThrows e WalletAgentClaims InsertOne then (fail, w)
          else (goto (VPublish userId rank),
                log_claim (claim_success_entry wallet agentId userId rank req (now e)) w)
      | VPublish userId rank \<Rightarrow>
          if redisThrows e PUBLISH then (fail, w)
          else (goto (VDone (claim_reply agentId rank userId)), w)
      | VDone r \<Rightarrow> (c, w))"



text \<open>A call run alone from its start to its reply: sixteen steps are enough.\<close>

definition run_alone :: "ext \<Rightarrow> env \<Rightarrow> request \<Rightarrow> world \<Rightarrow> call \<times> world" where
  "run_alone X e req w = ((\<lambda>(c, v). verify_step X c v) ^^ 16) (start_call e req, w)"

text \<open>The agent a call is about, and the ids of the agents that are still unclaimed.\<close>

definition call_agent :: "call \<Rightarrow> string" where
  "call_agent c = the (bodyAgentId (cReq c))"

definition unclaimed_ids :: "world \<Rightarrow> string set" where
  "unclaimed_ids w = aid ` {a \<in> set (agents w). claimStatus a = Some ''UNCLAIMED''}"



definition replied :: "call \<Rightarrow> response option" where
  "replied c = (case cPc c of VDone r \<Rightarrow> Some r | _ \<Rightarrow> None)"

definition steps :: "ext \<Rightarrow> nat \<Rightarrow> call \<times> world \<Rightarrow> call \<times> world" where
  "steps X n = ((\<lambda>(c, v). verify_step X c v) ^^ n)"


section \<open>What runs after an opt-out\<close>

text \<open>
  The operations of the subsystem, each with the environment of its invocation, and
  whatever else runs in the repository (\<open>Elsewhere\<close>: the creation of agents, posts, votes
  and so on). The collection \<^verbatim>\<open>wallet_opt_outs\<close> is named in \<^verbatim>\<open>routes/claim.js\<close> only (and
  in the migration that creates it and its indexes), so the other code leaves it as it
  is, whatever it does to the other collections.
\<close>

datatype action =
    Check env request
  | Nonce env request
  | Verify env request
  | OptOutNonce env request
  | OptOut env request
  | OrphanJob env
  | NotifyJob env "string \<Rightarrow> string \<Rightarrow> send_result"
  | Elsewhere "world \<Rightarrow> world"

definition perform :: "ext \<Rightarrow> action \<Rightarrow> world \<Rightarrow> world" where
  "perform X a w =
     (case a of
        Check e req \<Rightarrow> snd (check_route X e req w)
      | Nonce e req \<Rightarrow> snd (nonce_route X e req w)
      | Verify e req \<Rightarrow> snd (verify_route X e req w)
      | OptOutNonce e req \<Rightarrow> snd (optout_nonce_route X e req w)
      | OptOut e req \<Rightarrow> snd (optout_route X e req w)
      | OrphanJob e \<Rightarrow> snd (processOrphanTransitions e w)
      | NotifyJob e memo \<Rightarrow> snd (snd (processNotifications e memo w))
      | Elsewhere f \<Rightarrow> (f w)\<lparr>optOuts := optOuts w\<rparr>)"

definition perform_all :: "ext \<Rightarrow> action list \<Rightarrow> world \<Rightarrow> world" where
  "perform_all X as w = foldl (\<lambda>v a. perform X a v) w as"

text \<open>The wallet is on the blocklist: \<^verbatim>\<open>wallet_opt_outs.findOne({walletAddress})\<close> finds a document.\<close>

definition opted_out :: "string \<Rightarrow> world \<Rightarrow> bool" where
  "opted_out W w = (find (\<lambda>x. ooWallet x = W) (optOuts w) \<noteq> None)"

section \<open>The endpoints with their middleware\<close>


definition check_endpoint :: "ext \<Rightarrow> bool \<Rightarrow> env \<Rightarrow> request \<Rightarrow> world \<Rightarrow> response \<times> world" where
  "check_endpoint X limited e req w =
     (if limited then (Err 429 ''RATE_LIMIT_CHECK'', w) else check_route X e req w)"


section \<open>Concrete inputs\<close>

text \<open>An invocation with both stores up and no failing command, at time \<open>t\<close>.\<close>

definition quiet_env :: "int \<Rightarrow> env" where
  "quiet_env t =
     \<lparr> now = t, dbUp = True, redisUp = True,
       redisThrows = (\<lambda>c. False), dbThrows = (\<lambda>c v. False),
       randomHex = ''5f2a'', isoTimestamp = ''2026-02-06T12:00:00.000Z'', newUserId = ''u1'' \<rparr>"

definition plain_request :: request where
  "plain_request =
     \<lparr> reqIp = Some ''10.0.0.7'', remoteAddress = None, bodyWallet = None, queryWallet = None,
       bodyAgentId = None, bodySignature = None, bodyNonce = None \<rparr>"

definition busy_ip_cache :: redis where
  "busy_ip_cache = (\<lambda>k. None)(abuse_ip_key ''10.0.0.7'' \<mapsto> (RInt 100, Some 5000))"

text \<open>
  One unclaimed agent of the system-program wallet, a signature check that accepts the
  all-zero signature only, and the stores before the nonce is issued, after it is issued
  at time 1000, and after the claim at time 3000.
\<close>

definition demo_wallet :: string where
  "demo_wallet = ''11111111111111111111111111111112''"

definition demo_agent_id :: string where
  "demo_agent_id = ''6612f1a2b3c4d5e6f7890abc''"

definition zero_signature :: string where
  "zero_signature = replicate 64 (CHR ''1'')"

definition demo_ext :: ext where
  "demo_ext = solana_ext (\<lambda>msg sg pk. sg = replicate 64 0)"

definition demo_agent :: agent where
  "demo_agent =
     \<lparr> aid = demo_agent_id, aName = ''claw'', isWalletAgent = True,
       sourceWallet = Some demo_wallet, claimStatus = Some ''UNCLAIMED'',
       claimDeadline = Some 2592000000, claimedAt = None, claimedBy = None,
       claimSignature = None, claimNonce = None, orphanedAt = None, ownerId = None,
       foundingRank = None, createdAt = Some 0, updatedAt = None \<rparr>"

definition demo_world :: world where
  "demo_world =
     \<lparr> agents = [demo_agent], users = [], posts = [], comments = [], agentMemory = [],
       agentPersonality = [], watchlist = [], notifications = [], claimsLog = [],
       optOuts = [], cache = (\<lambda>k. None) \<rparr>"

definition claim_request :: "string \<Rightarrow> string \<Rightarrow> request" where
  "claim_request signature nonce =
     \<lparr> reqIp = Some ''10.0.0.7'', remoteAddress = None, bodyWallet = Some demo_wallet,
       queryWallet = None, bodyAgentId = Some demo_agent_id,
       bodySignature = Some signature, bodyNonce = Some nonce \<rparr>"

definition demo_message :: string where
  "demo_message =
     generateClaimMessage demo_agent_id demo_wallet ''5f2a'' ''2026-02-06T12:00:00.000Z''"

definition nonce_world :: world where
  "nonce_world =
     demo_world\<lparr>cache := redis_set_ex 1000 (\<lambda>k. None) (claim_nonce_key demo_agent_id demo_wallet)
                   (RNonce ''5f2a'' ''2026-02-06T12:00:00.000Z'' demo_message) 300\<rparr>"

definition claimed_world :: world where
  "claimed_world =
     \<lparr> agents = [demo_agent\<lparr> claimStatus := Some ''CLAIMED'', claimedAt := Some 3000,
                   claimSignature := Some zero_signature, claimNonce := Some ''5f2a'',
                   claimedBy := Some demo_wallet, updatedAt := Some 3000,
                   ownerId := Some ''u1'', foundingRank := Some 1 \<rparr>],
       users = [new_user (quiet_env 3000) demo_wallet], posts = [], comments = [],
       agentMemory = [], agentPersonality = [], watchlist = [], notifications = [],
       claimsLog = [claim_success_entry demo_wallet demo_agent_id ''u1'' 1
                      (claim_request zero_signature ''5f2a'') 3000],
       optOuts = [], cache = (\<lambda>k. None) \<rparr>"

text \<open>
  The opt-out on concrete stores: the demo agent with two posts, a watcher and an
  opt-out nonce issued at time 1000; and stores with no agent at all.
\<close>

definition optout_request :: "string \<Rightarrow> string \<Rightarrow> request" where
  "optout_request signature nonce =
     \<lparr> reqIp = Some ''10.0.0.7'', remoteAddress = None, bodyWallet = Some demo_wallet,
       queryWallet = None, bodyAgentId = None,
       bodySignature = Some signature, bodyNonce = Some nonce \<rparr>"

definition optout_message :: string where
  "optout_message = generateOptOutMessage demo_wallet ''5f2a'' ''2026-02-06T12:00:00.000Z''"

definition optout_world :: world where
  "optout_world =
     demo_world\<lparr> posts := [demo_agent_id, ''other'', demo_agent_id],
                 watchlist := [\<lparr> wid = ''w1'', watcherUser = ''u9'', watchedAgent = demo_agent_id,
                                 notified = False, notifiedAt = None \<rparr>],
                 cache := redis_set_ex 1000 (\<lambda>k. None) (optout_nonce_key demo_wallet)
                            (RNonce ''5f2a'' ''2026-02-06T12:00:00.000Z'' optout_message) 300 \<rparr>"

definition empty_world :: world where
  "empty_world = demo_world\<lparr>agents := []\<rparr>"

definition blocklist_down :: "env \<Rightarrow> env" where
  "blocklist_down e = e\<lparr>dbThrows := (\<lambda>c v. c = WalletOptOuts \<and> v = InsertOne)\<rparr>"

text \<open>The demo agent with a watcher, looked at after its claim deadline.\<close>

definition watched_world :: world where
  "watched_world =
     demo_world\<lparr>watchlist := [\<lparr> wid = ''w1'', watcherUser = ''u9'', watchedAgent = demo_agent_id,
                                 notified = False, notifiedAt = None \<rparr>]\<rparr>"

text \<open>
  The demo agent 29 days after its creation with the first six reminders delivered, alone
  and behind 72 other unclaimed agents that have had no reminder yet; and a delivery
  channel that always succeeds.
\<close>

definition delivered_six :: "notification list" where
  "delivered_six =
     map (\<lambda>t. reminder (quiet_env 0) demo_agent 0 ''onchain_memo'' t (Some 0) ''sent'' (Some ''tx''))
       six_templates"


definition newcomer :: "nat \<Rightarrow> agent" where
  "newcomer k = demo_agent\<lparr>aid := replicate (Suc k) (CHR ''b''), sourceWallet := None\<rparr>"



definition memo_ok :: "string \<Rightarrow> string \<Rightarrow> send_result" where
  "memo_ok agentId template = SendOk ''tx''"




text \<open>
  After the opt-out of the demo wallet at time 2000: a new agent is created for the
  wallet, the wallet is checked and the notification job runs. \<open>wallet_query\<close> is the
  check request for the wallet.
\<close>

definition wallet_query :: request where
  "wallet_query = plain_request\<lparr>queryWallet := Some demo_wallet\<rparr>"

definition recreate_agent :: "world \<Rightarrow> world" where
  "recreate_agent w = w\<lparr>agents := agents w @ [demo_agent]\<rparr>"

definition later_actions :: "action list" where
  "later_actions =
     [Elsewhere recreate_agent, Check (quiet_env 2500) wallet_query,
      NotifyJob (quiet_env 2500) memo_ok]"

definition after_optout :: world where
  "after_optout =
     perform_all demo_ext later_actions
       (snd (optout_route demo_ext (quiet_env 2000) (optout_request zero_signature ''5f2a'')
               optout_world))"

text \<open>
  The stores of the opt-out with the six reminders of the demo agent on record; and the
  stores with the issued claim nonce after four failed claims of the wallet within the
  hour.
\<close>

definition reminded_optout_world :: world where
  "reminded_optout_world = optout_world\<lparr>notifications := delivered_six\<rparr>"


section \<open>Properties\<close>

declare bytes_of_nat.simps [simp del] b58_digits.simps [simp del]

subsection \<open>Address validation\<close>

lemma base58_class_excludes: "c \<in> set ''0OIl'' \<Longrightarrow> \<not> base58_class c"
  by (auto simp: base58_class_def in_range_def)

lemma address_pattern_class: "address_pattern s \<Longrightarrow> c \<in> set s \<Longrightarrow> base58_class c"
  by (simp add: address_pattern_def list_all_iff)

text \<open>
  C4. \<^verbatim>\<open>isValidSolanaAddress\<close> answers false for the empty string, for every value that is
  not a string, for every string that contains one of the characters 0, O, I, l, for
  every string shorter than 32 or longer than 44 characters, and when the public-key
  constructor throws; it answers true only for a string that the constructor accepts and
  whose canonical Base58 re-encoding is the string itself. It is a total function into
  the booleans: the only call that can throw is caught.
\<close>

theorem isValidSolanaAddress_rejects_and_round_trips:
  "(v = JStr [] \<longrightarrow> \<not> isValidSolanaAddress X v) \<and>
   ((\<forall>s. v \<noteq> JStr s) \<longrightarrow> \<not> isValidSolanaAddress X v) \<and>
   (\<forall>s. v = JStr s \<and> (\<exists>c \<in> set s. c \<in> set ''0OIl'') \<longrightarrow> \<not> isValidSolanaAddress X v) \<and>
   (\<forall>s. v = JStr s \<and> (length s < 32 \<or> 44 < length s) \<longrightarrow> \<not> isValidSolanaAddress X v) \<and>
   (\<forall>s. v = JStr s \<and> publicKey_new X s = None \<longrightarrow> \<not> isValidSolanaAddress X v) \<and>
   (isValidSolanaAddress X v \<longrightarrow>
      (\<exists>s k. v = JStr s \<and> publicKey_new X s = Some k \<and> publicKey_toBase58 X k = s))"
proof (intro conjI allI impI)
  fix s
  assume "v = JStr s \<and> (\<exists>c \<in> set s. c \<in> set ''0OIl'')"
  then obtain c where v: "v = JStr s" and c: "c \<in> set s" "c \<in> set ''0OIl''" by blast
  have "\<not> address_pattern s"
    using address_pattern_class [of s c] base58_class_excludes [of c] c by blast
  then show "\<not> isValidSolanaAddress X v" by (simp add: v isValidSolanaAddress_def)
next
  fix s
  assume "v = JStr s \<and> (length s < 32 \<or> 44 < length s)"
  then show "\<not> isValidSolanaAddress X v"
    by (auto simp: isValidSolanaAddress_def address_pattern_def)
next
  assume "isValidSolanaAddress X v"
  then show "\<exists>s k. v = JStr s \<and> publicKey_new X s = Some k \<and> publicKey_toBase58 X k = s"
    by (cases v) (auto simp: isValidSolanaAddress_def split: if_splits option.splits)
qed (auto simp: isValidSolanaAddress_def split: jsval.splits)

lemma system_program_address_valid:
  "isValidSolanaAddress (solana_ext chk) (JStr ''11111111111111111111111111111112'')"
  by code_simp

theorem isValidSolanaAddress_witness:
  "isValidSolanaAddress (solana_ext (\<lambda>m s k. False)) (JStr ''11111111111111111111111111111112'') \<and>
   (\<exists>k. publicKey_new (solana_ext (\<lambda>m s k. False)) ''11111111111111111111111111111112'' = Some k \<and>
        publicKey_toBase58 (solana_ext (\<lambda>m s k. False)) k = ''11111111111111111111111111111112'') \<and>
   \<not> isValidSolanaAddress (solana_ext (\<lambda>m s k. False))
        (JStr ''0aTjJs756Urcsjs7ia8HYm3eiBNbBAHFAS7fLsSNVxus'') \<and>
   \<not> isValidSolanaAddress (solana_ext (\<lambda>m s k. False)) (JStr ''abc123'') \<and>
   \<not> isValidSolanaAddress (solana_ext (\<lambda>m s k. False)) (JStr []) \<and>
   \<not> isValidSolanaAddress (solana_ext (\<lambda>m s k. False)) (JNum 12345)"
  using
    isValidSolanaAddress_rejects_and_round_trips
      [of "JStr ''11111111111111111111111111111112''" "solana_ext (\<lambda>m s k. False)"]
    isValidSolanaAddress_rejects_and_round_trips
      [of "JStr ''0aTjJs756Urcsjs7ia8HYm3eiBNbBAHFAS7fLsSNVxus''" "solana_ext (\<lambda>m s k. False)"]
    isValidSolanaAddress_rejects_and_round_trips
      [of "JStr ''abc123''" "solana_ext (\<lambda>m s k. False)"]
    isValidSolanaAddress_rejects_and_round_trips
      [of "JStr []" "solana_ext (\<lambda>m s k. False)"]
    isValidSolanaAddress_rejects_and_round_trips
      [of "JNum 12345" "solana_ext (\<lambda>m s k. False)"]
    system_program_address_valid [of "\<lambda>m s k. False"]
  by simp

subsection \<open>Abuse detection\<close>

lemma redis_incr_other:
  "redis_incr t r k = Some (n, r1) \<Longrightarrow> k' \<noteq> k \<Longrightarrow> r1 k' = r k'"
  unfolding redis_incr_def
  by (cases "redis_live t r k") (auto split: prod.splits rvalue.splits)

lemma redis_expire_other: "k' \<noteq> k \<Longrightarrow> redis_expire t r k secs k' = r k'"
  unfolding redis_expire_def by (cases "redis_live t r k") auto

lemma redis_get_cong: "r1 k = r k \<Longrightarrow> redis_get t r1 k = redis_get t r k"
  by (simp add: redis_get_def redis_live_def)

lemma abuse_keys_differ [simp]: "abuse_wallet_key w \<noteq> abuse_ip_key i"
  by (simp add: abuse_wallet_key_def abuse_ip_key_def)

lemma detect_no_incr:
  assumes "redis_incr (now e) r (abuse_ip_key (request_ip req)) = None"
  shows "detectClaimAbuse e req r = (Next, r)"
  using assms by (simp add: detectClaimAbuse_def Let_def)

lemma detect_after_incr:
  assumes up: "redisUp e" "\<not> redisThrows e INCR"
    and incr: "redis_incr (now e) r (abuse_ip_key (request_ip req)) = Some (n, r1)"
  shows "fst (detectClaimAbuse e req r) =
     (if n = 1 \<and> redisThrows e EXPIRE then Next
      else if 100 < n then Respond (Err 429 ''ABUSE_IP_BLOCKED'')
      else (case request_wallet req of None \<Rightarrow> Next
            | Some w \<Rightarrow> if redisThrows e GET then Next
                        else if fail_count_blocks (redis_get (now e) r (abuse_wallet_key w))
                        then Respond (Err 429 ''ABUSE_WALLET_BLOCKED'') else Next))"
proof -
  have same: "r1 (abuse_wallet_key w) = r (abuse_wallet_key w)" for w
    using redis_incr_other [OF incr abuse_keys_differ] .
  have rd1: "redis_get (now e) r1 (abuse_wallet_key w) = redis_get (now e) r (abuse_wallet_key w)" for w
    by (rule redis_get_cong) (rule same)
  have rd2: "redis_get (now e) (redis_expire (now e) r1 (abuse_ip_key (request_ip req)) 3600)
               (abuse_wallet_key w) = redis_get (now e) r (abuse_wallet_key w)" for w
    by (rule redis_get_cong) (simp add: redis_expire_other same)
  show ?thesis
  proof (cases "request_wallet req")
    case None
    then show ?thesis using up incr by (simp add: detectClaimAbuse_def Let_def)
  next
    case (Some w)
    then show ?thesis using up incr by (simp add: detectClaimAbuse_def Let_def rd1 rd2)
  qed
qed

text \<open>
  C8. When Redis is not available (\<^verbatim>\<open>req.redis\<close> missing or not ready), when its first
  command throws, or when every command throws, \<^verbatim>\<open>detectClaimAbuse\<close> calls \<^verbatim>\<open>next()\<close>
  and leaves the cache as it was. It answers 429 only when Redis is ready, the
  increment of the per-IP counter went through (and, on the first request of a window,
  the \<^verbatim>\<open>EXPIRE\<close> too), and either the incremented per-IP counter is above 100 or the
  request names a wallet whose failure counter was read without error and is at least 5.
\<close>

theorem detectClaimAbuse_fails_open:
  "(\<not> redisUp e \<longrightarrow> detectClaimAbuse e req r = (Next, r)) \<and>
   (redisThrows e INCR \<longrightarrow> detectClaimAbuse e req r = (Next, r)) \<and>
   ((\<forall>c. redisThrows e c) \<longrightarrow> detectClaimAbuse e req r = (Next, r)) \<and>
   (\<forall>resp. fst (detectClaimAbuse e req r) = Respond resp \<longrightarrow>
      redisUp e \<and> \<not> redisThrows e INCR \<and>
      (\<exists>n r1. redis_incr (now e) r (abuse_ip_key (request_ip req)) = Some (n, r1) \<and>
         (n = 1 \<longrightarrow> \<not> redisThrows e EXPIRE) \<and>
         ((100 < n \<and> resp = Err 429 ''ABUSE_IP_BLOCKED'') \<or>
          (\<exists>w m. request_wallet req = Some w \<and> \<not> redisThrows e GET \<and>
             redis_get (now e) r (abuse_wallet_key w) = Some (RInt m) \<and> 5 \<le> m \<and>
             resp = Err 429 ''ABUSE_WALLET_BLOCKED''))))"
proof (intro conjI allI impI)
  fix resp
  assume blocked: "fst (detectClaimAbuse e req r) = Respond resp"
  show up: "redisUp e" using blocked by (cases "redisUp e") (simp_all add: detectClaimAbuse_def)
  show noth: "\<not> redisThrows e INCR"
    using blocked up by (cases "redisThrows e INCR") (simp_all add: detectClaimAbuse_def Let_def)
  obtain n r1 where
    incr: "redis_incr (now e) r (abuse_ip_key (request_ip req)) = Some (n, r1)"
    using blocked detect_no_incr [of e r req]
    by (cases "redis_incr (now e) r (abuse_ip_key (request_ip req))") auto
  have "(n = 1 \<longrightarrow> \<not> redisThrows e EXPIRE) \<and>
         ((100 < n \<and> resp = Err 429 ''ABUSE_IP_BLOCKED'') \<or>
          (\<exists>w m. request_wallet req = Some w \<and> \<not> redisThrows e GET \<and>
             redis_get (now e) r (abuse_wallet_key w) = Some (RInt m) \<and> 5 \<le> m \<and>
             resp = Err 429 ''ABUSE_WALLET_BLOCKED''))"
    using blocked unfolding detect_after_incr [OF up noth incr]
    by (auto simp: fail_count_blocks_def split: if_splits option.splits rvalue.splits)
  with incr show "\<exists>n r1. redis_incr (now e) r (abuse_ip_key (request_ip req)) = Some (n, r1) \<and>
         (n = 1 \<longrightarrow> \<not> redisThrows e EXPIRE) \<and>
         ((100 < n \<and> resp = Err 429 ''ABUSE_IP_BLOCKED'') \<or>
          (\<exists>w m. request_wallet req = Some w \<and> \<not> redisThrows e GET \<and>
             redis_get (now e) r (abuse_wallet_key w) = Some (RInt m) \<and> 5 \<le> m \<and>
             resp = Err 429 ''ABUSE_WALLET_BLOCKED''))" by blast
qed (simp_all add: detectClaimAbuse_def Let_def)

theorem detectClaimAbuse_witness:
  "fst (detectClaimAbuse (quiet_env 1000) plain_request busy_ip_cache)
      = Respond (Err 429 ''ABUSE_IP_BLOCKED'') \<and>
   (\<exists>n r1. redis_incr 1000 busy_ip_cache (abuse_ip_key ''10.0.0.7'') = Some (n, r1) \<and> 100 < n) \<and>
   detectClaimAbuse ((quiet_env 1000)\<lparr>redisUp := False\<rparr>) plain_request busy_ip_cache
      = (Next, busy_ip_cache)"
proof -
  have ip: "request_ip plain_request = ''10.0.0.7''"
    by (simp add: request_ip_def plain_request_def js_or_def truthy_def)
  have blocked: "fst (detectClaimAbuse (quiet_env 1000) plain_request busy_ip_cache)
      = Respond (Err 429 ''ABUSE_IP_BLOCKED'')"
    by (simp add: detectClaimAbuse_def Let_def ip quiet_env_def busy_ip_cache_def
        redis_incr_def redis_live_def)
  have "\<exists>n r1. redis_incr 1000 busy_ip_cache (abuse_ip_key ''10.0.0.7'') = Some (n, r1) \<and> 100 < n"
    using detectClaimAbuse_fails_open [of "quiet_env 1000" plain_request busy_ip_cache] blocked
    by (auto simp: ip quiet_env_def)
  moreover have "detectClaimAbuse ((quiet_env 1000)\<lparr>redisUp := False\<rparr>) plain_request busy_ip_cache
      = (Next, busy_ip_cache)"
    using detectClaimAbuse_fails_open
      [of "(quiet_env 1000)\<lparr>redisUp := False\<rparr>" plain_request busy_ip_cache]
    by simp
  ultimately show ?thesis using blocked by blast
qed

subsection \<open>Cost estimation\<close>

text \<open>The rounding: the exponent, the doubling, the error and the integers below \<^verbatim>\<open>2^53\<close>.\<close>

lemma bit_length_pos: "0 < n \<Longrightarrow> bit_length n = Suc (bit_length (n div 2))"
  by (subst bit_length.simps) simp

lemma bit_length_nonpos: "n \<le> 0 \<Longrightarrow> bit_length n = 0"
  by (subst bit_length.simps) simp

lemma bit_length_bounds: "0 < n \<Longrightarrow> 2 ^ (bit_length n - 1) \<le> n \<and> n < 2 ^ bit_length n"
proof (induction n rule: bit_length.induct)
  case (1 n)
  show ?case
  proof (cases "n = 1")
    case True
    then show ?thesis by (simp add: bit_length_pos bit_length_nonpos)
  next
    case False
    with 1(2) have m: "0 < n div 2" by simp
    from 1(1) [OF _ m] 1(2)
    have ih: "2 ^ (bit_length (n div 2) - 1) \<le> n div 2" "n div 2 < 2 ^ bit_length (n div 2)"
      by simp_all
    obtain b where b: "bit_length (n div 2) = Suc b"
      using bit_length_pos [OF m] by simp
    have lo: "2 ^ Suc b \<le> n" using ih(1) b by simp
    have hi: "n < 2 ^ Suc (Suc b)" using ih(2) b by simp
    show ?thesis using lo hi b 1(2) by (simp add: bit_length_pos)
  qed
qed

lemma expo_bounds:
  assumes "0 < x"
  shows "2 powi expo x \<le> x \<and> x < 2 powi (expo x + 1)"
proof (cases "1 \<le> x")
  case True
  let ?n = "\<lfloor>x\<rfloor>"
  have n: "0 < ?n" using True by simp
  from bit_length_bounds [OF n]
  have b: "2 ^ (bit_length ?n - 1) \<le> ?n" "?n < 2 ^ bit_length ?n" by simp_all
  obtain k where k: "bit_length ?n = Suc k" using bit_length_pos [OF n] by simp
  have e: "expo x = int k" using True k by (simp add: expo_def)
  have "(2::int) ^ k \<le> ?n" using b(1) k by simp
  then have "of_int ((2::int) ^ k) \<le> (of_int ?n :: rat)" by (simp only: of_int_le_iff)
  then have "(2::rat) ^ k \<le> of_int ?n" by simp
  moreover have "(of_int ?n :: rat) \<le> x" by (rule of_int_floor_le)
  ultimately have lo: "(2::rat) ^ k \<le> x" by (rule order_trans)
  have "?n + 1 \<le> 2 ^ Suc k" using b(2) k by simp
  then have "(of_int (?n + 1) :: rat) \<le> of_int (2 ^ Suc k)" by (simp only: of_int_le_iff)
  moreover have "x < of_int (?n + 1)" by linarith
  ultimately have "x < of_int (2 ^ Suc k)" by (rule less_le_trans [rotated])
  then have hi: "x < 2 ^ Suc k" by simp
  have "2 powi (int k + 1) = (2::rat) ^ Suc k"
    by (simp add: power_int_add)
  then show ?thesis using lo hi e by simp
next
  case False
  let ?y = "1 / x"
  let ?k = "\<lceil>?y\<rceil> - 1"
  have y: "1 < ?y" using False assms by simp
  then have k: "0 < ?k" by linarith
  from bit_length_bounds [OF k]
  have b: "2 ^ (bit_length ?k - 1) \<le> ?k" "?k < 2 ^ bit_length ?k" by simp_all
  obtain j where j: "bit_length ?k = Suc j" using bit_length_pos [OF k] by simp
  have e: "expo x = - int (Suc j)" using False j by (simp add: expo_def)
  have ky: "of_int ?k < ?y" "?y \<le> of_int ?k + 1" by linarith+
  have "(of_int ((2::int) ^ j) :: rat) \<le> of_int ?k" using b(1) j by (simp only: of_int_le_iff) simp
  then have "(2::rat) ^ j \<le> of_int ?k" by simp
  then have "(2::rat) ^ j < ?y" using ky(1) by (rule le_less_trans)
  then have hi: "x < 1 / 2 ^ j" using assms by (simp add: field_simps)
  have "?k + 1 \<le> 2 ^ Suc j" using b(2) j by simp
  then have "(of_int (?k + 1) :: rat) \<le> of_int (2 ^ Suc j)" by (simp only: of_int_le_iff)
  then have "(of_int ?k :: rat) + 1 \<le> 2 ^ Suc j" by simp
  with ky(2) have "?y \<le> 2 ^ Suc j" by (rule order_trans)
  then have lo: "1 / 2 ^ Suc j \<le> x" using assms by (simp add: field_simps)
  have p1: "2 powi (- int (Suc j)) = 1 / (2::rat) ^ Suc j"
    by (simp only: power_int_minus_divide power_int_of_nat)
  have "- int (Suc j) + 1 = - int j" by simp
  then have p2: "2 powi (- int (Suc j) + 1) = 1 / (2::rat) ^ j"
    by (simp only: power_int_minus_divide power_int_of_nat)
  show ?thesis unfolding e p1 p2 using lo hi by simp
qed

lemma expo_unique:
  assumes "0 < x" "2 powi e \<le> x" "x < 2 powi (e + 1)"
  shows "expo x = e"
proof -
  note b = expo_bounds [OF assms(1)]
  have "\<not> expo x < e"
  proof
    assume "expo x < e"
    then have "expo x + 1 \<le> e" by simp
    then have "(2::rat) powi (expo x + 1) \<le> 2 powi e" by (rule power_int_increasing) simp
    with b assms(2) show False by linarith
  qed
  moreover have "\<not> e < expo x"
  proof
    assume "e < expo x"
    then have "e + 1 \<le> expo x" by simp
    then have "(2::rat) powi (e + 1) \<le> 2 powi expo x" by (rule power_int_increasing) simp
    with b assms(3) show False by linarith
  qed
  ultimately show ?thesis by simp
qed

lemma powi_step: "(2::rat) powi (e + 1) = 2 * 2 powi e"
  by (simp add: power_int_add)

lemma expo_double: "0 < x \<Longrightarrow> expo (2 * x) = expo x + 1"
proof (rule expo_unique)
  assume x: "0 < x"
  note b = expo_bounds [OF x]
  show "0 < 2 * x" using x by simp
  show "2 powi (expo x + 1) \<le> 2 * x" using b by (simp add: powi_step)
  have "(2::rat) powi (expo x + 1 + 1) = 2 * 2 powi (expo x + 1)" by (rule powi_step)
  then show "2 * x < 2 powi (expo x + 1 + 1)" using b by linarith
qed

lemma fl_pos: "0 < x \<Longrightarrow> fl x = of_int (rne (x / 2 powi (expo x - 52))) * 2 powi (expo x - 52)"
  by (simp add: fl_def Let_def)

lemma fl_neg: "fl (- x) = - fl x"
  by (simp add: fl_def Let_def)

lemma fl_double_pos:
  assumes "0 < x"
  shows "fl (2 * x) = 2 * fl x"
proof -
  have e: "expo (2 * x) - 52 = (expo x - 52) + 1" using expo_double [OF assms] by simp
  have q: "(2::rat) powi (expo (2 * x) - 52) = 2 * 2 powi (expo x - 52)"
    unfolding e by (rule powi_step)
  have "0 < 2 * x" using assms by simp
  from fl_pos [OF this] show ?thesis
    unfolding q fl_pos [OF assms] by simp
qed

lemma fl_double: "fl (2 * x) = 2 * fl x"
proof (cases "0 < x")
  case True
  then show ?thesis by (rule fl_double_pos)
next
  case False
  show ?thesis
  proof (cases "x = 0")
    case True
    then show ?thesis by (simp add: fl_def)
  next
    case nz: False
    with False have "0 < - x" by simp
    from fl_double_pos [OF this] show ?thesis
      using fl_neg [of x] fl_neg [of "2 * x"] by simp
  qed
qed

lemma rne_near: "\<bar>of_int (rne m) - m\<bar> \<le> 1 / 2"
proof -
  define n where "n = \<lfloor>m\<rfloor>"
  have b: "of_int n \<le> m" "m < of_int n + 1" unfolding n_def by linarith+
  consider "m - of_int n < 1 / 2" | "1 / 2 < m - of_int n" | "m - of_int n = 1 / 2" by linarith
  then show ?thesis
  proof cases
    case 1
    then have "rne m = n" by (simp add: rne_def Let_def n_def)
    then show ?thesis using b 1 by linarith
  next
    case 2
    then have "rne m = n + 1" by (simp add: rne_def Let_def n_def)
    then show ?thesis using b 2 by (simp add: abs_if)
  next
    case 3
    then have "rne m = n \<or> rne m = n + 1" by (simp add: rne_def Let_def n_def)
    then show ?thesis using b 3 by (auto simp: abs_if)
  qed
qed

lemma rne_int: "rne (of_int k) = k"
  by (simp add: rne_def)

lemma fl_error:
  assumes "0 < x"
  shows "\<bar>fl x - x\<bar> \<le> x / 2 ^ 53"
proof -
  let ?q = "(2::rat) powi (expo x - 52)"
  let ?m = "x / ?q"
  have q: "0 < ?q" by simp
  have x: "x = ?m * ?q" by simp
  have "fl x - x = (of_int (rne ?m) - ?m) * ?q"
    unfolding fl_pos [OF assms] by (simp add: algebra_simps)
  then have "\<bar>fl x - x\<bar> = \<bar>of_int (rne ?m) - ?m\<bar> * ?q"
    by (simp add: abs_mult)
  also have "\<dots> \<le> 1 / 2 * ?q"
    using rne_near [of ?m] q by (intro mult_right_mono) simp_all
  also have "\<dots> = 2 powi expo x / 2 ^ 53"
  proof -
    have "(2::rat) powi (expo x - 52) = 2 powi expo x / 2 powi 52"
      by (rule power_int_diff) simp
    then show ?thesis by simp
  qed
  also have "\<dots> \<le> x / 2 ^ 53"
    using expo_bounds [OF assms] by (simp add: divide_right_mono)
  finally show ?thesis .
qed

lemma fl_int:
  assumes "0 < k" "k < 2 ^ 53"
  shows "fl (of_int k) = of_int k"
proof -
  let ?x = "of_int k :: rat"
  have x: "0 < ?x" using assms by simp
  note b = expo_bounds [OF x]
  have "?x < 2 ^ 53"
  proof -
    have "?x < of_int (2 ^ 53)" using assms(2) by (simp only: of_int_less_iff)
    then show ?thesis by simp
  qed
  then have "(2::rat) powi expo ?x < 2 powi 53" using b by simp
  then have "expo ?x < 53"
    using power_int_increasing [of 53 "expo ?x" "2::rat"] by (cases "expo ?x < 53") auto
  then obtain j where j: "52 - expo ?x = int j"
    using nonneg_int_cases [of "52 - expo ?x"] by auto
  then have e: "expo ?x - 52 = - int j" by simp
  have q: "(2::rat) powi (expo ?x - 52) = 1 / 2 ^ j"
    unfolding e by (simp only: power_int_minus_divide power_int_of_nat)
  have m: "?x / (1 / 2 ^ j) = of_int (k * 2 ^ j)" by simp
  show ?thesis
    unfolding fl_pos [OF x] q m rne_int by simp
qed

text \<open>Two known values: the double of 0.1, and ties between neighbours go to the even one.\<close>

lemma fl_tenth: "fl (1 / 10) = 3602879701896397 / 36028797018963968"
  by code_simp

lemma fl_ties_to_even:
  "fl 9007199254740993 = 9007199254740992 \<and> fl 9007199254740995 = 9007199254740996"
  by code_simp

text \<open>The fields of the estimate.\<close>

lemma fl_0 [simp]: "fl 0 = 0"
  by (simp add: fl_def)

lemma fl_nonneg_int: "0 \<le> k \<Longrightarrow> k < 2 ^ 53 \<Longrightarrow> fl (of_int k) = of_int k"
  using fl_int [of k] by (cases "k = 0") simp_all

lemma floor_half: "\<lfloor>1 / 2 :: rat\<rfloor> = 0"
  by (simp add: floor_eq_iff)

lemma toFixed_nonneg: "0 \<le> x \<Longrightarrow> toFixed d x = of_int \<lfloor>x * 10 ^ d + 1 / 2\<rfloor> / 10 ^ d"
  by (cases "x = 0") (simp_all add: toFixed_def floor_half)

lemma fl_nonneg: "0 \<le> x \<Longrightarrow> 0 \<le> fl x"
proof (cases "x = 0")
  case False
  assume "0 \<le> x"
  with False have x: "0 < x" by simp
  have "0 \<le> x - x / 2 ^ 53" by (simp add: field_simps x less_imp_le)
  then show ?thesis using fl_error [OF x] by linarith
qed simp

lemma lamports_exact:
  assumes "0 \<le> n" "n * 20000 < 2 ^ 53"
  shows "fl (of_int n * of_int ESTIMATED_LAMPORTS_PER_TX) = of_int (n * 10000)"
proof -
  have "n * 10000 < 2 ^ 53" using assms by simp
  from fl_nonneg_int [OF _ this] assms(1) show ?thesis
    by (simp add: ESTIMATED_LAMPORTS_PER_TX_def)
qed

lemma range_rat:
  assumes "n * 20000 < (2::int) ^ 53"
  shows "(of_int n :: rat) * 20000 < 2 ^ 53"
proof -
  have "(of_int (n * 20000) :: rat) < of_int (2 ^ 53)" using assms by (simp only: of_int_less_iff)
  then show ?thesis by simp
qed

lemma micro_exact:
  assumes "0 \<le> n" "n * 20 < 2 ^ 53"
  shows "toFixed 6 (fl (of_int n / 100000)) = of_int n / 100000"
proof (cases "n = 0")
  case True
  then show ?thesis by (simp add: toFixed_def)
next
  case False
  define x :: rat where "x = of_int n / 100000"
  define s where "s = fl x"
  define t where "t = x / 2 ^ 53"
  have x: "0 < x" using assms False by (simp add: x_def)
  have err: "\<bar>s - x\<bar> \<le> t" unfolding s_def t_def by (rule fl_error [OF x])
  have "(of_int (n * 20) :: rat) < of_int (2 ^ 53)" using assms(2) by (simp only: of_int_less_iff)
  then have small: "t * 1000000 < 1 / 2"
    by (simp add: t_def x_def field_simps)
  have xs: "x * 1000000 = of_int (10 * n)" by (simp add: x_def)
  have s0: "0 \<le> s" unfolding s_def by (rule fl_nonneg) (use x in simp)
  have "\<lfloor>s * 1000000 + 1 / 2\<rfloor> = 10 * n"
  proof (rule floor_unique)
    show "of_int (10 * n) \<le> s * 1000000 + 1 / 2" using err small xs by linarith
    show "s * 1000000 + 1 / 2 < of_int (10 * n) + 1" using err small xs by linarith
  qed
  then have "toFixed 6 s = x" unfolding toFixed_nonneg [OF s0] by (simp add: x_def)
  then show ?thesis by (simp add: s_def x_def)
qed

lemma cents_double:
  fixes u :: rat
  shows "\<bar>\<lfloor>2 * u * 100 + 1 / 2\<rfloor> - 2 * \<lfloor>u * 100 + 1 / 2\<rfloor>\<bar> \<le> 1"
proof -
  define c where "c = \<lfloor>u * 100 + 1 / 2\<rfloor>"
  define d where "d = \<lfloor>2 * u * 100 + 1 / 2\<rfloor>"
  have c: "of_int c \<le> u * 100 + 1 / 2" "u * 100 + 1 / 2 < of_int c + 1"
    unfolding c_def by linarith+
  have d: "of_int d \<le> 2 * u * 100 + 1 / 2" "2 * u * 100 + 1 / 2 < of_int d + 1"
    unfolding d_def by linarith+
  have "(of_int d :: rat) < of_int (2 * c + 2)" using c d by simp
  then have hi: "d < 2 * c + 2" by (simp only: of_int_less_iff)
  have "(of_int (2 * c - 2) :: rat) < of_int d" using c d by simp
  then have lo: "2 * c - 2 < d" by (simp only: of_int_less_iff)
  show ?thesis unfolding c_def [symmetric] d_def [symmetric] using lo hi by linarith
qed

lemma near_product:
  fixes x s u e :: rat
  assumes "0 < x" "\<bar>s - x\<bar> \<le> x * e" "\<bar>u - s * 150\<bar> \<le> s * 150 * e" "0 \<le> e" "e \<le> 1"
  shows "\<bar>u - x * 150\<bar> \<le> 450 * (x * e)"
proof -
  define t where "t = x * e"
  have t: "t \<le> x" unfolding t_def using assms(1,5) mult_left_mono [of e 1 x] by simp
  have s2: "s \<le> 2 * x" using assms(2) t unfolding t_def [symmetric] by linarith
  have "s * e \<le> 2 * x * e" using s2 assms(4) by (rule mult_right_mono)
  then have "s * 150 * e \<le> 300 * t" by (simp add: t_def algebra_simps)
  then have "\<bar>u - s * 150\<bar> \<le> 300 * t" using assms(3) by linarith
  moreover have "\<bar>s - x\<bar> \<le> t" using assms(2) by (simp add: t_def)
  ultimately show ?thesis unfolding t_def [symmetric] by linarith
qed

lemma usd_near:
  assumes "0 \<le> n" "n * 20000 < 2 ^ 53"
  shows "\<bar>fl (fl (of_int n / 100000) * 150) * 100 - of_int n * 3 / 20\<bar> \<le> 1 / 10000"
proof (cases "n = 0")
  case True
  then show ?thesis by simp
next
  case False
  define x :: rat where "x = of_int n / 100000"
  define s where "s = fl x"
  define u where "u = fl (s * 150)"
  define e :: rat where "e = 1 / 2 ^ 53"
  have x: "0 < x" using assms False by (simp add: x_def)
  have es: "\<bar>s - x\<bar> \<le> x * e" using fl_error [OF x] by (simp add: s_def e_def)
  have e01: "0 \<le> e" "e \<le> 1" by (simp_all add: e_def)
  have "x * e < x" using x by (simp add: e_def)
  then have s: "0 < s" using es by linarith
  then have s150: "0 < s * 150" by simp
  have eu: "\<bar>u - s * 150\<bar> \<le> s * 150 * e" using fl_error [OF s150] by (simp add: u_def e_def)
  note tot = near_product [OF x es eu e01]
  have small: "450 * (x * e) * 100 \<le> 1 / 10000"
    using range_rat [OF assms(2)] by (simp add: x_def e_def field_simps)
  have xn: "of_int n * 3 / 20 = x * 150 * 100" by (simp add: x_def)
  have "\<bar>u * 100 - x * 150 * 100\<bar> \<le> 1 / 10000" using tot small by linarith
  then show ?thesis unfolding xn by (simp add: u_def s_def x_def)
qed

lemma estimate_fields:
  "totalLamports (estimateBatchCost n) = fl (of_int n * of_int ESTIMATED_LAMPORTS_PER_TX)"
  "totalSol (estimateBatchCost n)
     = fl (toFixed 6 (fl (fl (of_int n * of_int ESTIMATED_LAMPORTS_PER_TX) / 1000000000)))"
  "totalUsd (estimateBatchCost n)
     = fl (toFixed 2 (fl (fl (fl (of_int n * of_int ESTIMATED_LAMPORTS_PER_TX) / 1000000000) * 150)))"
  by (simp_all add: estimateBatchCost_def Let_def parseFloat_def)

lemma estimate_in_range:
  assumes "0 \<le> n" "n * 20000 < 2 ^ 53"
  shows "totalLamports (estimateBatchCost n) = of_int (n * 10000)"
    and "totalSol (estimateBatchCost n) = fl (of_int n / 100000)"
    and "totalUsd (estimateBatchCost n)
           = fl (of_int \<lfloor>fl (fl (of_int n / 100000) * 150) * 100 + 1 / 2\<rfloor> / 100)"
proof -
  have l: "fl (of_int n * of_int ESTIMATED_LAMPORTS_PER_TX) = of_int (n * 10000)"
    by (rule lamports_exact [OF assms])
  have s: "(of_int (n * 10000) :: rat) / 1000000000 = of_int n / 100000" by simp
  have n20: "n * 20 < 2 ^ 53" using assms by simp
  have u0: "0 \<le> fl (fl (of_int n / 100000) * 150)"
    using assms(1) by (intro fl_nonneg mult_nonneg_nonneg) simp_all
  show "totalLamports (estimateBatchCost n) = of_int (n * 10000)"
    unfolding estimate_fields l ..
  show "totalSol (estimateBatchCost n) = fl (of_int n / 100000)"
    unfolding estimate_fields l s micro_exact [OF assms(1) n20] ..
  show "totalUsd (estimateBatchCost n)
           = fl (of_int \<lfloor>fl (fl (of_int n / 100000) * 150) * 100 + 1 / 2\<rfloor> / 100)"
    unfolding estimate_fields l s toFixed_nonneg [OF u0] by simp
qed

lemma estimate_double:
  "totalLamports (estimateBatchCost (2 * n)) = 2 * totalLamports (estimateBatchCost n)"
  "fl (fl (of_int (2 * n) * of_int ESTIMATED_LAMPORTS_PER_TX) / 1000000000)
     = 2 * fl (fl (of_int n * of_int ESTIMATED_LAMPORTS_PER_TX) / 1000000000)"
proof -
  have l: "fl (of_int (2 * n) * of_int ESTIMATED_LAMPORTS_PER_TX)
             = 2 * fl (of_int n * of_int ESTIMATED_LAMPORTS_PER_TX)"
    using fl_double [of "of_int n * of_int ESTIMATED_LAMPORTS_PER_TX"] by (simp add: mult.assoc)
  show "totalLamports (estimateBatchCost (2 * n)) = 2 * totalLamports (estimateBatchCost n)"
    unfolding estimate_fields by (rule l)
  show "fl (fl (of_int (2 * n) * of_int ESTIMATED_LAMPORTS_PER_TX) / 1000000000)
     = 2 * fl (fl (of_int n * of_int ESTIMATED_LAMPORTS_PER_TX) / 1000000000)"
    unfolding l
    using fl_double [of "fl (of_int n * of_int ESTIMATED_LAMPORTS_PER_TX) / 1000000000"] by simp
qed

text \<open>
  C9, as far as it holds. The estimate of 0 is zero in all three fields. For a count \<open>n\<close>
  with \<open>n * 20000 < 2 ^ 53\<close>: \<open>totalLamports\<close> is exactly \<open>10000 n\<close> and \<open>totalSol\<close> is the double
  nearest to \<open>n / 100000\<close>; both are exactly twice as large for \<open>2 n\<close>. \<open>totalUsd\<close> is the
  double nearest to a whole number \<open>c\<close> of cents, \<open>c\<close> within half a cent (and the rounding
  error of the doubles, below a ten-thousandth of a cent) of \<open>0.15 n\<close>; the cents for \<open>2 n\<close> differ from
  \<open>2 c\<close> by at most one.
\<close>

theorem estimateBatchCost_zero_and_doubling:
  "totalLamports (estimateBatchCost 0) = 0 \<and> totalSol (estimateBatchCost 0) = 0 \<and>
   totalUsd (estimateBatchCost 0) = 0 \<and>
   (0 \<le> n \<and> n * 20000 < 2 ^ 53 \<longrightarrow>
      totalLamports (estimateBatchCost n) = of_int (n * 10000) \<and>
      totalLamports (estimateBatchCost (2 * n)) = 2 * totalLamports (estimateBatchCost n) \<and>
      totalSol (estimateBatchCost n) = fl (of_int n / 100000) \<and>
      totalSol (estimateBatchCost (2 * n)) = 2 * totalSol (estimateBatchCost n) \<and>
      (\<exists>c c'. totalUsd (estimateBatchCost n) = fl (of_int c / 100) \<and>
               \<bar>of_int c - (of_int n * 3 / 20 :: rat)\<bar> \<le> 1 / 2 + 1 / 10000 \<and>
               totalUsd (estimateBatchCost (2 * n)) = fl (of_int c' / 100) \<and>
               \<bar>c' - 2 * c\<bar> \<le> 1))"
proof (intro conjI impI)
  show "totalLamports (estimateBatchCost 0) = 0" by (simp add: estimate_fields)
  show "totalSol (estimateBatchCost 0) = 0" by (simp add: estimate_fields toFixed_def)
  show "totalUsd (estimateBatchCost 0) = 0" by (simp add: estimate_fields toFixed_def)
next
  assume r: "0 \<le> n \<and> n * 20000 < 2 ^ 53"
  then have n: "0 \<le> n" "n * 20000 < 2 ^ 53" by simp_all
  note here = estimate_in_range [OF n]
  define s where "s = fl (of_int n / 100000)"
  define u where "u = fl (s * 150)"
  define c where "c = \<lfloor>u * 100 + 1 / 2\<rfloor>"
  define c' where "c' = \<lfloor>2 * u * 100 + 1 / 2\<rfloor>"
  show "totalLamports (estimateBatchCost n) = of_int (n * 10000)" by (rule here(1))
  show "totalLamports (estimateBatchCost (2 * n)) = 2 * totalLamports (estimateBatchCost n)"
    by (rule estimate_double(1))
  show "totalSol (estimateBatchCost n) = fl (of_int n / 100000)" by (rule here(2))
  have sol: "fl (fl (of_int n * of_int ESTIMATED_LAMPORTS_PER_TX) / 1000000000) = s"
    unfolding s_def lamports_exact [OF n] by simp
  have sol2: "fl (fl (of_int (2 * n) * of_int ESTIMATED_LAMPORTS_PER_TX) / 1000000000) = 2 * s"
    unfolding estimate_double(2) sol ..
  have s0: "0 \<le> s" unfolding s_def using n(1) by (intro fl_nonneg) simp
  have n40: "(2 * n) * 20 < 2 ^ 53" using n by simp
  have "0 \<le> 2 * n" using n(1) by simp
  from micro_exact [OF this n40]
  have "toFixed 6 (fl (2 * (of_int n / 100000))) = 2 * (of_int n / 100000)" by simp
  then have tf: "toFixed 6 (2 * s) = 2 * (of_int n / 100000)"
    unfolding fl_double s_def .
  have "totalSol (estimateBatchCost (2 * n)) = fl (2 * (of_int n / 100000))"
    unfolding estimate_fields sol2 tf ..
  then show "totalSol (estimateBatchCost (2 * n)) = 2 * totalSol (estimateBatchCost n)"
    unfolding here(2) fl_double .
  have u0: "0 \<le> u" unfolding u_def using s0 by (intro fl_nonneg) simp
  have one: "totalUsd (estimateBatchCost n) = fl (of_int c / 100)"
    unfolding here(3) c_def u_def s_def ..
  have u2: "fl (2 * s * 150) = 2 * u"
    using fl_double [of "s * 150"] by (simp add: u_def mult.assoc)
  have "0 \<le> 2 * u" using u0 by simp
  from toFixed_nonneg [OF this, of 2]
  have tu: "toFixed 2 (2 * u) = of_int c' / 100"
    unfolding c'_def by simp
  have two: "totalUsd (estimateBatchCost (2 * n)) = fl (of_int c' / 100)"
    unfolding estimate_fields sol2 u2 tu ..
  have near: "\<bar>u * 100 - of_int n * 3 / 20\<bar> \<le> 1 / 10000"
    using usd_near [OF n] by (simp add: u_def s_def)
  have cb: "of_int c \<le> u * 100 + 1 / 2" "u * 100 + 1 / 2 < of_int c + 1"
    unfolding c_def by linarith+
  have cn: "\<bar>of_int c - (of_int n * 3 / 20 :: rat)\<bar> \<le> 1 / 2 + 1 / 10000"
    using near cb by linarith
  have dd: "\<bar>c' - 2 * c\<bar> \<le> 1" unfolding c'_def c_def by (rule cents_double)
  show "\<exists>c c'. totalUsd (estimateBatchCost n) = fl (of_int c / 100) \<and>
               \<bar>of_int c - (of_int n * 3 / 20 :: rat)\<bar> \<le> 1 / 2 + 1 / 10000 \<and>
               totalUsd (estimateBatchCost (2 * n)) = fl (of_int c' / 100) \<and>
               \<bar>c' - 2 * c\<bar> \<le> 1"
    using one cn two dd by blast
qed

text \<open>
  The theorem at 23 and 46, where the cents are 3 and 7; and the estimate of 30, whose
  exact cost of 4.5 cents is a double just below 0.045 and is rounded to 4 cents.
\<close>

theorem estimateBatchCost_witness:
  "(0::int) \<le> 23 \<and> (23::int) * 20000 < 2 ^ 53 \<and>
   totalLamports (estimateBatchCost 23) = 230000 \<and>
   totalLamports (estimateBatchCost 46) = 2 * totalLamports (estimateBatchCost 23) \<and>
   totalSol (estimateBatchCost 23) = fl (23 / 100000) \<and>
   totalSol (estimateBatchCost 46) = 2 * totalSol (estimateBatchCost 23) \<and>
   totalUsd (estimateBatchCost 23) = fl (3 / 100) \<and>
   totalUsd (estimateBatchCost 46) = fl (7 / 100) \<and>
   totalUsd (estimateBatchCost 30) = fl (4 / 100)"
proof -
  have r: "(0::int) \<le> 23 \<and> (23::int) * 20000 < 2 ^ 53" by simp
  have usd: "totalUsd (estimateBatchCost 23) = fl (3 / 100)"
    "totalUsd (estimateBatchCost 46) = fl (7 / 100)"
    "totalUsd (estimateBatchCost 30) = fl (4 / 100)"
    by code_simp+
  from estimateBatchCost_zero_and_doubling [of 23] r
  have "totalLamports (estimateBatchCost 23) = 230000 \<and>
   totalLamports (estimateBatchCost 46) = 2 * totalLamports (estimateBatchCost 23) \<and>
   totalSol (estimateBatchCost 23) = fl (23 / 100000) \<and>
   totalSol (estimateBatchCost 46) = 2 * totalSol (estimateBatchCost 23)"
    by simp
  then show ?thesis using r usd by simp
qed

text \<open>
  C9 as stated fails for \<open>totalUsd\<close>: the estimate of 2 is 0 dollars (0.3 cent), the
  estimate of 4 is 0.01 dollars (0.6 cent).
\<close>

theorem estimateBatchCost_usd_not_linear:
  "totalUsd (estimateBatchCost 2) = 0 \<and>
   totalUsd (estimateBatchCost (2 * 2)) = fl (1 / 100) \<and>
   fl (1 / 100) = 5764607523034235 / 576460752303423488 \<and>
   totalUsd (estimateBatchCost (2 * 2)) \<noteq> 2 * totalUsd (estimateBatchCost 2)"
  by code_simp

subsection \<open>The claim nonce\<close>

lemma nonce_key_not_abuse [simp]: "claim_nonce_key a w \<noteq> abuse_wallet_key w'"
  by (simp add: claim_nonce_key_def abuse_wallet_key_def)

lemma recordFailed_other:
  "k \<noteq> abuse_wallet_key wallet \<Longrightarrow> recordFailedClaimAttempt e r wallet k = r k"
proof (cases "redis_incr (now e) r (abuse_wallet_key wallet)")
  case None
  then show ?thesis by (simp add: recordFailedClaimAttempt_def)
next
  case (Some p)
  obtain n r1 where p: "p = (n, r1)" by (cases p)
  assume k: "k \<noteq> abuse_wallet_key wallet"
  have "r1 k = r k" using redis_incr_other [OF Some [unfolded p] k] .
  then show ?thesis using Some p k
    by (simp add: recordFailedClaimAttempt_def redis_expire_other)
qed

lemma redis_get_del_same [simp]: "redis_get t (redis_del r k) k = None"
  by (simp add: redis_get_def redis_live_def redis_del_def)

lemma verify_route_ready:
  assumes "verify_ready X e req wallet agentId signature nonce"
  shows "verify_route X e req w =
     (case redis_get (now e) (cache w) (claim_nonce_key agentId wallet) of
              None \<Rightarrow>
                (Err 400 ''NONCE_EXPIRED'',
                 w\<lparr>cache := recordFailedClaimAttempt e (cache w) wallet\<rparr>)
            | Some (RNonce storedNonce storedTimestamp message) \<Rightarrow>
                if storedNonce \<noteq> nonce then
                  (Err 400 ''NONCE_MISMATCH'',
                   w\<lparr>cache := recordFailedClaimAttempt e (cache w) wallet\<rparr>)
                else if \<not> verifySolanaSignature X wallet message signature then
                  (let w1 = w\<lparr>cache := recordFailedClaimAttempt e (cache w) wallet\<rparr>
                   in if dbThrows e WalletAgentClaims InsertOne then (Err 500 [], w1)
                      else (Err 403 ''INVALID_SIGNATURE'',
                            log_claim (audit_entry (Some wallet) (Some agentId) ''CLAIM_FAILED''
                                         (Some ''INVALID_SIGNATURE'') req (now e)) w1))
                else claim_transition e req wallet agentId signature nonce w
            | Some other \<Rightarrow>
                (Err 400 ''NONCE_MISMATCH'',
                 w\<lparr>cache := recordFailedClaimAttempt e (cache w) wallet\<rparr>))"
  using assms by (simp add: verify_route_def verify_ready_def truthy_def Let_def)

lemma verify_reply_ready:
  assumes "verify_route X e req w = (ClaimReply a rk u, w1)"
  shows "\<exists>wallet agentId signature nonce. verify_ready X e req wallet agentId signature nonce"
proof -
  have t: "truthy (bodyWallet req)" "truthy (bodyAgentId req)" "truthy (bodySignature req)" "truthy (bodyNonce req)"
    using assms by (auto simp: verify_route_def split: if_splits)
  then obtain wallet agentId signature nonce where f: "bodyWallet req = Some wallet" "bodyAgentId req = Some agentId"
      "bodySignature req = Some signature" "bodyNonce req = Some nonce" 
      "wallet \<noteq> []" "agentId \<noteq> []" "signature \<noteq> []" "nonce \<noteq> []"
    by (auto simp: truthy_def split: option.splits)
  have "isValidSolanaAddress X (JStr wallet) \<and> objectId_isValid X agentId \<and>
      dbUp e \<and> redisUp e \<and> \<not> redisThrows e GET"
    using assms t f by (simp add: verify_route_def Let_def split: if_splits)
  with f show ?thesis unfolding verify_ready_def by blast
qed

lemma cache_simps [simp]:
  "cache (link_owner t a u w) = cache w"
  "cache (set_founding a rk w) = cache w"
  "cache (log_claim en w) = cache w"
  by (simp_all add: link_owner_def set_founding_def log_claim_def)

lemma claim_enrich_cache:
  assumes "claim_enrich e req W A w = (r, w')"
  shows "(r = Err 500 [] \<and> cache w' = cache w) \<or>
         ((r = Err 500 [] \<or> (\<exists>rk u. r = claim_reply A rk u)) \<and>
          cache w' = redis_del (cache w) (claim_nonce_key A W))"
  using assms unfolding claim_enrich_def Let_def
  by (auto split: if_splits option.splits)

lemma claim_reply_not_err [simp]: "claim_reply A rk u \<noteq> Err c m" "Err c m \<noteq> claim_reply A rk u"
  by (simp_all add: claim_reply_def)

lemma claim_cas_cache: "cache (snd (claim_cas t A W sg n w)) = cache w"
  by (simp add: claim_cas_def split: option.splits)

lemma claim_transition_cache:
  assumes "claim_transition e req W A sg n w = (r, w')"
  shows "(r = Err 500 [] \<and> cache w' = cache w) \<or>
         ((r = Err 500 [] \<or> r = Err 409 ''ALREADY_CLAIMED'' \<or> (\<exists>rk u. r = claim_reply A rk u)) \<and>
          cache w' = redis_del (cache w) (claim_nonce_key A W))"
proof (cases "dbThrows e Agent FindOneAndUpdate")
  case True
  then show ?thesis using assms by (simp add: claim_transition_def)
next
  case False
  obtain res w1 where cas: "claim_cas (now e) A W sg n w = (res, w1)" by (cases "claim_cas (now e) A W sg n w")
  have c1: "cache w1 = cache w" using claim_cas_cache [of "now e" A W sg n w] cas by simp
  show ?thesis
  proof (cases res)
    case None
    then show ?thesis using assms False cas c1
      by (auto simp: claim_transition_def split: if_splits)
  next
    case (Some a)
    then have "claim_enrich e req W A w1 = (r, w')" using assms False cas
      by (simp add: claim_transition_def)
    from claim_enrich_cache [OF this] show ?thesis using c1 by auto
  qed
qed

text \<open>
  C2. After a verify call that answers with the successful claim, the nonce entry of
  (agent, wallet) is gone from the cache; a second verify call with the same wallet,
  agent and nonce that reaches the nonce lookup is answered \<^verbatim>\<open>NONCE_EXPIRED\<close>, and where a
  live entry with another nonce is found under the key the answer is \<^verbatim>\<open>NONCE_MISMATCH\<close>.
\<close>

theorem claim_nonce_single_use:
  assumes ok: "verify_route X e req w = (ClaimReply a rk u, w1)"
    and same: "bodyWallet req2 = bodyWallet req" "bodyAgentId req2 = bodyAgentId req"
      "bodyNonce req2 = bodyNonce req" "truthy (bodySignature req2)"
    and up: "dbUp e2" "redisUp e2" "\<not> redisThrows e2 GET"
  shows "cache w1 (claim_nonce_key (the (bodyAgentId req)) (the (bodyWallet req))) = None \<and>
     fst (verify_route X e2 req2 w1) = Err 400 ''NONCE_EXPIRED'' \<and>
     (\<forall>w2 n' ts m. redis_get (now e2) (cache w2)
           (claim_nonce_key (the (bodyAgentId req)) (the (bodyWallet req))) = Some (RNonce n' ts m)
         \<and> Some n' \<noteq> bodyNonce req
         \<longrightarrow> fst (verify_route X e2 req2 w2) = Err 400 ''NONCE_MISMATCH'')"
proof -
  from verify_reply_ready [OF ok] obtain W A sg n where ready: "verify_ready X e req W A sg n"
    by blast
  then have f: "bodyWallet req = Some W" "bodyAgentId req = Some A" "bodyNonce req = Some n"
    by (simp_all add: verify_ready_def)
  let ?k = "claim_nonce_key A W"
  have "\<exists>m. claim_transition e req W A sg n w = (ClaimReply a rk u, w1)"
    using ok unfolding verify_route_ready [OF ready]
    by (auto split: option.splits rvalue.splits if_splits simp: Let_def)
  then have tr: "claim_transition e req W A sg n w = (ClaimReply a rk u, w1)" by simp
  have del: "cache w1 = redis_del (cache w) ?k"
    using claim_transition_cache [OF tr] by auto
  then have gone: "cache w1 ?k = None" by (simp add: redis_del_def)
  obtain sg2 where sg2: "bodySignature req2 = Some sg2" "sg2 \<noteq> []"
    using same(4) by (auto simp: truthy_def split: option.splits)
  have ready2: "verify_ready X e2 req2 W A sg2 n"
    using ready same up sg2 f by (simp add: verify_ready_def)
  have none: "redis_get (now e2) (cache w1) ?k = None"
    using gone by (simp add: redis_get_def redis_live_def)
  have second: "fst (verify_route X e2 req2 w1) = Err 400 ''NONCE_EXPIRED''"
    unfolding verify_route_ready [OF ready2] none by simp
  have third: "fst (verify_route X e2 req2 w2) = Err 400 ''NONCE_MISMATCH''"
    if "redis_get (now e2) (cache w2) ?k = Some (RNonce n' ts m)" "Some n' \<noteq> bodyNonce req"
    for w2 n' ts m
    unfolding verify_route_ready [OF ready2] using that f by simp
  show ?thesis using gone second third f by simp
qed

lemma verify_not_ready:
  assumes "\<not> (\<exists>W A sg n. verify_ready X e req W A sg n)"
  shows "snd (verify_route X e req w) = w"
proof -
  have "\<not> truthy (bodyWallet req) \<or> \<not> truthy (bodyAgentId req) \<or>
        \<not> truthy (bodySignature req) \<or> \<not> truthy (bodyNonce req) \<or>
        \<not> isValidSolanaAddress X (JStr (the (bodyWallet req))) \<or>
        \<not> objectId_isValid X (the (bodyAgentId req)) \<or> \<not> dbUp e \<or> \<not> redisUp e \<or> redisThrows e GET"
    using assms unfolding verify_ready_def truthy_def
    by (cases "bodyWallet req"; cases "bodyAgentId req"; cases "bodySignature req"; cases "bodyNonce req") auto
  then show ?thesis
    by (auto simp: verify_route_def Let_def)
qed

lemma verify_route_deletes_only_on_claim_paths:
  assumes ch: "cache (snd (verify_route X e req w)) (claim_nonce_key A W) \<noteq> cache w (claim_nonce_key A W)"
  shows "fst (verify_route X e req w) = Err 409 ''ALREADY_CLAIMED'' \<or>
         (\<exists>a rk u. fst (verify_route X e req w) = ClaimReply a rk u) \<or>
         fst (verify_route X e req w) = Err 500 []"
proof (cases "\<exists>W' A' sg n. verify_ready X e req W' A' sg n")
  case False
  from verify_not_ready [OF False] ch show ?thesis by simp
next
  case True
  then obtain W' A' sg n where ready: "verify_ready X e req W' A' sg n" by blast
  let ?k = "claim_nonce_key A W"
  have keep: "recordFailedClaimAttempt e (cache w) W' ?k = cache w ?k"
    by (rule recordFailed_other) simp
  show ?thesis
  proof (cases "\<exists>ts msg. redis_get (now e) (cache w) (claim_nonce_key A' W') = Some (RNonce n ts msg)
                   \<and> verifySolanaSignature X W' msg sg")
    case False
    then have "cache (snd (verify_route X e req w)) ?k = cache w ?k"
      unfolding verify_route_ready [OF ready]
      by (auto simp: Let_def keep split: option.splits rvalue.splits)
    with ch show ?thesis by simp
  next
    case True
    then obtain ts msg where g: "redis_get (now e) (cache w) (claim_nonce_key A' W') = Some (RNonce n ts msg)"
      and v: "verifySolanaSignature X W' msg sg" by blast
    have route: "verify_route X e req w = claim_transition e req W' A' sg n w"
      unfolding verify_route_ready [OF ready] g using v by simp
    obtain r w' where tr: "claim_transition e req W' A' sg n w = (r, w')"
      by (cases "claim_transition e req W' A' sg n w")
    from claim_transition_cache [OF tr] ch show ?thesis
      unfolding route tr by (auto simp: claim_reply_def)
  qed
qed

subsection \<open>The claim flow on the concrete stores\<close>

lemma demo_wallet_valid: "isValidSolanaAddress demo_ext (JStr demo_wallet)"
  unfolding demo_ext_def demo_wallet_def by (rule system_program_address_valid)

lemma demo_id_valid: "objectId_isValid demo_ext demo_agent_id"
  by (simp add: demo_ext_def solana_ext_def demo_agent_id_def is_hex_def)

lemma demo_nonce_issued:
  "nonce_route demo_ext (quiet_env 1000) (claim_request ''x'' ''y'') demo_world
     = (NonceReply ''5f2a'' demo_message ''2026-02-06T12:00:00.000Z'' 300, nonce_world)"
  using demo_wallet_valid demo_id_valid
  by (simp add: nonce_route_def claim_request_def truthy_def quiet_env_def Let_def demo_world_def
      demo_agent_def agent_of_wallet_def status_or_unclaimed_def NONCE_TTL_SECONDS_def
      demo_message_def nonce_world_def demo_wallet_def demo_agent_id_def)

lemma zero_signature_verifies: "verifySolanaSignature demo_ext demo_wallet msg zero_signature"
  unfolding demo_ext_def demo_wallet_def zero_signature_def verifySolanaSignature_def solana_ext_def
  by code_simp


lemma demo_ready:
  "dbUp e \<Longrightarrow> redisUp e \<Longrightarrow> \<not> redisThrows e GET \<Longrightarrow> sg \<noteq> [] \<Longrightarrow> n \<noteq> [] \<Longrightarrow>
   verify_ready demo_ext e (claim_request sg n) demo_wallet demo_agent_id sg n"
  using demo_wallet_valid demo_id_valid
  by (simp add: verify_ready_def claim_request_def demo_wallet_def demo_agent_id_def)

lemma quiet_ready:
  "sg \<noteq> [] \<Longrightarrow> n \<noteq> [] \<Longrightarrow>
   verify_ready demo_ext (quiet_env t) (claim_request sg n) demo_wallet demo_agent_id sg n"
  by (rule demo_ready) (simp_all add: quiet_env_def)

lemma quiet_no_faults: "no_faults (quiet_env t)"
  by (simp add: no_faults_def quiet_env_def)

lemma nonce_world_entry:
  "cache nonce_world (claim_nonce_key demo_agent_id demo_wallet)
     = Some (RNonce ''5f2a'' ''2026-02-06T12:00:00.000Z'' demo_message, Some 301000)"
  by (simp add: nonce_world_def redis_set_ex_def)

lemma demo_claim:
  "verify_route demo_ext (quiet_env 3000) (claim_request zero_signature ''5f2a'') nonce_world
     = (ClaimReply demo_agent_id (Some 1) ''u1'', claimed_world)"
proof -
  have r: "verify_ready demo_ext (quiet_env 3000) (claim_request zero_signature ''5f2a'')
             demo_wallet demo_agent_id zero_signature ''5f2a''"
    by (rule quiet_ready) (simp_all add: zero_signature_def)
  have g: "redis_get 3000 (cache nonce_world) (claim_nonce_key demo_agent_id demo_wallet)
             = Some (RNonce ''5f2a'' ''2026-02-06T12:00:00.000Z'' demo_message)"
    by (simp add: nonce_world_entry redis_get_def redis_live_def)
  have n: "now (quiet_env 3000) = 3000" by (simp add: quiet_env_def)
  show ?thesis
    unfolding verify_route_ready [OF r] n g
    using zero_signature_verifies
    by (simp add: claim_transition_def claim_cas_def claim_enrich_def Let_def quiet_env_def
        nonce_world_def demo_world_def claimable_def demo_agent_def set_claimed_def link_owner_def
        founding_rank_of_def set_founding_def log_claim_def claim_reply_def redis_del_def
        redis_set_ex_def new_user_def claimed_world_def)
qed

theorem claim_nonce_single_use_witness:
  "verify_route demo_ext (quiet_env 3000) (claim_request zero_signature ''5f2a'') nonce_world
     = (ClaimReply demo_agent_id (Some 1) ''u1'', claimed_world) \<and>
   cache claimed_world (claim_nonce_key demo_agent_id demo_wallet) = None \<and>
   fst (verify_route demo_ext (quiet_env 4000) (claim_request zero_signature ''5f2a'') claimed_world)
     = Err 400 ''NONCE_EXPIRED''"
  using claim_nonce_single_use
    [OF demo_claim, of "claim_request zero_signature ''5f2a''" "quiet_env 4000"]
    demo_claim
  by (simp add: claim_request_def truthy_def zero_signature_def quiet_env_def)

subsection \<open>Opt-out\<close>

lemma optout_route_ready:
  assumes "optout_ready X e req wallet signature nonce"
  shows "optout_route X e req w =
     (case redis_get (now e) (cache w) (optout_nonce_key wallet) of
              None \<Rightarrow> (Err 400 ''NONCE_EXPIRED'', w)
            | Some (RNonce storedNonce storedTimestamp message) \<Rightarrow>
                if storedNonce \<noteq> nonce then (Err 400 ''NONCE_MISMATCH'', w)
                else if \<not> verifySolanaSignature X wallet message signature then
                  (if dbThrows e WalletAgentClaims InsertOne then (Err 500 [], w)
                   else (Err 403 ''INVALID_SIGNATURE'',
                         log_claim (audit_entry (Some wallet) None ''OPT_OUT_FAILED''
                                      (Some ''INVALID_SIGNATURE'') req (now e)) w))
                else if dbThrows e Agent FindOne then (Err 500 [], w)
                else (case find (wallet_agent_of wallet) (agents w) of
                   None \<Rightarrow> optout_block e req wallet signature None w
                 | Some a \<Rightarrow>
                     if dbThrows e Agent DeleteOne then (Err 500 [], w)
                     else
                       let w1 = w\<lparr>agents := delete_first (\<lambda>x. aid x = aid a) (agents w)\<rparr>;
                           w2 = delete_children e (aid a) w1
                       in if children_delete_throws e then (Err 500 [], w2)
                          else optout_block e req wallet signature (Some a) w2)
            | Some other \<Rightarrow> (Err 400 ''NONCE_MISMATCH'', w))"
  using assms by (simp add: optout_route_def optout_ready_def truthy_def Let_def)

lemma optout_block_fields [simp]:
  "agents (snd (optout_block e req W sg found w)) = agents w"
  "posts (snd (optout_block e req W sg found w)) = posts w"
  "comments (snd (optout_block e req W sg found w)) = comments w"
  "agentMemory (snd (optout_block e req W sg found w)) = agentMemory w"
  "agentPersonality (snd (optout_block e req W sg found w)) = agentPersonality w"
  "watchlist (snd (optout_block e req W sg found w)) = watchlist w"
  "notifications (snd (optout_block e req W sg found w)) = notifications w"
  by (simp_all add: optout_block_def Let_def log_claim_def)

lemma optout_block_refused:
  "dbThrows e WalletOptOuts InsertOne \<or> find (\<lambda>x. ooWallet x = W) (optOuts w) \<noteq> None \<Longrightarrow>
   optout_block e req W sg found w = (Err 500 [], w)"
  by (auto simp: optout_block_def)

lemma optout_block_done:
  "no_faults e \<Longrightarrow> find (\<lambda>x. ooWallet x = W) (optOuts w) = None \<Longrightarrow>
   fst (optout_block e req W sg found w) = OptOutReply W (now e) \<and>
   optOuts (snd (optout_block e req W sg found w)) = optOuts w @
      [\<lparr> ooWallet = W, optedOutAt = now e, ooSignature = sg,
         ooAgentId = map_option aid found, ooAgentName = map_option aName found \<rparr>]"
  by (simp add: optout_block_def no_faults_def Let_def log_claim_def)

lemma delete_children_fields [simp]:
  "agents (delete_children e a w) = agents w"
  "optOuts (delete_children e a w) = optOuts w"
  "cache (delete_children e a w) = cache w"
  by (simp_all add: delete_children_def)

lemma delete_children_clean:
  "\<not> children_delete_throws e \<Longrightarrow>
   posts (delete_children e a w) = filter (\<lambda>x. x \<noteq> a) (posts w) \<and>
   comments (delete_children e a w) = filter (\<lambda>x. x \<noteq> a) (comments w) \<and>
   agentMemory (delete_children e a w) = filter (\<lambda>x. x \<noteq> a) (agentMemory w) \<and>
   agentPersonality (delete_children e a w) = filter (\<lambda>x. x \<noteq> a) (agentPersonality w) \<and>
   watchlist (delete_children e a w) = filter (\<lambda>x. watchedAgent x \<noteq> a) (watchlist w) \<and>
   notifications (delete_children e a w) = filter (\<lambda>x. nAgentId x \<noteq> ObjRef a) (notifications w)"
  by (simp add: delete_children_def children_delete_throws_def)

lemma no_faults_children: "no_faults e \<Longrightarrow> \<not> children_delete_throws e"
  by (simp add: no_faults_def children_delete_throws_def)

lemma optout_nonce_needs_agent:
  assumes "bodyWallet req = Some W" "find (wallet_agent_of W) (agents w) = None"
  shows "snd (optout_nonce_route X e req w) = w \<and>
         (\<forall>n m t x. fst (optout_nonce_route X e req w) \<noteq> NonceReply n m t x)"
  using assms by (simp add: optout_nonce_route_def Let_def)

text \<open>
  C5, as far as it holds by design. For an opt-out request that passes the checks, finds
  its nonce and carries a verifying signature:
  \<^item> when the wallet has an agent, the deletions come before the blocklist record: if the
    deletion of the agent throws, nothing is written; if a later step up to the insertion
    throws or the unique index refuses it, the agent is already gone and the blocklist is
    unchanged; without failures the agent is gone, the documents that the six
    \<^verbatim>\<open>deleteMany\<close> filters match are gone (\<^verbatim>\<open>Post.authorId\<close>, \<^verbatim>\<open>Comment.agent_id\<close>,
    \<^verbatim>\<open>agent_memory.agentId\<close>, \<^verbatim>\<open>agent_personality.agentId\<close>, \<^verbatim>\<open>orphan_watchlist.agentId\<close> and
    \<^verbatim>\<open>wallet_agent_notifications.agentId\<close>, compared with the ObjectId of the agent), the
    documents of other agents are kept, and the blocklist has the new record. Nothing is
    stated about the notifications that hold the id of the agent as a string;
  \<^item> when the wallet has no agent, the handler still inserts the blocklist record;
  \<^item> but \<^verbatim>\<open>/opt-out/nonce\<close> issues no nonce to a wallet without an agent (it answers
    \<^verbatim>\<open>NO_AGENT\<close> and stores nothing), and an opt-out without a stored nonce is answered
    \<^verbatim>\<open>NONCE_EXPIRED\<close>.
\<close>

theorem optout_deletes_then_blocks:
  assumes ready: "optout_ready X e req W sg n"
    and stored: "redis_get (now e) (cache w) (optout_nonce_key W) = Some (RNonce n ts msg)"
    and good: "verifySolanaSignature X W msg sg"
    and found: "\<not> dbThrows e Agent FindOne"
  shows
  "(\<forall>a. find (wallet_agent_of W) (agents w) = Some a \<longrightarrow>
      (dbThrows e Agent DeleteOne \<longrightarrow> optout_route X e req w = (Err 500 [], w)) \<and>
      (\<not> dbThrows e Agent DeleteOne \<and>
         (children_delete_throws e \<or> dbThrows e WalletOptOuts InsertOne \<or>
          find (\<lambda>x. ooWallet x = W) (optOuts w) \<noteq> None) \<longrightarrow>
          fst (optout_route X e req w) = Err 500 [] \<and>
          agents (snd (optout_route X e req w)) = delete_first (\<lambda>x. aid x = aid a) (agents w) \<and>
          optOuts (snd (optout_route X e req w)) = optOuts w) \<and>
      (no_faults e \<and> find (\<lambda>x. ooWallet x = W) (optOuts w) = None \<longrightarrow>
          fst (optout_route X e req w) = OptOutReply W (now e) \<and>
          agents (snd (optout_route X e req w)) = delete_first (\<lambda>x. aid x = aid a) (agents w) \<and>
          posts (snd (optout_route X e req w)) = filter (\<lambda>x. x \<noteq> aid a) (posts w) \<and>
          comments (snd (optout_route X e req w)) = filter (\<lambda>x. x \<noteq> aid a) (comments w) \<and>
          agentMemory (snd (optout_route X e req w)) = filter (\<lambda>x. x \<noteq> aid a) (agentMemory w) \<and>
          agentPersonality (snd (optout_route X e req w))
             = filter (\<lambda>x. x \<noteq> aid a) (agentPersonality w) \<and>
          watchlist (snd (optout_route X e req w))
             = filter (\<lambda>x. watchedAgent x \<noteq> aid a) (watchlist w) \<and>
          (\<forall>x\<in>set (notifications (snd (optout_route X e req w))).
              nAgentId x \<noteq> ObjRef (aid a)) \<and>
          filter (\<lambda>x. nAgentId x \<noteq> ObjRef (aid a) \<and> nAgentId x \<noteq> StrRef (aid a))
              (notifications (snd (optout_route X e req w)))
            = filter (\<lambda>x. nAgentId x \<noteq> ObjRef (aid a) \<and> nAgentId x \<noteq> StrRef (aid a))
                (notifications w) \<and>
          optOuts (snd (optout_route X e req w)) = optOuts w @
             [\<lparr> ooWallet = W, optedOutAt = now e, ooSignature = sg,
                ooAgentId = Some (aid a), ooAgentName = Some (aName a) \<rparr>])) \<and>
   (find (wallet_agent_of W) (agents w) = None \<and> no_faults e \<and>
      find (\<lambda>x. ooWallet x = W) (optOuts w) = None \<longrightarrow>
        fst (optout_route X e req w) = OptOutReply W (now e) \<and>
        agents (snd (optout_route X e req w)) = agents w \<and>
        optOuts (snd (optout_route X e req w)) = optOuts w @
           [\<lparr> ooWallet = W, optedOutAt = now e, ooSignature = sg,
              ooAgentId = None, ooAgentName = None \<rparr>]) \<and>
   (\<forall>e' req' w'. bodyWallet req' = Some W \<and> find (wallet_agent_of W) (agents w') = None \<longrightarrow>
        snd (optout_nonce_route X e' req' w') = w' \<and>
        (\<forall>n' m t x. fst (optout_nonce_route X e' req' w') \<noteq> NonceReply n' m t x)) \<and>
   (\<forall>w'. redis_get (now e) (cache w') (optout_nonce_key W) = None \<longrightarrow>
        optout_route X e req w' = (Err 400 ''NONCE_EXPIRED'', w'))"
proof (intro conjI allI impI)
  fix a
  assume a: "find (wallet_agent_of W) (agents w) = Some a"
  let ?w1 = "w\<lparr>agents := delete_first (\<lambda>x. aid x = aid a) (agents w)\<rparr>"
  let ?w2 = "delete_children e (aid a) ?w1"
  have route: "optout_route X e req w =
      (if dbThrows e Agent DeleteOne then (Err 500 [], w)
       else if children_delete_throws e then (Err 500 [], ?w2)
       else optout_block e req W sg (Some a) ?w2)"
    unfolding optout_route_ready [OF ready] stored using good found a by (simp add: Let_def)
  show "optout_route X e req w = (Err 500 [], w)" if "dbThrows e Agent DeleteOne"
    unfolding route using that by simp
  {
    assume h: "\<not> dbThrows e Agent DeleteOne \<and>
         (children_delete_throws e \<or> dbThrows e WalletOptOuts InsertOne \<or>
          find (\<lambda>x. ooWallet x = W) (optOuts w) \<noteq> None)"
    have blk: "optout_block e req W sg (Some a) ?w2 = (Err 500 [], ?w2)"
      if "\<not> children_delete_throws e"
      using h that by (intro optout_block_refused) auto
    have r: "optout_route X e req w = (Err 500 [], ?w2)"
      unfolding route using h blk by auto
    show "fst (optout_route X e req w) = Err 500 []" unfolding r by simp
    show "agents (snd (optout_route X e req w)) = delete_first (\<lambda>x. aid x = aid a) (agents w)"
      unfolding r by simp
    show "optOuts (snd (optout_route X e req w)) = optOuts w" unfolding r by simp
  }
  {
    assume h: "no_faults e \<and> find (\<lambda>x. ooWallet x = W) (optOuts w) = None"
    then have nf: "no_faults e" and fresh: "find (\<lambda>x. ooWallet x = W) (optOuts ?w2) = None"
      by simp_all
    have r: "optout_route X e req w = optout_block e req W sg (Some a) ?w2"
      unfolding route using nf no_faults_children [OF nf] by (simp add: no_faults_def)
    note fin = optout_block_done [OF nf fresh, of req sg "Some a"]
    note clean = delete_children_clean [OF no_faults_children [OF nf], of "aid a" ?w1]
    show "fst (optout_route X e req w) = OptOutReply W (now e)" unfolding r using fin by simp
    show "agents (snd (optout_route X e req w)) = delete_first (\<lambda>x. aid x = aid a) (agents w)"
      unfolding r by simp
    show "posts (snd (optout_route X e req w)) = filter (\<lambda>x. x \<noteq> aid a) (posts w)"
      unfolding r using clean by simp
    show "comments (snd (optout_route X e req w)) = filter (\<lambda>x. x \<noteq> aid a) (comments w)"
      unfolding r using clean by simp
    show "agentMemory (snd (optout_route X e req w)) = filter (\<lambda>x. x \<noteq> aid a) (agentMemory w)"
      unfolding r using clean by simp
    show "agentPersonality (snd (optout_route X e req w))
             = filter (\<lambda>x. x \<noteq> aid a) (agentPersonality w)"
      unfolding r using clean by simp
    show "watchlist (snd (optout_route X e req w))
             = filter (\<lambda>x. watchedAgent x \<noteq> aid a) (watchlist w)"
      unfolding r using clean by simp
    have left: "notifications (snd (optout_route X e req w))
             = filter (\<lambda>x. nAgentId x \<noteq> ObjRef (aid a)) (notifications w)"
      unfolding r using clean by simp
    show "\<forall>x\<in>set (notifications (snd (optout_route X e req w))). nAgentId x \<noteq> ObjRef (aid a)"
      unfolding left by simp
    show "filter (\<lambda>x. nAgentId x \<noteq> ObjRef (aid a) \<and> nAgentId x \<noteq> StrRef (aid a))
              (notifications (snd (optout_route X e req w)))
            = filter (\<lambda>x. nAgentId x \<noteq> ObjRef (aid a) \<and> nAgentId x \<noteq> StrRef (aid a))
                (notifications w)"
      unfolding left by (simp add: conj_commute)
    show "optOuts (snd (optout_route X e req w)) = optOuts w @
             [\<lparr> ooWallet = W, optedOutAt = now e, ooSignature = sg,
                ooAgentId = Some (aid a), ooAgentName = Some (aName a) \<rparr>]"
      unfolding r using fin by simp
  }
next
  assume h: "find (wallet_agent_of W) (agents w) = None \<and> no_faults e \<and>
      find (\<lambda>x. ooWallet x = W) (optOuts w) = None"
  have r: "optout_route X e req w = optout_block e req W sg None w"
    unfolding optout_route_ready [OF ready] stored using good found h by simp
  from h have nf: "no_faults e" and fresh: "find (\<lambda>x. ooWallet x = W) (optOuts w) = None"
    by simp_all
  note fin = optout_block_done [OF nf fresh, of req sg None]
  show "fst (optout_route X e req w) = OptOutReply W (now e)" unfolding r using fin by simp
  show "agents (snd (optout_route X e req w)) = agents w" unfolding r by simp
  show "optOuts (snd (optout_route X e req w)) = optOuts w @
           [\<lparr> ooWallet = W, optedOutAt = now e, ooSignature = sg,
              ooAgentId = None, ooAgentName = None \<rparr>]"
    unfolding r using fin by simp
next
  fix e' :: env and req' :: request and w' :: world
  assume "bodyWallet req' = Some W \<and> find (wallet_agent_of W) (agents w') = None"
  then show "snd (optout_nonce_route X e' req' w') = w'"
    using optout_nonce_needs_agent [of req' W w' X e'] by simp
next
  fix e' :: env and req' :: request and w' :: world and n' m t x
  assume "bodyWallet req' = Some W \<and> find (wallet_agent_of W) (agents w') = None"
  then show "fst (optout_nonce_route X e' req' w') \<noteq> NonceReply n' m t x"
    using optout_nonce_needs_agent [of req' W w' X e'] by simp
next
  fix w' :: world
  assume "redis_get (now e) (cache w') (optout_nonce_key W) = None"
  then show "optout_route X e req w' = (Err 400 ''NONCE_EXPIRED'', w')"
    unfolding optout_route_ready [OF ready] by simp
qed

lemma optout_demo_ready:
  "dbUp e \<Longrightarrow> redisUp e \<Longrightarrow> \<not> redisThrows e GET \<Longrightarrow>
   optout_ready demo_ext e (optout_request zero_signature ''5f2a'') demo_wallet zero_signature ''5f2a''"
  using demo_wallet_valid
  by (simp add: optout_ready_def optout_request_def demo_wallet_def zero_signature_def)

lemma optout_world_nonce:
  "redis_get 2000 (cache optout_world) (optout_nonce_key demo_wallet)
     = Some (RNonce ''5f2a'' ''2026-02-06T12:00:00.000Z'' optout_message)"
  by (simp add: optout_world_def redis_get_def redis_live_def redis_set_ex_def)

lemma optout_world_agent: "find (wallet_agent_of demo_wallet) (agents optout_world) = Some demo_agent"
  by (simp add: optout_world_def demo_world_def wallet_agent_of_def demo_agent_def)

theorem optout_deletes_then_blocks_witness:
  "fst (optout_route demo_ext (quiet_env 2000) (optout_request zero_signature ''5f2a'') optout_world)
     = OptOutReply demo_wallet 2000 \<and>
   agents (snd (optout_route demo_ext (quiet_env 2000)
                  (optout_request zero_signature ''5f2a'') optout_world)) = [] \<and>
   posts (snd (optout_route demo_ext (quiet_env 2000)
                  (optout_request zero_signature ''5f2a'') optout_world)) = [''other''] \<and>
   map ooWallet (optOuts (snd (optout_route demo_ext (quiet_env 2000)
                  (optout_request zero_signature ''5f2a'') optout_world))) = [demo_wallet] \<and>
   fst (optout_route demo_ext (blocklist_down (quiet_env 2000))
          (optout_request zero_signature ''5f2a'') optout_world) = Err 500 [] \<and>
   agents (snd (optout_route demo_ext (blocklist_down (quiet_env 2000))
                  (optout_request zero_signature ''5f2a'') optout_world)) = [] \<and>
   optOuts (snd (optout_route demo_ext (blocklist_down (quiet_env 2000))
                  (optout_request zero_signature ''5f2a'') optout_world)) = []"
proof -
  have q: "now (quiet_env 2000) = 2000" "now (blocklist_down (quiet_env 2000)) = 2000"
    "\<not> dbThrows (quiet_env 2000) Agent FindOne"
    "\<not> dbThrows (blocklist_down (quiet_env 2000)) Agent FindOne"
    "\<not> dbThrows (blocklist_down (quiet_env 2000)) Agent DeleteOne"
    "dbThrows (blocklist_down (quiet_env 2000)) WalletOptOuts InsertOne"
    by (simp_all add: quiet_env_def blocklist_down_def)
  have r1: "optout_ready demo_ext (quiet_env 2000) (optout_request zero_signature ''5f2a'')
              demo_wallet zero_signature ''5f2a''"
    by (rule optout_demo_ready) (simp_all add: quiet_env_def)
  have r2: "optout_ready demo_ext (blocklist_down (quiet_env 2000))
              (optout_request zero_signature ''5f2a'') demo_wallet zero_signature ''5f2a''"
    by (rule optout_demo_ready) (simp_all add: quiet_env_def blocklist_down_def)
  have fresh: "find (\<lambda>x. ooWallet x = demo_wallet) (optOuts optout_world) = None"
    by (simp add: optout_world_def demo_world_def)
  have data: "agents optout_world = [demo_agent]" "posts optout_world = [demo_agent_id, ''other'', demo_agent_id]"
    "optOuts optout_world = []" "aid demo_agent = demo_agent_id" "''other'' \<noteq> demo_agent_id"
    by (simp_all add: optout_world_def demo_world_def demo_agent_def demo_agent_id_def)
  have n1: "redis_get (now (quiet_env 2000)) (cache optout_world) (optout_nonce_key demo_wallet)
     = Some (RNonce ''5f2a'' ''2026-02-06T12:00:00.000Z'' optout_message)"
    unfolding q(1) by (rule optout_world_nonce)
  have n2: "redis_get (now (blocklist_down (quiet_env 2000))) (cache optout_world)
       (optout_nonce_key demo_wallet)
     = Some (RNonce ''5f2a'' ''2026-02-06T12:00:00.000Z'' optout_message)"
    unfolding q(2) by (rule optout_world_nonce)
  note ok = optout_deletes_then_blocks [OF r1 n1 zero_signature_verifies q(3)]
  note down = optout_deletes_then_blocks [OF r2 n2 zero_signature_verifies q(4)]
  from ok optout_world_agent quiet_no_faults [of 2000] fresh
  have a: "fst (optout_route demo_ext (quiet_env 2000) (optout_request zero_signature ''5f2a'') optout_world)
     = OptOutReply demo_wallet 2000 \<and>
   agents (snd (optout_route demo_ext (quiet_env 2000)
                  (optout_request zero_signature ''5f2a'') optout_world)) = [] \<and>
   posts (snd (optout_route demo_ext (quiet_env 2000)
                  (optout_request zero_signature ''5f2a'') optout_world)) = [''other''] \<and>
   map ooWallet (optOuts (snd (optout_route demo_ext (quiet_env 2000)
                  (optout_request zero_signature ''5f2a'') optout_world))) = [demo_wallet]"
    by (simp add: q data)
  from down optout_world_agent q(5) q(6)
  have b: "fst (optout_route demo_ext (blocklist_down (quiet_env 2000))
          (optout_request zero_signature ''5f2a'') optout_world) = Err 500 [] \<and>
   agents (snd (optout_route demo_ext (blocklist_down (quiet_env 2000))
                  (optout_request zero_signature ''5f2a'') optout_world)) = [] \<and>
   optOuts (snd (optout_route demo_ext (blocklist_down (quiet_env 2000))
                  (optout_request zero_signature ''5f2a'') optout_world)) = []"
    by (simp add: data)
  show ?thesis using a b by blast
qed

text \<open>
  C5 as stated fails twice. A wallet without an agent is refused the opt-out nonce, and
  its opt-out request is then refused for want of a nonce. And after an opt-out answered
  with success, the reminders that the notification job recorded for the agent (with the
  id of the agent as a string) are still in \<^verbatim>\<open>wallet_agent_notifications\<close>.
\<close>

theorem optout_without_agent_refused:
  "optout_nonce_route demo_ext (quiet_env 1000) (optout_request zero_signature ''5f2a'') empty_world
     = (Err 404 ''NO_AGENT'', empty_world) \<and>
   optout_route demo_ext (quiet_env 2000) (optout_request zero_signature ''5f2a'') empty_world
     = (Err 400 ''NONCE_EXPIRED'', empty_world) \<and>
   getSentNotifications reminded_optout_world demo_agent_id = map Some six_templates \<and>
   fst (optout_route demo_ext (quiet_env 2000) (optout_request zero_signature ''5f2a'')
          reminded_optout_world) = OptOutReply demo_wallet 2000 \<and>
   agents (snd (optout_route demo_ext (quiet_env 2000) (optout_request zero_signature ''5f2a'')
          reminded_optout_world)) = [] \<and>
   getSentNotifications
     (snd (optout_route demo_ext (quiet_env 2000) (optout_request zero_signature ''5f2a'')
          reminded_optout_world)) demo_agent_id = map Some six_templates"
proof -
  have r: "optout_ready demo_ext (quiet_env 2000) (optout_request zero_signature ''5f2a'')
              demo_wallet zero_signature ''5f2a''"
    by (rule optout_demo_ready) (simp_all add: quiet_env_def)
  have "optout_nonce_route demo_ext (quiet_env 1000) (optout_request zero_signature ''5f2a'') empty_world
     = (Err 404 ''NO_AGENT'', empty_world)"
    using demo_wallet_valid
    by (simp add: optout_nonce_route_def optout_request_def truthy_def quiet_env_def Let_def
        empty_world_def demo_world_def demo_wallet_def)
  moreover have "optout_route demo_ext (quiet_env 2000) (optout_request zero_signature ''5f2a'') empty_world
     = (Err 400 ''NONCE_EXPIRED'', empty_world)"
    unfolding optout_route_ready [OF r]
    by (simp add: empty_world_def demo_world_def redis_get_def redis_live_def)
  moreover have "getSentNotifications reminded_optout_world demo_agent_id = map Some six_templates \<and>
   fst (optout_route demo_ext (quiet_env 2000) (optout_request zero_signature ''5f2a'')
          reminded_optout_world) = OptOutReply demo_wallet 2000 \<and>
   agents (snd (optout_route demo_ext (quiet_env 2000) (optout_request zero_signature ''5f2a'')
          reminded_optout_world)) = [] \<and>
   getSentNotifications
     (snd (optout_route demo_ext (quiet_env 2000) (optout_request zero_signature ''5f2a'')
          reminded_optout_world)) demo_agent_id = map Some six_templates"
    by code_simp
  ultimately show ?thesis by simp
qed

subsection \<open>The orphan job\<close>

lemma map_if_absent: "a \<notin> set ys \<Longrightarrow> map (\<lambda>x. if x = a then f x else x) ys = ys"
  by (induction ys) auto

lemma update_first_unique:
  "distinct xs \<Longrightarrow> Q a \<Longrightarrow> (\<forall>x\<in>set xs. Q x \<longrightarrow> x = a) \<Longrightarrow>
   update_first Q f xs = map (\<lambda>x. if x = a then f x else x) xs"
proof (induction xs)
  case Nil
  then show ?case by simp
next
  case (Cons y ys)
  have ih: "update_first Q f ys = map (\<lambda>x. if x = a then f x else x) ys"
    using Cons.prems by (intro Cons.IH) simp_all
  show ?case
  proof (cases "Q y")
    case True
    then have ya: "y = a" using Cons.prems(3) by simp
    then have "a \<notin> set ys" using Cons.prems(1) by simp
    then have "map (\<lambda>x. if x = a then f x else x) ys = ys" by (rule map_if_absent)
    then show ?thesis using True ya by simp
  next
    case False
    then have "y \<noteq> a" using Cons.prems(2) by auto
    then show ?thesis using False ih by simp
  qed
qed

lemma same_id_same_doc:
  "distinct (map aid xs) \<Longrightarrow> x \<in> set xs \<Longrightarrow> a \<in> set xs \<Longrightarrow> aid x = aid a \<Longrightarrow> x = a"
proof -
  assume "distinct (map aid xs)"
  then have "inj_on aid (set xs)" by (simp add: distinct_map)
  moreover assume "x \<in> set xs" "a \<in> set xs" "aid x = aid a"
  ultimately show "x = a" by (simp add: inj_on_def)
qed

lemma notify_watcher_frame:
  "agents (snd (notify_watcher e a x (s, w))) = agents w \<and>
   transitioned (fst (notify_watcher e a x (s, w))) = transitioned s"
  by (simp add: notify_watcher_def Let_def)

lemma notify_fold_frame:
  "agents (snd (foldl (\<lambda>acc x. notify_watcher e a x acc) (s, w) ws)) = agents w \<and>
   transitioned (fst (foldl (\<lambda>acc x. notify_watcher e a x acc) (s, w) ws)) = transitioned s"
proof (induction ws arbitrary: s w)
  case Nil
  then show ?case by simp
next
  case (Cons x xs)
  obtain s' w' where st: "notify_watcher e a x (s, w) = (s', w')"
    by (cases "notify_watcher e a x (s, w)")
  have "agents w' = agents w" "transitioned s' = transitioned s"
    using notify_watcher_frame [of e a x s w] st by simp_all
  then show ?case using Cons.IH [of s' w'] st by simp
qed

lemma orphan_agent_step:
  assumes d: "distinct (map aid (agents w))"
    and nf: "\<not> dbThrows e Agent UpdateOne"
    and a: "a \<in> set (agents w)" "claimStatus a = Some ''UNCLAIMED''"
  shows "agents (snd (orphan_agent e a (s, w)))
           = map (\<lambda>x. if x = a then set_orphaned (now e) x else x) (agents w) \<and>
         transitioned (fst (orphan_agent e a (s, w))) = transitioned s + 1"
proof -
  let ?Q = "\<lambda>x. aid x = aid a \<and> claimStatus x = Some ''UNCLAIMED''"
  have uniq: "\<forall>x\<in>set (agents w). ?Q x \<longrightarrow> x = a"
    using same_id_same_doc [OF d _ a(1)] by blast
  have dx: "distinct (agents w)" using d by (simp add: distinct_map)
  have upd: "update_first ?Q (set_orphaned (now e)) (agents w)
      = map (\<lambda>x. if x = a then set_orphaned (now e) x else x) (agents w)"
    by (rule update_first_unique [OF dx _ uniq]) (simp add: a)
  obtain hit where hit: "find ?Q (agents w) = Some hit"
    using a by (cases "find ?Q (agents w)") (auto simp: find_None_iff)
  have route: "orphan_agent e a (s, w) =
      (let w1 = w\<lparr>agents := map (\<lambda>x. if x = a then set_orphaned (now e) x else x) (agents w)\<rparr>;
           s1 = s\<lparr>transitioned := transitioned s + 1\<rparr>
       in if dbThrows e WalletAgentClaims InsertOne
            then (s1\<lparr>errors := errors s1 @ [TransitionFailed (aid a)]\<rparr>, w1)
          else
            let w2 = log_claim
                  \<lparr> auWallet = sourceWallet a, auAgentId = Some (aid a), auUserId = None,
                    auAction = ''ORPHANED'', auResult = Some ''CLAIM_DEADLINE_EXPIRED'',
                    auFoundingRank = None, auIp = None, auTimestamp = now e \<rparr> w1
            in if dbThrows e OrphanWatchlist Find
                 then (s1\<lparr>errors := errors s1 @ [TransitionFailed (aid a)]\<rparr>, w2)
               else foldl (\<lambda>acc x. notify_watcher e a x acc) (s1, w2)
                      (filter (\<lambda>x. watchedAgent x = aid a \<and> \<not> notified x) (watchlist w2)))"
    using nf hit by (simp add: orphan_agent_def upd)
  show ?thesis
    unfolding route Let_def
    by (simp add: notify_fold_frame log_claim_def)
qed


lemma set_orphaned_aid [simp]: "aid (set_orphaned t a) = aid a"
  by (simp add: set_orphaned_def)

lemma set_orphaned_status [simp]: "claimStatus (set_orphaned t a) = Some ''ORPHANED''"
  by (simp add: set_orphaned_def)

lemma orphan_fold:
  assumes nf: "\<not> dbThrows e Agent UpdateOne"
  shows "distinct (map aid (agents w)) \<Longrightarrow> distinct (map aid xs) \<Longrightarrow>
     (\<forall>a\<in>set xs. a \<in> set (agents w) \<and> claimStatus a = Some ''UNCLAIMED'') \<Longrightarrow>
     agents (snd (foldl (\<lambda>acc a. orphan_agent e a acc) (s, w) xs))
        = map (\<lambda>x. if x \<in> set xs then set_orphaned (now e) x else x) (agents w) \<and>
     transitioned (fst (foldl (\<lambda>acc a. orphan_agent e a acc) (s, w) xs))
        = transitioned s + length xs"
proof (induction xs arbitrary: s w)
  case Nil
  then show ?case by simp
next
  case (Cons a xs)
  obtain s' w' where st: "orphan_agent e a (s, w) = (s', w')"
    by (cases "orphan_agent e a (s, w)")
  have a: "a \<in> set (agents w)" "claimStatus a = Some ''UNCLAIMED''"
    using Cons.prems(3) by simp_all
  have step: "agents w' = map (\<lambda>x. if x = a then set_orphaned (now e) x else x) (agents w)"
    "transitioned s' = transitioned s + 1"
    using orphan_agent_step [OF Cons.prems(1) nf a, of s] st by simp_all
  have ids: "map aid (agents w') = map aid (agents w)"
    unfolding step(1) by (simp add: comp_def cong: map_cong)
  have d': "distinct (map aid (agents w'))" using Cons.prems(1) ids by simp
  have dxs: "distinct (map aid xs)" "aid a \<notin> aid ` set xs" using Cons.prems(2) by simp_all
  have rest: "\<forall>b\<in>set xs. b \<in> set (agents w') \<and> claimStatus b = Some ''UNCLAIMED''"
  proof
    fix b assume b: "b \<in> set xs"
    then have "b \<noteq> a" using dxs(2) by auto
    moreover have "b \<in> set (agents w)" "claimStatus b = Some ''UNCLAIMED''"
      using Cons.prems(3) b by simp_all
    ultimately show "b \<in> set (agents w') \<and> claimStatus b = Some ''UNCLAIMED''"
      unfolding step(1) by (auto simp: image_iff)
  qed
  have ih: "agents (snd (foldl (\<lambda>acc a. orphan_agent e a acc) (s', w') xs))
        = map (\<lambda>x. if x \<in> set xs then set_orphaned (now e) x else x) (agents w') \<and>
     transitioned (fst (foldl (\<lambda>acc a. orphan_agent e a acc) (s', w') xs))
        = transitioned s' + length xs"
    by (rule Cons.IH [OF d' dxs(1) rest])
  have notin: "set_orphaned (now e) a \<notin> set xs"
  proof
    assume "set_orphaned (now e) a \<in> set xs"
    then have "claimStatus (set_orphaned (now e) a) = Some ''UNCLAIMED''"
      using Cons.prems(3) by auto
    then show False by simp
  qed
  have compose: "map (\<lambda>x. if x \<in> set xs then set_orphaned (now e) x else x) (agents w')
      = map (\<lambda>x. if x \<in> set (a # xs) then set_orphaned (now e) x else x) (agents w)"
    unfolding step(1) using notin by (auto simp: comp_def)
  show ?case using ih step(2) compose st by simp
qed

lemma orphaned_not_expired [simp]: "\<not> expired_unclaimed t (set_orphaned t' a)"
  by (simp add: expired_unclaimed_def)

lemma no_expired_no_change:
  assumes "filter (expired_unclaimed (now e)) (agents w) = []"
  shows "transitioned (fst (processOrphanTransitions e w)) = 0 \<and>
         notifiedCount (fst (processOrphanTransitions e w)) = 0 \<and>
         snd (processOrphanTransitions e w) = w"
  using assms by (simp add: processOrphanTransitions_def Let_def)

lemma first_run:
  assumes d: "distinct (map aid (agents w))"
    and nf: "\<not> dbThrows e Agent Find" "\<not> dbThrows e Agent UpdateOne"
  shows "transitioned (fst (processOrphanTransitions e w))
           = length (filter (expired_unclaimed (now e)) (agents w)) \<and>
         agents (snd (processOrphanTransitions e w))
           = map (\<lambda>a. if expired_unclaimed (now e) a then set_orphaned (now e) a else a) (agents w)"
proof -
  let ?xs = "filter (expired_unclaimed (now e)) (agents w)"
  let ?s0 = "\<lparr>processed = length ?xs, transitioned = 0, notifiedCount = 0, errors = []\<rparr>"
  have same: "map (\<lambda>x. if x \<in> set ?xs then set_orphaned (now e) x else x) (agents w)
      = map (\<lambda>a. if expired_unclaimed (now e) a then set_orphaned (now e) a else a) (agents w)"
    by (rule map_cong) auto
  show ?thesis
  proof (cases "?xs = []")
    case True
    then have none: "\<forall>a\<in>set (agents w). \<not> expired_unclaimed (now e) a"
      by (simp add: filter_empty_conv)
    have "map (\<lambda>a. if expired_unclaimed (now e) a then set_orphaned (now e) a else a) (agents w)
        = agents w"
      using none by (induction "agents w") (auto simp: map_idI)
    then show ?thesis using True nf by (simp add: processOrphanTransitions_def Let_def)
  next
    case False
    have run: "processOrphanTransitions e w = foldl (\<lambda>acc a. orphan_agent e a acc) (?s0, w) ?xs"
      using False nf by (simp add: processOrphanTransitions_def Let_def)
    have dxs: "distinct (map aid ?xs)" using d by (rule distinct_map_filter)
    have each: "\<forall>a\<in>set ?xs. a \<in> set (agents w) \<and> claimStatus a = Some ''UNCLAIMED''"
      by (simp add: expired_unclaimed_def)
    from orphan_fold [OF nf(2) d dxs each, of ?s0] show ?thesis
      unfolding run same by simp
  qed
qed

lemma update_first_hits:
  "x \<in> set ws \<Longrightarrow> P x \<Longrightarrow> (\<forall>y. P y \<longrightarrow> R (f y)) \<Longrightarrow> \<exists>y\<in>set (update_first P f ws). R y"
proof (induction ws)
  case Nil
  then show ?case by simp
next
  case (Cons z zs)
  then show ?case by (cases "P z") auto
qed

lemma notify_watcher_flips:
  assumes nf: "no_faults e" and x: "x \<in> set (watchlist w)"
  shows "notifications (snd (notify_watcher e a x (s, w)))
           = notifications w @ [orphan_note (now e) a x] \<and>
         notifiedCount (fst (notify_watcher e a x (s, w))) = notifiedCount s + 1 \<and>
         (\<exists>y\<in>set (watchlist (snd (notify_watcher e a x (s, w)))). wid y = wid x \<and> notified y)"
proof -
  have "\<exists>y\<in>set (update_first (\<lambda>y. wid y = wid x)
                    (\<lambda>y. y\<lparr>notified := True, notifiedAt := Some (now e)\<rparr>) (watchlist w)).
           wid y = wid x \<and> notified y"
    by (rule update_first_hits [OF x]) simp_all
  then show ?thesis
    using nf by (simp add: notify_watcher_def Let_def no_faults_def)
qed

text \<open>
  C7. With unique agent ids and a first run whose agent query and agent update do not
  throw, the first run transitions every wallet agent that is UNCLAIMED with its deadline
  reached, each once, and nothing else; a second run, made when no further agent has
  reached its deadline, transitions no agent, notifies no watcher and leaves the stores
  exactly as the first run left them, so it adds no notification. Where a watcher is
  notified, its notification is appended, the counter goes up by one and its
  \<^verbatim>\<open>notified\<close> flag is set, which takes it out of the watcher query.
\<close>

theorem orphan_job_rerun_is_idle:
  assumes d: "distinct (map aid (agents w))"
    and nf: "\<not> dbThrows e1 Agent Find" "\<not> dbThrows e1 Agent UpdateOne"
    and time: "\<forall>a\<in>set (agents w). expired_unclaimed (now e2) a \<longrightarrow> expired_unclaimed (now e1) a"
  shows "transitioned (fst (processOrphanTransitions e1 w))
           = length (filter (expired_unclaimed (now e1)) (agents w)) \<and>
     agents (snd (processOrphanTransitions e1 w))
           = map (\<lambda>a. if expired_unclaimed (now e1) a then set_orphaned (now e1) a else a)
               (agents w) \<and>
     transitioned (fst (processOrphanTransitions e2 (snd (processOrphanTransitions e1 w)))) = 0 \<and>
     notifiedCount (fst (processOrphanTransitions e2 (snd (processOrphanTransitions e1 w)))) = 0 \<and>
     snd (processOrphanTransitions e2 (snd (processOrphanTransitions e1 w)))
           = snd (processOrphanTransitions e1 w) \<and>
     (\<forall>a x s w'. no_faults e1 \<and> x \<in> set (watchlist w') \<longrightarrow>
        notifications (snd (notify_watcher e1 a x (s, w')))
           = notifications w' @ [orphan_note (now e1) a x] \<and>
        notifiedCount (fst (notify_watcher e1 a x (s, w'))) = notifiedCount s + 1 \<and>
        (\<exists>y\<in>set (watchlist (snd (notify_watcher e1 a x (s, w')))). wid y = wid x \<and> notified y))"
proof -
  let ?w1 = "snd (processOrphanTransitions e1 w)"
  note one = first_run [OF d nf]
  have "\<forall>x\<in>set (agents ?w1). \<not> expired_unclaimed (now e2) x"
  proof
    fix x assume "x \<in> set (agents ?w1)"
    then obtain a where a: "a \<in> set (agents w)"
      and x: "x = (if expired_unclaimed (now e1) a then set_orphaned (now e1) a else a)"
      using one by auto
    show "\<not> expired_unclaimed (now e2) x"
      using a x time by (cases "expired_unclaimed (now e1) a") auto
  qed
  then have "filter (expired_unclaimed (now e2)) (agents ?w1) = []"
    by (simp add: filter_empty_conv)
  from no_expired_no_change [OF this] one notify_watcher_flips [of e1] show ?thesis by simp
qed

lemma watched_run:
  "processOrphanTransitions (quiet_env 2600000000) watched_world =
     (\<lparr>processed = 1, transitioned = 1, notifiedCount = 1, errors = []\<rparr>,
      watched_world\<lparr>
        agents := [set_orphaned 2600000000 demo_agent],
        watchlist := [\<lparr> wid = ''w1'', watcherUser = ''u9'', watchedAgent = demo_agent_id,
                        notified = True, notifiedAt = Some 2600000000 \<rparr>],
        notifications := [orphan_note 2600000000 demo_agent
                           \<lparr> wid = ''w1'', watcherUser = ''u9'', watchedAgent = demo_agent_id,
                             notified = False, notifiedAt = None \<rparr>],
        claimsLog := [\<lparr> auWallet = Some demo_wallet, auAgentId = Some demo_agent_id,
                         auUserId = None, auAction = ''ORPHANED'',
                         auResult = Some ''CLAIM_DEADLINE_EXPIRED'', auFoundingRank = None,
                         auIp = None, auTimestamp = 2600000000 \<rparr>]\<rparr>)"
  by (simp add: processOrphanTransitions_def Let_def quiet_env_def watched_world_def demo_world_def
      demo_agent_def expired_unclaimed_def orphan_agent_def notify_watcher_def log_claim_def)

theorem orphan_job_rerun_is_idle_witness:
  "distinct (map aid (agents watched_world)) \<and>
   transitioned (fst (processOrphanTransitions (quiet_env 2600000000) watched_world)) = 1 \<and>
   notifiedCount (fst (processOrphanTransitions (quiet_env 2600000000) watched_world)) = 1 \<and>
   transitioned (fst (processOrphanTransitions (quiet_env 2603600000)
      (snd (processOrphanTransitions (quiet_env 2600000000) watched_world)))) = 0 \<and>
   notifiedCount (fst (processOrphanTransitions (quiet_env 2603600000)
      (snd (processOrphanTransitions (quiet_env 2600000000) watched_world)))) = 0 \<and>
   snd (processOrphanTransitions (quiet_env 2603600000)
      (snd (processOrphanTransitions (quiet_env 2600000000) watched_world)))
     = snd (processOrphanTransitions (quiet_env 2600000000) watched_world)"
proof -
  have d: "distinct (map aid (agents watched_world))"
    by (simp add: watched_world_def demo_world_def)
  have nf: "\<not> dbThrows (quiet_env 2600000000) Agent Find"
    "\<not> dbThrows (quiet_env 2600000000) Agent UpdateOne"
    by (simp_all add: quiet_env_def)
  have time: "\<forall>a\<in>set (agents watched_world).
      expired_unclaimed (now (quiet_env 2603600000)) a \<longrightarrow>
      expired_unclaimed (now (quiet_env 2600000000)) a"
    by (simp add: watched_world_def demo_world_def quiet_env_def expired_unclaimed_def demo_agent_def)
  have first: "transitioned (fst (processOrphanTransitions (quiet_env 2600000000) watched_world)) = 1"
    "notifiedCount (fst (processOrphanTransitions (quiet_env 2600000000) watched_world)) = 1"
    by (simp_all add: watched_run)
  from orphan_job_rerun_is_idle [OF d nf time]
  have "transitioned (fst (processOrphanTransitions (quiet_env 2603600000)
      (snd (processOrphanTransitions (quiet_env 2600000000) watched_world)))) = 0 \<and>
   notifiedCount (fst (processOrphanTransitions (quiet_env 2603600000)
      (snd (processOrphanTransitions (quiet_env 2600000000) watched_world)))) = 0 \<and>
   snd (processOrphanTransitions (quiet_env 2603600000)
      (snd (processOrphanTransitions (quiet_env 2600000000) watched_world)))
     = snd (processOrphanTransitions (quiet_env 2600000000) watched_world)"
    by blast
  with d first show ?thesis by blast
qed

subsection \<open>The notification job\<close>














lemma calls_for_fresh [simp]: "calls_for i (memoCalls fresh_loop) = []"
  by (simp add: calls_for_def fresh_loop_def)





lemma newcomer_fields [simp]:
  "aid (newcomer k) = replicate (Suc k) (CHR ''b'')"
  "createdAt (newcomer k) = Some 0"
  "unclaimed_agent (newcomer k)"
  by (simp_all add: newcomer_def demo_agent_def unclaimed_agent_def)

lemma demo_agent_fields [simp]:
  "aid demo_agent = demo_agent_id" "createdAt demo_agent = Some 0" "unclaimed_agent demo_agent"
  by (simp_all add: demo_agent_def unclaimed_agent_def)

lemma newcomer_not_demo [simp]: "CHR ''b'' # s \<noteq> demo_agent_id"
  by (simp add: demo_agent_id_def)








subsection \<open>Concurrent claims\<close>



lemma set_claimed_fields [simp]:
  "aid (set_claimed t wl sg n a) = aid a"
  "claimStatus (set_claimed t wl sg n a) = Some ''CLAIMED''"
  by (simp_all add: set_claimed_def)




lemma unclaimed_ids_agents: "agents w' = agents w \<Longrightarrow> unclaimed_ids w' = unclaimed_ids w"
  by (simp add: unclaimed_ids_def)

lemma unclaimed_ids_simps [simp]:
  "unclaimed_ids (w\<lparr>cache := r\<rparr>) = unclaimed_ids w"
  "unclaimed_ids (w\<lparr>users := us\<rparr>) = unclaimed_ids w"
  "unclaimed_ids (log_claim en w) = unclaimed_ids w"
  by (simp_all add: unclaimed_ids_def log_claim_def)

lemma agents_log_claim [simp]: "agents (log_claim en w) = agents w"
  by (simp add: log_claim_def)




lemma call_agent_goto [simp]:
  "call_agent (c\<lparr>cPc := p\<rparr>) = call_agent c"
  "call_agent (c\<lparr>cPc := p, cCas := b\<rparr>) = call_agent c"
  by (simp_all add: call_agent_def)















text \<open>
  The steps taken one after the other are the handler: a call that runs alone for sixteen
  steps has sent the reply of \<open>verify_route\<close> and left the stores as \<open>verify_route\<close> does.
\<close>

lemma steps_Suc: "steps X (Suc n) (c, w) = steps X n (verify_step X c w)"
  by (simp add: steps_def funpow_swap1)

lemma steps_0: "steps X 0 p = p"
  by (simp add: steps_def)

lemma steps_done: "cPc c = VDone r \<Longrightarrow> steps X n (c, w) = (c, w)"
  by (induction n) (simp_all add: steps_def verify_step_def)

lemma verify_step_at:
  "cPc c = VFindUser \<Longrightarrow> verify_step X c w =
     (if dbThrows (cEnv c) User FindOne then (c\<lparr>cPc := VDone (Err 500 [])\<rparr>, w)
      else (case find (\<lambda>u. walletAddress u = Some (the (bodyWallet (cReq c)))) (users w) of
             None \<Rightarrow> (c\<lparr>cPc := VInsertUser\<rparr>, w)
           | Some u \<Rightarrow> (c\<lparr>cPc := VLink (uid u)\<rparr>, w)))"
  "cPc c = VInsertUser \<Longrightarrow> verify_step X c w =
     (if dbThrows (cEnv c) User InsertOne then (c\<lparr>cPc := VDone (Err 500 [])\<rparr>, w)
      else (c\<lparr>cPc := VLink (newUserId (cEnv c))\<rparr>,
            w\<lparr>users := users w @ [new_user (cEnv c) (the (bodyWallet (cReq c)))]\<rparr>))"
  "cPc c = VLink u \<Longrightarrow> verify_step X c w =
     (if dbThrows (cEnv c) Agent UpdateOne then (c\<lparr>cPc := VDone (Err 500 [])\<rparr>, w)
      else (c\<lparr>cPc := VCount u\<rparr>, link_owner (now (cEnv c)) (call_agent c) u w))"
  "cPc c = VCount u \<Longrightarrow> verify_step X c w =
     (if dbThrows (cEnv c) Agent CountDocuments then (c\<lparr>cPc := VDone (Err 500 [])\<rparr>, w)
      else (c\<lparr>cPc := (if founding_rank_of (call_agent c) w \<le> 5000
                         then VFounding u (founding_rank_of (call_agent c) w)
                         else VDelNonce u (founding_rank_of (call_agent c) w))\<rparr>, w))"
  "cPc c = VFounding u k \<Longrightarrow> verify_step X c w =
     (if dbThrows (cEnv c) Agent UpdateOne then (c\<lparr>cPc := VDone (Err 500 [])\<rparr>, w)
      else (c\<lparr>cPc := VDelNonce u k\<rparr>, set_founding (call_agent c) k w))"
  "cPc c = VDelNonce u k \<Longrightarrow> verify_step X c w =
     (if redisThrows (cEnv c) DEL then (c\<lparr>cPc := VDone (Err 500 [])\<rparr>, w)
      else (c\<lparr>cPc := VAuditSuccess u k\<rparr>,
            w\<lparr>cache := redis_del (cache w)
                          (claim_nonce_key (call_agent c) (the (bodyWallet (cReq c))))\<rparr>))"
  "cPc c = VAuditSuccess u k \<Longrightarrow> verify_step X c w =
     (if dbThrows (cEnv c) WalletAgentClaims InsertOne then (c\<lparr>cPc := VDone (Err 500 [])\<rparr>, w)
      else (c\<lparr>cPc := VPublish u k\<rparr>,
            log_claim (claim_success_entry (the (bodyWallet (cReq c))) (call_agent c) u k
                         (cReq c) (now (cEnv c))) w))"
  "cPc c = VPublish u k \<Longrightarrow> verify_step X c w =
     (if redisThrows (cEnv c) PUBLISH then (c\<lparr>cPc := VDone (Err 500 [])\<rparr>, w)
      else (c\<lparr>cPc := VDone (claim_reply (call_agent c) k u)\<rparr>, w))"
  by (simp_all add: verify_step_def Let_def call_agent_def)

lemma call_agent_pc [simp]: "call_agent (c\<lparr>cPc := p\<rparr>) = call_agent c"
  by (simp add: call_agent_def)

lemma steps_done_upd [simp]: "steps X n (c\<lparr>cPc := VDone r\<rparr>, w) = (c\<lparr>cPc := VDone r\<rparr>, w)"
  by (rule steps_done) simp

lemma steps_if: "steps X n (if b then p else q) = (if b then steps X n p else steps X n q)"
  by simp

lemma verify_step_upd:
  "verify_step X (c\<lparr>cPc := VInsertUser\<rparr>) w =
     (if dbThrows (cEnv c) User InsertOne then (c\<lparr>cPc := VDone (Err 500 [])\<rparr>, w)
      else (c\<lparr>cPc := VLink (newUserId (cEnv c))\<rparr>,
            w\<lparr>users := users w @ [new_user (cEnv c) (the (bodyWallet (cReq c)))]\<rparr>))"
  "verify_step X (c\<lparr>cPc := VLink u\<rparr>) w =
     (if dbThrows (cEnv c) Agent UpdateOne then (c\<lparr>cPc := VDone (Err 500 [])\<rparr>, w)
      else (c\<lparr>cPc := VCount u\<rparr>, link_owner (now (cEnv c)) (call_agent c) u w))"
  "verify_step X (c\<lparr>cPc := VCount u\<rparr>) w =
     (if dbThrows (cEnv c) Agent CountDocuments then (c\<lparr>cPc := VDone (Err 500 [])\<rparr>, w)
      else (c\<lparr>cPc := (if founding_rank_of (call_agent c) w \<le> 5000
                         then VFounding u (founding_rank_of (call_agent c) w)
                         else VDelNonce u (founding_rank_of (call_agent c) w))\<rparr>, w))"
  "verify_step X (c\<lparr>cPc := VFounding u k\<rparr>) w =
     (if dbThrows (cEnv c) Agent UpdateOne then (c\<lparr>cPc := VDone (Err 500 [])\<rparr>, w)
      else (c\<lparr>cPc := VDelNonce u k\<rparr>, set_founding (call_agent c) k w))"
  "verify_step X (c\<lparr>cPc := VDelNonce u k\<rparr>) w =
     (if redisThrows (cEnv c) DEL then (c\<lparr>cPc := VDone (Err 500 [])\<rparr>, w)
      else (c\<lparr>cPc := VAuditSuccess u k\<rparr>,
            w\<lparr>cache := redis_del (cache w)
                          (claim_nonce_key (call_agent c) (the (bodyWallet (cReq c))))\<rparr>))"
  "verify_step X (c\<lparr>cPc := VAuditSuccess u k\<rparr>) w =
     (if dbThrows (cEnv c) WalletAgentClaims InsertOne then (c\<lparr>cPc := VDone (Err 500 [])\<rparr>, w)
      else (c\<lparr>cPc := VPublish u k\<rparr>,
            log_claim (claim_success_entry (the (bodyWallet (cReq c))) (call_agent c) u k
                         (cReq c) (now (cEnv c))) w))"
  "verify_step X (c\<lparr>cPc := VPublish u k\<rparr>) w =
     (if redisThrows (cEnv c) PUBLISH then (c\<lparr>cPc := VDone (Err 500 [])\<rparr>, w)
      else (c\<lparr>cPc := VDone (claim_reply (call_agent c) k u)\<rparr>, w))"
  by (simp_all add: verify_step_at)

lemma enrich_steps:
  assumes "cPc c = VFindUser"
  shows "replied (fst (steps X (9 + n) (c, w)))
           = Some (fst (claim_enrich (cEnv c) (cReq c) (the (bodyWallet (cReq c))) (call_agent c) w)) \<and>
         snd (steps X (9 + n) (c, w))
           = snd (claim_enrich (cEnv c) (cReq c) (the (bodyWallet (cReq c))) (call_agent c) w)"
proof -
  have n: "9 + n = Suc (Suc (Suc (Suc (Suc (Suc (Suc (Suc (Suc n))))))))" by simp
  show ?thesis
    unfolding n
    by (simp add: steps_Suc verify_step_at(1) [OF assms] verify_step_upd steps_if Let_def
        claim_enrich_def replied_def split: option.splits)
qed

lemma verify_step_front:
  "verify_step X (c\<lparr>cPc := VGetNonce\<rparr>) w =
     (if redisThrows (cEnv c) GET then (c\<lparr>cPc := VDone (Err 500 [])\<rparr>, w)
      else (case redis_get (now (cEnv c)) (cache w)
                  (claim_nonce_key (call_agent c) (the (bodyWallet (cReq c)))) of
             None \<Rightarrow> (c\<lparr>cPc := VFailIncr ''NONCE_EXPIRED''\<rparr>, w)
           | Some (RNonce storedNonce storedTimestamp message) \<Rightarrow>
               if storedNonce \<noteq> the (bodyNonce (cReq c))
                 then (c\<lparr>cPc := VFailIncr ''NONCE_MISMATCH''\<rparr>, w)
               else if \<not> verifySolanaSignature X (the (bodyWallet (cReq c))) message
                           (the (bodySignature (cReq c)))
                 then (c\<lparr>cPc := VFailIncr ''INVALID_SIGNATURE''\<rparr>, w)
               else (c\<lparr>cPc := VCas\<rparr>, w)
           | Some other \<Rightarrow> (c\<lparr>cPc := VFailIncr ''NONCE_MISMATCH''\<rparr>, w)))"
  "verify_step X (c\<lparr>cPc := VFailIncr reason\<rparr>) w =
     (if redisThrows (cEnv c) INCR then (c\<lparr>cPc := after_fail reason\<rparr>, w)
      else (case redis_incr (now (cEnv c)) (cache w) (abuse_wallet_key (the (bodyWallet (cReq c)))) of
              None \<Rightarrow> (c\<lparr>cPc := after_fail reason\<rparr>, w)
            | Some (cnt, r1) \<Rightarrow>
                if cnt = 1 then (c\<lparr>cPc := VFailExpire reason\<rparr>, w\<lparr>cache := r1\<rparr>)
                else (c\<lparr>cPc := after_fail reason\<rparr>, w\<lparr>cache := r1\<rparr>)))"
  "verify_step X (c\<lparr>cPc := VFailExpire reason\<rparr>) w =
     (if redisThrows (cEnv c) EXPIRE then (c\<lparr>cPc := after_fail reason\<rparr>, w)
      else (c\<lparr>cPc := after_fail reason\<rparr>,
            w\<lparr>cache := redis_expire (now (cEnv c)) (cache w)
                           (abuse_wallet_key (the (bodyWallet (cReq c)))) 3600\<rparr>))"
  "verify_step X (c\<lparr>cPc := VAuditInvalid\<rparr>) w =
     (if dbThrows (cEnv c) WalletAgentClaims InsertOne then (c\<lparr>cPc := VDone (Err 500 [])\<rparr>, w)
      else (c\<lparr>cPc := VDone (Err 403 ''INVALID_SIGNATURE'')\<rparr>,
            log_claim (audit_entry (Some (the (bodyWallet (cReq c)))) (Some (call_agent c))
                         ''CLAIM_FAILED'' (Some ''INVALID_SIGNATURE'') (cReq c) (now (cEnv c))) w))"
  "verify_step X (c\<lparr>cPc := VCas\<rparr>) w =
     (if dbThrows (cEnv c) Agent FindOneAndUpdate then (c\<lparr>cPc := VDone (Err 500 [])\<rparr>, w)
      else (case claim_cas (now (cEnv c)) (call_agent c) (the (bodyWallet (cReq c)))
                   (the (bodySignature (cReq c))) (the (bodyNonce (cReq c))) w of
              (None, w1) \<Rightarrow> (c\<lparr>cPc := VDelConflict, cCas := Some False\<rparr>, w1)
            | (Some claimedAgent, w1) \<Rightarrow> (c\<lparr>cPc := VFindUser, cCas := Some True\<rparr>, w1)))"
  "verify_step X (c\<lparr>cPc := VDelConflict\<rparr>) w =
     (if redisThrows (cEnv c) DEL then (c\<lparr>cPc := VDone (Err 500 [])\<rparr>, w)
      else (c\<lparr>cPc := VDone (Err 409 ''ALREADY_CLAIMED'')\<rparr>,
            w\<lparr>cache := redis_del (cache w)
                          (claim_nonce_key (call_agent c) (the (bodyWallet (cReq c))))\<rparr>))"
  by (simp_all add: verify_step_def Let_def call_agent_def split: prod.splits option.splits)

lemma fail_steps:
  assumes "redisUp (cEnv c)" "the (bodyWallet (cReq c)) \<noteq> []" "after_fail reason = VDone r"
  shows "steps X (Suc (Suc n)) (c\<lparr>cPc := VFailIncr reason\<rparr>, w) =
           (c\<lparr>cPc := VDone r\<rparr>,
            w\<lparr>cache := recordFailedClaimAttempt (cEnv c) (cache w) (the (bodyWallet (cReq c)))\<rparr>)"
  using assms
  by (simp add: steps_Suc verify_step_front steps_if recordFailedClaimAttempt_def
      split: option.splits prod.splits)

lemma invalid_steps:
  assumes "redisUp (cEnv c)" "the (bodyWallet (cReq c)) \<noteq> []"
  shows "steps X (Suc (Suc (Suc n))) (c\<lparr>cPc := VFailIncr ''INVALID_SIGNATURE''\<rparr>, w) =
           (let w1 = w\<lparr>cache := recordFailedClaimAttempt (cEnv c) (cache w) (the (bodyWallet (cReq c)))\<rparr>
            in if dbThrows (cEnv c) WalletAgentClaims InsertOne
                 then (c\<lparr>cPc := VDone (Err 500 [])\<rparr>, w1)
               else (c\<lparr>cPc := VDone (Err 403 ''INVALID_SIGNATURE'')\<rparr>,
                     log_claim (audit_entry (Some (the (bodyWallet (cReq c)))) (Some (call_agent c))
                         ''CLAIM_FAILED'' (Some ''INVALID_SIGNATURE'') (cReq c) (now (cEnv c))) w1))"
  using assms
  by (simp add: steps_Suc verify_step_front steps_if recordFailedClaimAttempt_def after_fail_def
      Let_def split: option.splits prod.splits)

lemma conflict_steps:
  assumes "cPc c = VDelConflict"
  shows "steps X (Suc n) (c, w) =
     (if redisThrows (cEnv c) DEL then (c\<lparr>cPc := VDone (Err 500 [])\<rparr>, w)
      else (c\<lparr>cPc := VDone (Err 409 ''ALREADY_CLAIMED'')\<rparr>,
            w\<lparr>cache := redis_del (cache w)
                          (claim_nonce_key (call_agent c) (the (bodyWallet (cReq c))))\<rparr>))"
  using assms by (simp add: steps_Suc verify_step_def Let_def call_agent_def)

lemma cas_steps:
  "replied (fst (steps X (10 + n) (c\<lparr>cPc := VCas\<rparr>, w)))
     = Some (fst (claim_transition (cEnv c) (cReq c) (the (bodyWallet (cReq c))) (call_agent c)
                    (the (bodySignature (cReq c))) (the (bodyNonce (cReq c))) w)) \<and>
   snd (steps X (10 + n) (c\<lparr>cPc := VCas\<rparr>, w))
     = snd (claim_transition (cEnv c) (cReq c) (the (bodyWallet (cReq c))) (call_agent c)
              (the (bodySignature (cReq c))) (the (bodyNonce (cReq c))) w)"
proof -
  have n: "10 + n = Suc (9 + n)" and m: "9 + n = Suc (8 + n)" by simp_all
  let ?cas = "claim_cas (now (cEnv c)) (call_agent c) (the (bodyWallet (cReq c)))
                   (the (bodySignature (cReq c))) (the (bodyNonce (cReq c))) w"
  obtain res w1 where cas: "?cas = (res, w1)" by (cases ?cas)
  show ?thesis
  proof (cases "dbThrows (cEnv c) Agent FindOneAndUpdate")
    case True
    then have "steps X (10 + n) (c\<lparr>cPc := VCas\<rparr>, w) = (c\<lparr>cPc := VDone (Err 500 [])\<rparr>, w)"
      unfolding n steps_Suc verify_step_front by simp
    then show ?thesis using True by (simp add: claim_transition_def replied_def)
  next
    case False
    show ?thesis
    proof (cases res)
      case None
      have st: "steps X (10 + n) (c\<lparr>cPc := VCas\<rparr>, w)
                  = steps X (9 + n) (c\<lparr>cPc := VDelConflict, cCas := Some False\<rparr>, w1)"
        unfolding n steps_Suc verify_step_front using False cas None by simp
      have "cPc (c\<lparr>cPc := VDelConflict, cCas := Some False\<rparr>) = VDelConflict" by simp
      note cf = conflict_steps [OF this, of X "8 + n" w1, folded m]
      show ?thesis
        unfolding st cf using False cas None
        by (simp add: claim_transition_def replied_def call_agent_def)
    next
      case (Some a)
      have st: "steps X (10 + n) (c\<lparr>cPc := VCas\<rparr>, w)
                  = steps X (9 + n) (c\<lparr>cPc := VFindUser, cCas := Some True\<rparr>, w1)"
        unfolding n steps_Suc verify_step_front using False cas Some by simp
      have "cPc (c\<lparr>cPc := VFindUser, cCas := Some True\<rparr>) = VFindUser" by simp
      note en = enrich_steps [OF this, of X n w1]
      show ?thesis
        unfolding st using False cas Some en
        by (simp add: claim_transition_def call_agent_def)
    qed
  qed
qed

lemma nonce_steps:
  assumes t: "truthy (bodyWallet (cReq c))" "truthy (bodyAgentId (cReq c))"
      "truthy (bodySignature (cReq c))" "truthy (bodyNonce (cReq c))"
    and v: "isValidSolanaAddress X (JStr (the (bodyWallet (cReq c))))"
      "objectId_isValid X (the (bodyAgentId (cReq c)))"
    and up: "dbUp (cEnv c)" "redisUp (cEnv c)"
  shows "replied (fst (steps X (11 + n) (c\<lparr>cPc := VGetNonce\<rparr>, w)))
           = Some (fst (verify_route X (cEnv c) (cReq c) w)) \<and>
         snd (steps X (11 + n) (c\<lparr>cPc := VGetNonce\<rparr>, w))
           = snd (verify_route X (cEnv c) (cReq c) w)"
proof -
  have wl: "the (bodyWallet (cReq c)) \<noteq> []"
    using t(1) by (auto simp: truthy_def split: option.splits)
  have n: "11 + n = Suc (10 + n)" "10 + n = Suc (Suc (8 + n))" "10 + n = Suc (Suc (Suc (7 + n)))"
    by simp_all
  have f1: "steps X (10 + n) (c\<lparr>cPc := VFailIncr ''NONCE_EXPIRED''\<rparr>, w) =
           (c\<lparr>cPc := VDone (Err 400 ''NONCE_EXPIRED'')\<rparr>,
            w\<lparr>cache := recordFailedClaimAttempt (cEnv c) (cache w) (the (bodyWallet (cReq c)))\<rparr>)"
    unfolding n(2) by (rule fail_steps [OF up(2) wl]) (simp add: after_fail_def)
  have f2: "steps X (10 + n) (c\<lparr>cPc := VFailIncr ''NONCE_MISMATCH''\<rparr>, w) =
           (c\<lparr>cPc := VDone (Err 400 ''NONCE_MISMATCH'')\<rparr>,
            w\<lparr>cache := recordFailedClaimAttempt (cEnv c) (cache w) (the (bodyWallet (cReq c)))\<rparr>)"
    unfolding n(2) by (rule fail_steps [OF up(2) wl]) (simp add: after_fail_def)
  have f3: "steps X (10 + n) (c\<lparr>cPc := VFailIncr ''INVALID_SIGNATURE''\<rparr>, w) =
           (let w1 = w\<lparr>cache := recordFailedClaimAttempt (cEnv c) (cache w) (the (bodyWallet (cReq c)))\<rparr>
            in if dbThrows (cEnv c) WalletAgentClaims InsertOne
                 then (c\<lparr>cPc := VDone (Err 500 [])\<rparr>, w1)
               else (c\<lparr>cPc := VDone (Err 403 ''INVALID_SIGNATURE'')\<rparr>,
                     log_claim (audit_entry (Some (the (bodyWallet (cReq c)))) (Some (call_agent c))
                         ''CLAIM_FAILED'' (Some ''INVALID_SIGNATURE'') (cReq c) (now (cEnv c))) w1))"
    unfolding n(3) by (rule invalid_steps [OF up(2) wl])
  note f4 = cas_steps [of X n c w]
  have route: "verify_route X (cEnv c) (cReq c) w =
     (if redisThrows (cEnv c) GET then (Err 500 [], w)
      else (case redis_get (now (cEnv c)) (cache w)
                  (claim_nonce_key (call_agent c) (the (bodyWallet (cReq c)))) of
              None \<Rightarrow>
                (Err 400 ''NONCE_EXPIRED'',
                 w\<lparr>cache := recordFailedClaimAttempt (cEnv c) (cache w) (the (bodyWallet (cReq c)))\<rparr>)
            | Some (RNonce storedNonce storedTimestamp message) \<Rightarrow>
                if storedNonce \<noteq> the (bodyNonce (cReq c)) then
                  (Err 400 ''NONCE_MISMATCH'',
                   w\<lparr>cache := recordFailedClaimAttempt (cEnv c) (cache w) (the (bodyWallet (cReq c)))\<rparr>)
                else if \<not> verifySolanaSignature X (the (bodyWallet (cReq c))) message
                            (the (bodySignature (cReq c))) then
                  (let w1 = w\<lparr>cache := recordFailedClaimAttempt (cEnv c) (cache w) (the (bodyWallet (cReq c)))\<rparr>
                   in if dbThrows (cEnv c) WalletAgentClaims InsertOne then (Err 500 [], w1)
                      else (Err 403 ''INVALID_SIGNATURE'',
                            log_claim (audit_entry (Some (the (bodyWallet (cReq c)))) (Some (call_agent c))
                                         ''CLAIM_FAILED'' (Some ''INVALID_SIGNATURE'') (cReq c)
                                         (now (cEnv c))) w1))
                else claim_transition (cEnv c) (cReq c) (the (bodyWallet (cReq c))) (call_agent c)
                       (the (bodySignature (cReq c))) (the (bodyNonce (cReq c))) w
            | Some other \<Rightarrow>
                (Err 400 ''NONCE_MISMATCH'',
                 w\<lparr>cache := recordFailedClaimAttempt (cEnv c) (cache w) (the (bodyWallet (cReq c)))\<rparr>)))"
    using t v up
    by (simp add: verify_route_def Let_def call_agent_def split: option.splits rvalue.splits)
  show ?thesis
    unfolding route n(1) steps_Suc verify_step_front
    using f1 f2 f3 f4
    by (simp add: steps_if replied_def Let_def split: option.splits rvalue.splits)
qed

lemma run_alone_verify_route:
  "replied (fst (run_alone X e req w)) = Some (fst (verify_route X e req w)) \<and>
   snd (run_alone X e req w) = snd (verify_route X e req w)"
proof -
  let ?c = "start_call e req"
  have c: "cPc ?c = VStart" "cEnv ?c = e" "cReq ?c = req" by (simp_all add: start_call_def)
  have "run_alone X e req w = steps X (Suc (11 + 4)) (?c, w)"
    unfolding run_alone_def steps_def by simp
  then have run: "run_alone X e req w = steps X (11 + 4) (verify_step X ?c w)"
    unfolding steps_Suc .
  show ?thesis
  proof (cases "truthy (bodyWallet req) \<and> truthy (bodyAgentId req) \<and>
                truthy (bodySignature req) \<and> truthy (bodyNonce req) \<and>
                isValidSolanaAddress X (JStr (the (bodyWallet req))) \<and>
                objectId_isValid X (the (bodyAgentId req)) \<and> dbUp e \<and> redisUp e")
    case True
    then have st: "verify_step X ?c w = (?c\<lparr>cPc := VGetNonce\<rparr>, w)"
      using c by (simp add: verify_step_def Let_def)
    from True nonce_steps [of ?c X 4 w] show ?thesis
      unfolding run st c by simp
  next
    case False
    then have "\<exists>r. verify_step X ?c w = (?c\<lparr>cPc := VDone r\<rparr>, w) \<and>
                  verify_route X e req w = (r, w)"
      using c by (auto simp: verify_step_def verify_route_def Let_def)
    then show ?thesis unfolding run by (auto simp: replied_def)
  qed
qed




subsection \<open>The opt-out blocklist\<close>

text \<open>No operation takes a wallet off the blocklist.\<close>

lemma optOuts_log_claim [simp]: "optOuts (log_claim en w) = optOuts w"
  by (simp add: log_claim_def)

lemma check_route_optOuts: "optOuts (snd (check_route X e req w)) = optOuts w"
  by (simp add: check_route_def Let_def split: option.splits)

lemma nonce_route_optOuts: "optOuts (snd (nonce_route X e req w)) = optOuts w"
  by (simp add: nonce_route_def Let_def split: option.splits)

lemma optout_nonce_route_optOuts: "optOuts (snd (optout_nonce_route X e req w)) = optOuts w"
  by (simp add: optout_nonce_route_def Let_def)

lemma claim_cas_optOuts: "optOuts (snd (claim_cas t A W sg n w)) = optOuts w"
  by (simp add: claim_cas_def split: option.splits)

lemma claim_enrich_optOuts: "optOuts (snd (claim_enrich e req W A w)) = optOuts w"
  by (simp add: claim_enrich_def Let_def link_owner_def set_founding_def split: option.splits)

lemma claim_transition_optOuts: "optOuts (snd (claim_transition e req W A sg n w)) = optOuts w"
proof -
  obtain res w1 where c: "claim_cas (now e) A W sg n w = (res, w1)"
    by (cases "claim_cas (now e) A W sg n w")
  then have "optOuts w1 = optOuts w" using claim_cas_optOuts [of "now e" A W sg n w] by simp
  then show ?thesis using c
    by (cases res) (simp_all add: claim_transition_def claim_enrich_optOuts)
qed

lemma verify_route_optOuts: "optOuts (snd (verify_route X e req w)) = optOuts w"
  by (simp add: verify_route_def Let_def claim_transition_optOuts split: option.splits rvalue.splits)

lemma opted_out_append: "opted_out W w \<Longrightarrow> optOuts w' = optOuts w @ xs \<Longrightarrow> opted_out W w'"
  by (auto simp: opted_out_def find_None_iff)

lemma opted_out_same: "opted_out W w \<Longrightarrow> optOuts w' = optOuts w \<Longrightarrow> opted_out W w'"
  by (simp add: opted_out_def)

lemma delete_children_optOuts [simp]: "optOuts (delete_children e A w) = optOuts w"
  by (simp add: delete_children_def)

lemma optout_block_optOuts:
  "\<exists>xs. optOuts (snd (optout_block e req W sg found w)) = optOuts w @ xs"
  by (simp add: optout_block_def Let_def)

lemma optout_route_optOuts: "\<exists>xs. optOuts (snd (optout_route X e req w)) = optOuts w @ xs"
proof -
  have b: "\<exists>xs. optOuts (snd (optout_block e req W sg found w1)) = optOuts w @ xs"
    if "optOuts w1 = optOuts w" for W sg found w1
    using optout_block_optOuts [of e req W sg found w1] that by simp
  show ?thesis
    by (simp add: optout_route_def Let_def b split: option.splits rvalue.splits)
qed

lemma foldl_optOuts:
  assumes "\<And>x s v. optOuts (snd (f (s, v) x)) = optOuts v"
  shows "optOuts (snd (foldl f (s, w) xs)) = optOuts w"
proof (induction xs arbitrary: s w)
  case Nil
  then show ?case by simp
next
  case (Cons x xs)
  obtain s1 w1 where st: "f (s, w) x = (s1, w1)" by (cases "f (s, w) x")
  have "optOuts w1 = optOuts w" using assms [of s w x] st by simp
  then show ?case using Cons [of s1 w1] st by simp
qed

lemma notify_watcher_optOuts: "optOuts (snd (notify_watcher e a x (s, w))) = optOuts w"
  by (simp add: notify_watcher_def Let_def)

lemma orphan_agent_optOuts: "optOuts (snd (orphan_agent e a (s, w))) = optOuts w"
proof -
  have f: "optOuts (snd (foldl (\<lambda>acc x. notify_watcher e a x acc) (s1, w1) xs)) = optOuts w1"
    for s1 w1 xs
    by (rule foldl_optOuts) (rule notify_watcher_optOuts)
  show ?thesis
    by (simp add: orphan_agent_def Let_def f split: option.splits)
qed

lemma processOrphanTransitions_optOuts: "optOuts (snd (processOrphanTransitions e w)) = optOuts w"
proof -
  have f: "optOuts (snd (foldl (\<lambda>acc a. orphan_agent e a acc) (s1, w1) xs)) = optOuts w1"
    for s1 w1 xs
    by (rule foldl_optOuts) (rule orphan_agent_optOuts)
  show ?thesis
    by (simp add: processOrphanTransitions_def Let_def f)
qed

lemma record_failure_optOuts:
  "optOuts (snd (record_failure e a days entry (l, w))) = optOuts w"
  by (cases entry) (simp add: record_failure_def Let_def)

lemma send_one_optOuts: "optOuts (snd (send_one e memo a days entry (l, w))) = optOuts w"
  by (cases entry)
     (simp add: send_one_def Let_def record_failure_optOuts split: send_result.splits)

lemma deliver_due_optOuts:
  "optOuts (snd (deliver_due e memo a days sentT sched (l, w))) = optOuts w"
proof (induction sched arbitrary: l w)
  case Nil
  then show ?case by simp
next
  case (Cons entry rest)
  obtain d ch tp where en: "entry = (d, ch, tp)" by (cases entry)
  obtain l1 w1 where so: "send_one e memo a days entry (l, w) = (l1, w1)"
    by (cases "send_one e memo a days entry (l, w)")
  have w1: "optOuts w1 = optOuts w" using send_one_optOuts [of e memo a days entry l w] so by simp
  show ?case
    using Cons [of l1 w1] Cons [of "l\<lparr>skipped := skipped l + 1\<rparr>" w] Cons [of l w] w1 so
    by (simp add: en)
qed

lemma notify_agents_optOuts: "optOuts (snd (notify_agents e memo xs (l, w))) = optOuts w"
proof (induction xs arbitrary: l w)
  case Nil
  then show ?case by simp
next
  case (Cons a rest)
  let ?d = "deliver_due e memo a (daysSinceCreation e a) (getSentNotifications w (aid a))
                  NOTIFICATION_SCHEDULE (l, w)"
  obtain l1 w1 where dd: "?d = (l1, w1)" by (cases ?d)
  have w1: "optOuts w1 = optOuts w"
    using deliver_due_optOuts [of e memo a "daysSinceCreation e a" "getSentNotifications w (aid a)"
        NOTIFICATION_SCHEDULE l w] dd by simp
  show ?case using Cons [of l1 w1] w1 dd by simp
qed

lemma processNotifications_optOuts:
  "optOuts (snd (snd (processNotifications e memo w))) = optOuts w"
proof -
  let ?l0 = "\<lparr>sent = 0, failed = 0, skipped = 0, memoCalls = [], rejected = False\<rparr>"
  let ?xs = "filter (\<lambda>a. isWalletAgent a \<and> claimStatus a = Some ''UNCLAIMED'') (agents w)"
  obtain l1 w1 where na: "notify_agents e memo ?xs (?l0, w) = (l1, w1)"
    by (cases "notify_agents e memo ?xs (?l0, w)")
  have "optOuts w1 = optOuts w" using notify_agents_optOuts [of e memo ?xs ?l0 w] na by simp
  then show ?thesis using na by (simp add: processNotifications_def Let_def)
qed

lemma perform_keeps_opt_out: "opted_out W w \<Longrightarrow> opted_out W (perform X a w)"
proof (cases a)
  case (OptOut e req)
  obtain xs where "optOuts (snd (optout_route X e req w)) = optOuts w @ xs"
    using optout_route_optOuts by blast
  then show "opted_out W w \<Longrightarrow> ?thesis"
    using OptOut by (simp add: perform_def opted_out_append)
qed (simp_all add: perform_def opted_out_def check_route_optOuts nonce_route_optOuts
      verify_route_optOuts optout_nonce_route_optOuts processOrphanTransitions_optOuts
      processNotifications_optOuts)

lemma perform_all_keeps_opt_out: "opted_out W w \<Longrightarrow> opted_out W (perform_all X as w)"
  unfolding perform_all_def
  by (induction as arbitrary: w) (simp_all add: perform_keeps_opt_out)

lemma optout_block_reply:
  assumes "optout_block e req wallet sg found w = (OptOutReply W t, w1)"
  shows "W = wallet \<and> opted_out W w1"
  using assms
  by (auto simp: optout_block_def Let_def opted_out_def log_claim_def find_None_iff
      split: if_splits)

lemma optout_reply_blocks:
  assumes "optout_route X e req w = (OptOutReply W t, w1)"
  shows "W \<noteq> [] \<and> isValidSolanaAddress X (JStr W) \<and> opted_out W w1"
proof -
  let ?wl = "the (bodyWallet req)"
  have t: "truthy (bodyWallet req)" "isValidSolanaAddress X (JStr ?wl)"
    using assms by (auto simp: optout_route_def Let_def split: if_splits)
  then have ne: "?wl \<noteq> []" by (auto simp: truthy_def split: option.splits)
  have "\<exists>found w0. optout_block e req ?wl (the (bodySignature req)) found w0 = (OptOutReply W t, w1)"
    using assms
    by (auto simp: optout_route_def Let_def split: if_splits option.splits rvalue.splits)
  then obtain found w0 where
    "optout_block e req ?wl (the (bodySignature req)) found w0 = (OptOutReply W t, w1)"
    by blast
  from optout_block_reply [OF this] t ne show ?thesis by auto
qed

lemma check_route_opted_out:
  assumes "opted_out W w" "W \<noteq> []" "isValidSolanaAddress X (JStr W)" "queryWallet req = Some W"
  shows "fst (check_route X e req w) =
           (if \<not> dbUp e then Err 503 []
            else if dbThrows e WalletOptOuts FindOne \<or> dbThrows e WalletAgentClaims InsertOne
              then Err 500 []
            else CheckReply False (Some ''OPTED_OUT'') None)"
  using assms by (auto simp: check_route_def opted_out_def)

text \<open>
  C3. After an opt-out that was answered with success for wallet \<open>W\<close>, and after any
  operations of the subsystem and any other writes of the repository in any order, the
  wallet is on the blocklist, and a check of \<open>W\<close> that reaches the handler is answered
  ineligible with reason \<^verbatim>\<open>OPTED_OUT\<close> (503 when its invocation has no database, 500 when
  its blocklist lookup or its audit insertion throws; 429 when the rate limiter stops the
  request in front of the handler). The answer is read off the blocklist before any agent
  is looked up: it is the same whatever agents exist, a new agent of \<open>W\<close> included.
\<close>

theorem optout_is_permanent:
  assumes opt: "optout_route X e req w = (OptOutReply W t, w1)"
    and later: "w2 = perform_all X acts w1"
    and ask: "queryWallet req' = Some W"
  shows "opted_out W w2 \<and>
         fst (check_endpoint X limited e' req' w2) =
           (if limited then Err 429 ''RATE_LIMIT_CHECK''
            else if \<not> dbUp e' then Err 503 []
            else if dbThrows e' WalletOptOuts FindOne \<or> dbThrows e' WalletAgentClaims InsertOne
              then Err 500 []
            else CheckReply False (Some ''OPTED_OUT'') None) \<and>
         fst (check_endpoint X limited e' req' (w2\<lparr>agents := newAgents\<rparr>))
           = fst (check_endpoint X limited e' req' w2)"
proof -
  from optout_reply_blocks [OF opt]
  have W: "W \<noteq> []" "isValidSolanaAddress X (JStr W)" and o1: "opted_out W w1" by simp_all
  have o2: "opted_out W w2" unfolding later using o1 by (rule perform_all_keeps_opt_out)
  then have o3: "opted_out W (w2\<lparr>agents := newAgents\<rparr>)" by (simp add: opted_out_def)
  show ?thesis
    using o2 check_route_opted_out [OF o2 W ask, of e'] check_route_opted_out [OF o3 W ask, of e']
    by (simp add: check_endpoint_def)
qed

text \<open>
  On the concrete stores: the opt-out deletes the agent, a new agent is created for the
  wallet, and the check still answers \<^verbatim>\<open>OPTED_OUT\<close>; with the blocklist emptied the same
  check would answer eligible.
\<close>

theorem optout_is_permanent_witness:
  "fst (optout_route demo_ext (quiet_env 2000) (optout_request zero_signature ''5f2a'') optout_world)
     = OptOutReply demo_wallet 2000 \<and>
   agents (snd (optout_route demo_ext (quiet_env 2000) (optout_request zero_signature ''5f2a'')
                  optout_world)) = [] \<and>
   agents after_optout = [demo_agent] \<and>
   fst (check_endpoint demo_ext False (quiet_env 3000) wallet_query after_optout)
     = CheckReply False (Some ''OPTED_OUT'') None \<and>
   fst (check_endpoint demo_ext False (quiet_env 3000) wallet_query (after_optout\<lparr>optOuts := []\<rparr>))
     = CheckReply True None
         (Some \<lparr> caId = demo_agent_id, caClaimStatus = ''UNCLAIMED'',
                 caClaimDeadline = Some 2592000000, caDaysRemaining = Some 30,
                 caClaimedAt = None, caClaimedBy = None \<rparr>)"
proof -
  let ?res = "optout_route demo_ext (quiet_env 2000) (optout_request zero_signature ''5f2a'') optout_world"
  have r: "fst ?res = OptOutReply demo_wallet 2000" by code_simp
  then have opt: "?res = (OptOutReply demo_wallet 2000, snd ?res)" by (simp add: prod_eq_iff)
  have gone: "agents (snd ?res) = []" by code_simp
  have anew: "agents after_optout = [demo_agent]" by code_simp
  have ask: "queryWallet wallet_query = Some demo_wallet"
    by (simp add: wallet_query_def plain_request_def)
  have env: "dbUp (quiet_env 3000)" "\<not> dbThrows (quiet_env 3000) WalletOptOuts FindOne"
    "\<not> dbThrows (quiet_env 3000) WalletAgentClaims InsertOne"
    by (simp_all add: quiet_env_def)
  have contrast:
    "fst (check_endpoint demo_ext False (quiet_env 3000) wallet_query (after_optout\<lparr>optOuts := []\<rparr>))
     = CheckReply True None
         (Some \<lparr> caId = demo_agent_id, caClaimStatus = ''UNCLAIMED'',
                 caClaimDeadline = Some 2592000000, caDaysRemaining = Some 30,
                 caClaimedAt = None, caClaimedBy = None \<rparr>)"
    by code_simp
  from optout_is_permanent [OF opt after_optout_def ask, of False "quiet_env 3000"] env
  have "fst (check_endpoint demo_ext False (quiet_env 3000) wallet_query after_optout)
     = CheckReply False (Some ''OPTED_OUT'') None"
    by simp
  then show ?thesis using r gone anew contrast by simp
qed

subsection \<open>The invalid-signature branch\<close>

text \<open>What the middleware and the branches of the handler do to a claim nonce.\<close>

lemma nonce_key_not_ip [simp]: "claim_nonce_key a w \<noteq> abuse_ip_key i"
  by (simp add: claim_nonce_key_def abuse_ip_key_def)


















end
